(* ===== verification/Prelude.thy ===== *)
theory Prelude
  imports Main "HOL-Library.Word"
begin

text \<open>
  Shared vocabulary of the development: bytes and machine integers, Go's two ways of
  failing (an \<open>error\<close> result and a run-time panic) as values, the slice and array
  conversions of the language, the big-endian encodings of \<^verbatim>\<open>encoding/binary\<close>, the
  hexadecimal encoding of \<^verbatim>\<open>encoding/hex\<close>, strings as bytes, and the generic lemmas
  that the component theories use.
\<close>

unbundle bit_operations_syntax

named_theorems codec_simps \<open>round trips of the encodings of the standard library\<close>
named_theorems key_simps \<open>distinctness of the storage keys\<close>
named_theorems io_simps \<open>reading from and writing to streams\<close>

section \<open>Bytes, integers, failures\<close>

type_synonym byte = "8 word"
type_synonym bytes = "byte list"
type_synonym u32 = "32 word"
type_synonym u64 = "64 word"

text \<open>
  The error values the code creates or distinguishes. \<open>ErrNew\<close> is
  \<^verbatim>\<open>errors.New\<close> or \<^verbatim>\<open>fmt.Errorf\<close> with the given text, \<open>ErrWrap\<close> is
  \<^verbatim>\<open>fmt.Errorf\<close> with \<^verbatim>\<open>%w\<close>, and \<open>ErrLib\<close> is any other error that a library returns.
\<close>

datatype error =
    ErrEOF
  | ErrUnexpectedEOF
  | ErrKeyNotFound
  | ErrNew string
  | ErrWrap string error
  | ErrLib string

datatype panic =
    IndexOutOfRange
  | SliceToArrayLength
  | NilDereference
  | TypeAssertionFailed
  | ExplicitPanic string

datatype exn = Err error | Panic panic

type_synonym 'a result = "exn + 'a"

text \<open>
  \<^verbatim>\<open>errors.Is(err, target)\<close>: the error itself or an error it wraps.
\<close>

fun errors_Is :: "error \<Rightarrow> error \<Rightarrow> bool" where
  "errors_Is (ErrWrap s e) t = (ErrWrap s e = t \<or> errors_Is e t)"
| "errors_Is e t = (e = t)"

text \<open>A panic anywhere in a result; it unwinds the goroutine and ends the process.\<close>

fun is_panic :: "'a result \<Rightarrow> bool" where
  "is_panic (Inl (Panic p)) = True"
| "is_panic _ = False"

fun is_err :: "'a result \<Rightarrow> bool" where
  "is_err (Inl (Err e)) = True"
| "is_err _ = False"

lemma is_panic_iff: "is_panic r \<longleftrightarrow> (\<exists>p. r = Inl (Panic p))"
  by (cases r rule: is_panic.cases) auto

lemma is_err_iff: "is_err r \<longleftrightarrow> (\<exists>e. r = Inl (Err e))"
  by (cases r rule: is_err.cases) auto

text \<open>
  What is left of a failure in a function without a result that logs an error and returns:
  nothing, or the panic.
\<close>

fun exn_panic :: "exn \<Rightarrow> panic option" where
  "exn_panic (Err e) = None"
| "exn_panic (Panic p) = Some p"

lemma is_panic_Inl: "is_panic (Inl e :: 'a result) \<longleftrightarrow> exn_panic e \<noteq> None"
  by (cases e) simp_all

section \<open>Slices and arrays\<close>

text \<open>
  The conversion of a slice to an array of \<open>n\<close> bytes, \<^verbatim>\<open>[n]byte(s)\<close>: it panics when
  the slice is shorter than the array and takes the first \<open>n\<close> bytes otherwise.
\<close>

definition to_array :: "nat \<Rightarrow> bytes \<Rightarrow> bytes result" where
  "to_array n s = (if length s < n then Inl (Panic SliceToArrayLength) else Inr (take n s))"

text \<open>
  \<^verbatim>\<open>copy(dst, src)\<close>: the first \<open>min (length dst) (length src)\<close> bytes are overwritten.
\<close>

definition copy :: "bytes \<Rightarrow> bytes \<Rightarrow> bytes" where
  "copy dst src = take (length dst) src @ drop (length src) dst"

lemma length_copy [simp]: "length (copy dst src) = length dst"
  by (simp add: copy_def)

lemma copy_same_length: "length dst = length src \<Longrightarrow> copy dst src = src"
  by (simp add: copy_def)

lemma to_array_exact [simp]: "length s = n \<Longrightarrow> to_array n s = Inr s"
  by (simp add: to_array_def)

lemma to_array_InrD: "to_array n s = Inr a \<Longrightarrow> length a = n \<and> a = take n s"
  by (auto simp: to_array_def split: if_splits)

lemma to_array_panic_iff: "to_array n s = Inl x \<longleftrightarrow> length s < n \<and> x = Panic SliceToArrayLength"
  by (auto simp: to_array_def)

section \<open>Strings as bytes\<close>

text \<open>\<^verbatim>\<open>[]byte(s)\<close> of a string of the source, whose literals are ASCII.\<close>

definition bytes_of_string :: "string \<Rightarrow> bytes" where
  "bytes_of_string s = map of_char s"

lemma length_bytes_of_string [simp]: "length (bytes_of_string s) = length s"
  by (simp add: bytes_of_string_def)

lemma of_char_byte_inject [simp]: "(of_char c :: byte) = of_char d \<longleftrightarrow> c = d"
proof
  have of_char: "unat (of_char x :: byte) = of_char x" for x
  proof -
    have "(of_char x :: nat) < 256" by simp
    then have "unat (word_of_nat (of_char x) :: byte) = of_char x"
      by (simp add: unat_of_nat)
    then show ?thesis by (simp add: of_nat_of_char)
  qed
  assume "(of_char c :: byte) = of_char d"
  then have "(of_char c :: nat) = of_char d" by (metis of_char)
  then show "c = d" by simp
qed simp

lemma bytes_of_string_inject [simp]: "bytes_of_string s = bytes_of_string t \<longleftrightarrow> s = t"
  by (simp add: bytes_of_string_def inj_map_eq_map inj_def)

section \<open>Big-endian integers\<close>

text \<open>\<^verbatim>\<open>binary.BigEndian.PutUint32\<close>, \<^verbatim>\<open>Uint32\<close>, \<^verbatim>\<open>PutUint64\<close> and \<^verbatim>\<open>Uint64\<close>.\<close>

definition put_uint32 :: "u32 \<Rightarrow> bytes" where
  "put_uint32 v = [ucast (drop_bit 24 v), ucast (drop_bit 16 v), ucast (drop_bit 8 v), ucast v]"

fun get_uint32 :: "bytes \<Rightarrow> u32 result" where
  "get_uint32 (a # b # c # d # _) =
     Inr (ucast d OR push_bit 8 (ucast c) OR push_bit 16 (ucast b) OR push_bit 24 (ucast a))"
| "get_uint32 _ = Inl (Panic IndexOutOfRange)"

definition put_uint64 :: "u64 \<Rightarrow> bytes" where
  "put_uint64 v = map (\<lambda>i. ucast (drop_bit (8 * i) v)) [7, 6, 5, 4, 3, 2, 1, 0]"

fun get_uint64 :: "bytes \<Rightarrow> u64 result" where
  "get_uint64 (a # b # c # d # e # f # g # h # _) =
     Inr (ucast h OR push_bit 8 (ucast g) OR push_bit 16 (ucast f) OR push_bit 24 (ucast e) OR
          push_bit 32 (ucast d) OR push_bit 40 (ucast c) OR push_bit 48 (ucast b) OR
          push_bit 56 (ucast a))"
| "get_uint64 _ = Inl (Panic IndexOutOfRange)"

lemma length_put_uint32 [simp]: "length (put_uint32 v) = 4"
  by (simp add: put_uint32_def)

lemma length_put_uint64 [simp]: "length (put_uint64 v) = 8"
  by (simp add: put_uint64_def)

text \<open>One byte cut out of a word and put back in its place keeps exactly its eight bits.\<close>

lemma bit_byte_piece:
  fixes v :: "'a::len word"
  shows "bit (push_bit k (ucast (ucast (drop_bit k v) :: byte) :: 'a word)) n \<longleftrightarrow>
    k \<le> n \<and> n < k + 8 \<and> bit v n"
  by (auto simp: bit_simps dest: bit_imp_le_length)

lemma bit_byte_piece0:
  fixes v :: "'a::len word"
  shows "bit (ucast (ucast v :: byte) :: 'a word) n \<longleftrightarrow> n < 8 \<and> bit v n"
  using bit_byte_piece [of 0 v n] by simp

lemma get_put_uint32 [codec_simps]: "get_uint32 (put_uint32 v @ rest) = Inr v"
proof -
  have "ucast (ucast v :: byte) OR push_bit 8 (ucast (ucast (drop_bit 8 v) :: byte)) OR
      push_bit 16 (ucast (ucast (drop_bit 16 v) :: byte)) OR
      push_bit 24 (ucast (ucast (drop_bit 24 v) :: byte)) = v" (is "?w = v")
  proof (rule bit_word_eqI)
    fix n assume "n < LENGTH(32)"
    then show "bit ?w n = bit v n"
      by (simp only: bit_or_iff bit_byte_piece bit_byte_piece0) (simp, linarith)
  qed
  then show ?thesis by (simp add: put_uint32_def)
qed

lemma get_put_uint64 [codec_simps]: "get_uint64 (put_uint64 v @ rest) = Inr v"
proof -
  have "ucast (ucast v :: byte) OR push_bit 8 (ucast (ucast (drop_bit 8 v) :: byte)) OR
      push_bit 16 (ucast (ucast (drop_bit 16 v) :: byte)) OR
      push_bit 24 (ucast (ucast (drop_bit 24 v) :: byte)) OR
      push_bit 32 (ucast (ucast (drop_bit 32 v) :: byte)) OR
      push_bit 40 (ucast (ucast (drop_bit 40 v) :: byte)) OR
      push_bit 48 (ucast (ucast (drop_bit 48 v) :: byte)) OR
      push_bit 56 (ucast (ucast (drop_bit 56 v) :: byte)) = v" (is "?w = v")
  proof (rule bit_word_eqI)
    fix n assume "n < LENGTH(64)"
    then show "bit ?w n = bit v n"
      by (simp only: bit_or_iff bit_byte_piece bit_byte_piece0) (simp, linarith)
  qed
  then show ?thesis by (simp add: put_uint64_def)
qed

lemma put_uint64_inject [simp]: "put_uint64 v = put_uint64 w \<longleftrightarrow> v = w"
  by (metis get_put_uint64 append_Nil2 sum.inject(2))

section \<open>Decimal and hexadecimal text\<close>

text \<open>The verb \<^verbatim>\<open>%d\<close> of \<^verbatim>\<open>fmt\<close> on a number that is not negative.\<close>

fun decimal_digits :: "nat \<Rightarrow> nat list \<Rightarrow> nat list" where
  "decimal_digits n ds =
     (let q = n div 10; ds' = n mod 10 # ds in if q = 0 then ds' else decimal_digits q ds')"

declare decimal_digits.simps [simp del]

definition string_of_nat :: "nat \<Rightarrow> string" where
  "string_of_nat n = map (\<lambda>d. char_of (d + 48)) (decimal_digits n [])"

text \<open>
  \<^verbatim>\<open>hex.EncodeToString\<close> and \<^verbatim>\<open>hex.DecodeString\<close>: two lower-case digits per byte;
  decoding accepts both cases, refuses any other character and an odd length.
\<close>

definition hex_digit :: "byte \<Rightarrow> byte" where
  "hex_digit d = (if d < 10 then 0x30 + d else 0x57 + d)"

definition hex_value :: "byte \<Rightarrow> byte option" where
  "hex_value c =
     (if 0x30 \<le> c \<and> c \<le> 0x39 then Some (c - 0x30)
      else if 0x61 \<le> c \<and> c \<le> 0x66 then Some (c - 0x57)
      else if 0x41 \<le> c \<and> c \<le> 0x46 then Some (c - 0x37)
      else None)"

definition hex_EncodeToString :: "bytes \<Rightarrow> bytes" where
  "hex_EncodeToString bs = concat (map (\<lambda>b. [hex_digit (drop_bit 4 b), hex_digit (b AND 15)]) bs)"

fun hex_DecodeString :: "bytes \<Rightarrow> bytes result" where
  "hex_DecodeString [] = Inr []"
| "hex_DecodeString [c] =
     (case hex_value c of
        None \<Rightarrow> Inl (Err (ErrLib ''encoding/hex: invalid byte''))
      | Some _ \<Rightarrow> Inl (Err (ErrLib ''encoding/hex: odd length hex string'')))"
| "hex_DecodeString (c # d # cs) =
     (case hex_value c of
        None \<Rightarrow> Inl (Err (ErrLib ''encoding/hex: invalid byte''))
      | Some h \<Rightarrow>
        (case hex_value d of
           None \<Rightarrow> Inl (Err (ErrLib ''encoding/hex: invalid byte''))
         | Some l \<Rightarrow>
           (case hex_DecodeString cs of
              Inl e \<Rightarrow> Inl e
            | Inr bs \<Rightarrow> Inr ((push_bit 4 h OR l) # bs))))"

lemma hex_value_digit: "d < 16 \<Longrightarrow> hex_value (hex_digit d) = Some d"
  by (auto simp: hex_value_def hex_digit_def word_less_nat_alt word_le_nat_alt unat_word_ariths)

lemma unat_byte_less: "unat (b :: byte) < 256"
  using unsigned_less [of b] by simp

lemma nibble_mask: "(15 :: byte) = mask 4"
  by (simp add: mask_eq_exp_minus_1)

lemma byte_nibbles: "push_bit 4 (drop_bit 4 b) OR (b AND 15) = (b :: byte)"
  unfolding nibble_mask
  by (rule bit_word_eqI) (auto simp: bit_push_bit_iff bit_drop_bit_eq bit_or_iff bit_and_iff bit_mask_iff)

lemma nibble_bounds: "drop_bit 4 (b :: byte) < 16" "(b :: byte) AND 15 < 16"
proof -
  have "unat b < 2 ^ LENGTH(8)" by (rule unsigned_less)
  then show "drop_bit 4 b < 16"
    by (simp add: word_less_nat_alt unat_drop_bit_eq drop_bit_eq_div unat_div)
  have "b AND 15 \<le> 15" by (rule word_and_le1)
  then show "b AND 15 < 16" by (rule order_le_less_trans) simp
qed

lemma hex_roundtrip [codec_simps]: "hex_DecodeString (hex_EncodeToString bs) = Inr bs"
  by (induction bs)
    (simp_all add: hex_EncodeToString_def hex_value_digit nibble_bounds byte_nibbles)

lemma length_hex_EncodeToString [simp]: "length (hex_EncodeToString bs) = 2 * length bs"
  by (induction bs) (simp_all add: hex_EncodeToString_def)

end
