(* ===== verification/Hashes.thy ===== *)
theory Hashes
  imports Prelude
begin

text \<open>
  The two hash functions of the standard library that the code calls, \<^verbatim>\<open>sha256.Sum256\<close>
  and \<^verbatim>\<open>sha512.Sum512\<close>, as executable definitions (FIPS 180-4). The rest of the
  development uses of them that they are functions with 32 and 64 bytes of result; where a
  theorem needs that no two of the values at hand collide, it says so as a hypothesis on
  exactly those values.
\<close>

section \<open>The constants\<close>

text \<open>
  The round constants are the first bits of the fractional parts of the cube roots of the first
  primes, the initial state those of their square roots. \<open>root_search k n b r\<close> finds the largest
  number whose \<open>k\<close>-th power is at most \<open>n\<close>, bit by bit from bit \<open>b - 1\<close> down; 67 bits hold the
  roots of the primes used, with 64 bits after the point.
\<close>

fun root_search :: "nat \<Rightarrow> int \<Rightarrow> nat \<Rightarrow> int \<Rightarrow> int" where
  "root_search k n 0 r = r"
| "root_search k n (Suc b) r =
     (let r' = r + 2 ^ b in root_search k n b (if r' ^ k \<le> n then r' else r))"

definition root_bits :: "nat \<Rightarrow> int \<Rightarrow> u64" where
  "root_bits k p = of_int (root_search k (p * 2 ^ (64 * k)) 67 0)"

definition first_primes :: "int list" where
  "first_primes = [p \<leftarrow> [2..409]. list_all (\<lambda>d. p mod d \<noteq> 0) [2..p - 1]]"

definition sha512_K :: "u64 list" where
  "sha512_K = map (root_bits 3) first_primes"

definition sha512_H0 :: "u64 list" where
  "sha512_H0 = map (root_bits 2) (take 8 first_primes)"

text \<open>SHA-256 uses the upper halves.\<close>

definition sha256_K :: "u32 list" where
  "sha256_K = map (\<lambda>c. ucast (drop_bit 32 c)) (take 64 sha512_K)"

definition sha256_H0 :: "u32 list" where
  "sha256_H0 = map (\<lambda>c. ucast (drop_bit 32 c)) sha512_H0"

section \<open>SHA-256\<close>

definition rotr32 :: "nat \<Rightarrow> u32 \<Rightarrow> u32" where
  "rotr32 n x = drop_bit n x OR push_bit (32 - n) x"

fun words32 :: "bytes \<Rightarrow> u32 list" where
  "words32 (a # b # c # d # bs) =
     (push_bit 24 (ucast a) OR push_bit 16 (ucast b) OR push_bit 8 (ucast c) OR ucast d) # words32 bs"
| "words32 _ = []"

fun sha256_schedule :: "nat \<Rightarrow> u32 list \<Rightarrow> u32 list" where
  "sha256_schedule 0 w = w"
| "sha256_schedule (Suc n) w =
     (let t = length w; x = w ! (t - 15); y = w ! (t - 2);
          s0 = rotr32 7 x XOR rotr32 18 x XOR drop_bit 3 x;
          s1 = rotr32 17 y XOR rotr32 19 y XOR drop_bit 10 y
      in sha256_schedule n (w @ [w ! (t - 16) + s0 + w ! (t - 7) + s1]))"

type_synonym 'w hash_state = "'w \<times> 'w \<times> 'w \<times> 'w \<times> 'w \<times> 'w \<times> 'w \<times> 'w"

fun sha256_round :: "u32 hash_state \<Rightarrow> u32 \<times> u32 \<Rightarrow> u32 hash_state" where
  "sha256_round (a, b, c, d, e, f, g, h) (k, w) =
     (let s1 = rotr32 6 e XOR rotr32 11 e XOR rotr32 25 e;
          ch = (e AND f) XOR (NOT e AND g);
          t1 = h + s1 + ch + k + w;
          s0 = rotr32 2 a XOR rotr32 13 a XOR rotr32 22 a;
          maj = (a AND b) XOR (a AND c) XOR (b AND c);
          t2 = s0 + maj
      in (t1 + t2, a, b, c, d + t1, e, f, g))"

fun add_state :: "'w::plus hash_state \<Rightarrow> 'w hash_state \<Rightarrow> 'w hash_state" where
  "add_state (a, b, c, d, e, f, g, h) (a', b', c', d', e', f', g', h') =
     (a + a', b + b', c + c', d + d', e + e', f + f', g + g', h + h')"

fun state_of :: "'w list \<Rightarrow> 'w hash_state" where
  "state_of xs = (xs ! 0, xs ! 1, xs ! 2, xs ! 3, xs ! 4, xs ! 5, xs ! 6, xs ! 7)"

fun list_of :: "'w hash_state \<Rightarrow> 'w list" where
  "list_of (a, b, c, d, e, f, g, h) = [a, b, c, d, e, f, g, h]"

definition sha256_block :: "u32 hash_state \<Rightarrow> bytes \<Rightarrow> u32 hash_state" where
  "sha256_block s b =
     add_state s (foldl sha256_round s (zip sha256_K (sha256_schedule 48 (words32 b))))"

fun blocks :: "nat \<Rightarrow> nat \<Rightarrow> bytes \<Rightarrow> bytes list" where
  "blocks 0 n xs = []"
| "blocks (Suc k) n xs = take n xs # blocks k n (drop n xs)"

definition sha256_pad :: "bytes \<Rightarrow> bytes" where
  "sha256_pad m =
     m @ [0x80] @ replicate ((119 - length m mod 64) mod 64) 0 @ put_uint64 (of_nat (8 * length m))"

definition sha256 :: "bytes \<Rightarrow> bytes" where
  "sha256 m =
     (let p = sha256_pad m
      in concat (map put_uint32
           (list_of (foldl sha256_block (state_of sha256_H0) (blocks (length p div 64) 64 p)))))"

lemma length_concat_put_uint32: "length (concat (map put_uint32 (list_of s))) = 32"
  by (cases s rule: list_of.cases) simp

lemma length_sha256 [simp]: "length (sha256 m) = 32"
  by (simp add: sha256_def Let_def length_concat_put_uint32)

section \<open>SHA-512\<close>

definition rotr64 :: "nat \<Rightarrow> u64 \<Rightarrow> u64" where
  "rotr64 n x = drop_bit n x OR push_bit (64 - n) x"

fun words64 :: "bytes \<Rightarrow> u64 list" where
  "words64 (a # b # c # d # e # f # g # h # bs) =
     (push_bit 56 (ucast a) OR push_bit 48 (ucast b) OR push_bit 40 (ucast c) OR
      push_bit 32 (ucast d) OR push_bit 24 (ucast e) OR push_bit 16 (ucast f) OR
      push_bit 8 (ucast g) OR ucast h) # words64 bs"
| "words64 _ = []"

fun sha512_schedule :: "nat \<Rightarrow> u64 list \<Rightarrow> u64 list" where
  "sha512_schedule 0 w = w"
| "sha512_schedule (Suc n) w =
     (let t = length w; x = w ! (t - 15); y = w ! (t - 2);
          s0 = rotr64 1 x XOR rotr64 8 x XOR drop_bit 7 x;
          s1 = rotr64 19 y XOR rotr64 61 y XOR drop_bit 6 y
      in sha512_schedule n (w @ [w ! (t - 16) + s0 + w ! (t - 7) + s1]))"

fun sha512_round :: "u64 hash_state \<Rightarrow> u64 \<times> u64 \<Rightarrow> u64 hash_state" where
  "sha512_round (a, b, c, d, e, f, g, h) (k, w) =
     (let s1 = rotr64 14 e XOR rotr64 18 e XOR rotr64 41 e;
          ch = (e AND f) XOR (NOT e AND g);
          t1 = h + s1 + ch + k + w;
          s0 = rotr64 28 a XOR rotr64 34 a XOR rotr64 39 a;
          maj = (a AND b) XOR (a AND c) XOR (b AND c);
          t2 = s0 + maj
      in (t1 + t2, a, b, c, d + t1, e, f, g))"

definition sha512_block :: "u64 hash_state \<Rightarrow> bytes \<Rightarrow> u64 hash_state" where
  "sha512_block s b =
     add_state s (foldl sha512_round s (zip sha512_K (sha512_schedule 64 (words64 b))))"

definition sha512_pad :: "bytes \<Rightarrow> bytes" where
  "sha512_pad m =
     m @ [0x80] @ replicate ((239 - length m mod 128) mod 128) 0 @
     put_uint64 0 @ put_uint64 (of_nat (8 * length m))"

definition sha512 :: "bytes \<Rightarrow> bytes" where
  "sha512 m =
     (let p = sha512_pad m
      in concat (map put_uint64
           (list_of (foldl sha512_block (state_of sha512_H0) (blocks (length p div 128) 128 p)))))"

lemma length_concat_put_uint64: "length (concat (map put_uint64 (list_of s))) = 64"
  by (cases s rule: list_of.cases) simp

lemma length_sha512 [simp]: "length (sha512 m) = 64"
  by (simp add: sha512_def Let_def length_concat_put_uint64)

end
