(* ===== verification/Types.thy ===== *)
theory Types
  imports Hashes
begin

text \<open>
  The identifiers of \<^verbatim>\<open>pkg/api/types/types.go\<close>. Go's fixed-size byte arrays are byte
  lists here; the functions below are the only places where the code makes them out of
  byte slices, and each of them checks or fixes the length.
\<close>

type_synonym PeerID = bytes
type_synonym SessionID = bytes
type_synonym MessageID = bytes
type_synonym ContentHash = bytes
type_synonym PeerPublicKey = bytes
type_synonym PeerPrivateKey = bytes

text \<open>\<^verbatim>\<open>var id PeerID\<close>: the zero value of a 32-byte array.\<close>

definition zero32 :: bytes where
  "zero32 = replicate 32 0"

definition ToPeerID :: "bytes \<Rightarrow> PeerID result" where
  "ToPeerID b =
     (if length b \<noteq> 32 then Inl (Err (ErrNew (''wrong length: '' @ string_of_nat (length b))))
      else Inr (copy zero32 b))"

definition PeerPubKeyToID :: "PeerPublicKey \<Rightarrow> PeerID" where
  "PeerPubKeyToID pubKey = sha256 pubKey"

definition PeerPrivateKeyToPublic :: "PeerPrivateKey \<Rightarrow> PeerPublicKey" where
  "PeerPrivateKeyToPublic privKey = (let key = drop 32 privKey in copy zero32 key)"

text \<open>
  The package \<^verbatim>\<open>github.com/google/uuid\<close> is a parameter: \<open>uuid_FromBytes\<close> (16 raw
  bytes) and \<open>uuid_ParseBytes\<close> (the textual forms).
\<close>

record uuid_lib =
  uuid_FromBytes :: "bytes \<Rightarrow> bytes result"
  uuid_ParseBytes :: "bytes \<Rightarrow> bytes result"

definition ParseMessageID :: "uuid_lib \<Rightarrow> bytes \<Rightarrow> MessageID result" where
  "ParseMessageID U data =
     (case uuid_FromBytes U data of
        Inl e \<Rightarrow> Inl e
      | Inr b \<Rightarrow> Inr b)"

text \<open>
  What its documentation says of the package: \<^verbatim>\<open>FromBytes\<close> makes a UUID of a 16-byte
  slice and returns an error for any other length; \<^verbatim>\<open>ParseBytes\<close> accepts text of 36,
  45, 38 or 32 characters only, and what it returns is 16 bytes.
\<close>

definition uuid_documented :: "uuid_lib \<Rightarrow> bool" where
  "uuid_documented U \<longleftrightarrow>
     (\<forall>b. length b = 16 \<longrightarrow> uuid_FromBytes U b = Inr b) \<and>
     (\<forall>b. length b \<noteq> 16 \<longrightarrow> is_err (uuid_FromBytes U b)) \<and>
     (\<forall>b. length b \<notin> {32, 36, 38, 45} \<longrightarrow> is_err (uuid_ParseBytes U b)) \<and>
     (\<forall>b u. uuid_ParseBytes U b = Inr u \<longrightarrow> length u = 16)"

lemma length_zero32 [simp]: "length zero32 = 32"
  by (simp add: zero32_def)

lemma ToPeerID_Inr_iff: "ToPeerID b = Inr i \<longleftrightarrow> length b = 32 \<and> i = b"
  by (auto simp: ToPeerID_def copy_same_length)

lemma ToPeerID_no_panic: "\<not> is_panic (ToPeerID b)"
  by (simp add: ToPeerID_def)

lemma length_PeerPubKeyToID [simp]: "length (PeerPubKeyToID k) = 32"
  by (simp add: PeerPubKeyToID_def)

lemma length_PeerPrivateKeyToPublic [simp]: "length (PeerPrivateKeyToPublic k) = 32"
  by (simp add: PeerPrivateKeyToPublic_def Let_def)

lemma PeerPrivateKeyToPublic_eq: "length k = 64 \<Longrightarrow> PeerPrivateKeyToPublic k = drop 32 k"
  by (simp add: PeerPrivateKeyToPublic_def copy_same_length)

lemma ParseMessageID_simps [simp]: "ParseMessageID U b = uuid_FromBytes U b"
  by (simp add: ParseMessageID_def split: sum.split)

lemma uuid_FromBytes_Inr:
  "uuid_documented U \<Longrightarrow> uuid_FromBytes U b = Inr u \<longleftrightarrow> length b = 16 \<and> u = b"
  unfolding uuid_documented_def by (cases "length b = 16") (auto simp: is_err_iff is_panic_iff)

lemma uuid_FromBytes_no_panic: "uuid_documented U \<Longrightarrow> \<not> is_panic (uuid_FromBytes U b)"
  unfolding uuid_documented_def by (cases "length b = 16") (fastforce simp: is_err_iff is_panic_iff)+

end
