(* ===== verification/Framing.thy ===== *)
theory Framing
  imports Types "HOL-Library.Sublist"
begin

text \<open>
  The framing of messages on a stream: \<^verbatim>\<open>internal/network/length-prefix.go\<close>,
  \<^verbatim>\<open>internal/network/quic_frame.go\<close>, the message types of \<^verbatim>\<open>internal/network/quic.go\<close>
  and the read loop of \<^verbatim>\<open>internal/network/stream.go\<close>.

  A stream is seen from one end: the bytes the other side will have sent (\<open>rbuf\<close>) and the
  error that reading ends with after them (\<open>rend\<close>: end of file, or a reset), the bytes
  written so far (\<open>wbuf\<close>), and, if writing is going to fail, after how many more bytes and
  how (\<open>wlimit\<close>).
\<close>

record qstream =
  rbuf :: bytes
  rend :: error
  wbuf :: bytes
  wlimit :: "(nat \<times> error) option"

text \<open>\<^verbatim>\<open>io.ReadFull(r, make([]byte, n))\<close>.\<close>

definition ReadFull :: "nat \<Rightarrow> qstream \<Rightarrow> bytes result \<times> qstream" where
  "ReadFull n s =
     (if n \<le> length (rbuf s) then (Inr (take n (rbuf s)), s\<lparr>rbuf := drop n (rbuf s)\<rparr>)
      else (Inl (Err (if rbuf s \<noteq> [] \<and> rend s = ErrEOF then ErrUnexpectedEOF else rend s)),
            s\<lparr>rbuf := []\<rparr>))"

text \<open>\<^verbatim>\<open>w.Write(buf)\<close>: a write that fails has written a part.\<close>

definition Write :: "bytes \<Rightarrow> qstream \<Rightarrow> unit result \<times> qstream" where
  "Write buf s =
     (case wlimit s of
        None \<Rightarrow> (Inr (), s\<lparr>wbuf := wbuf s @ buf\<rparr>)
      | Some (n, e) \<Rightarrow>
          if length buf \<le> n
          then (Inr (), s\<lparr>wbuf := wbuf s @ buf, wlimit := Some (n - length buf, e)\<rparr>)
          else (Inl (Err e), s\<lparr>wbuf := wbuf s @ take n buf, wlimit := Some (0, e)\<rparr>))"

section \<open>Length prefixes\<close>

definition writeLengthPrefix :: "bytes \<Rightarrow> qstream \<Rightarrow> unit result \<times> qstream" where
  "writeLengthPrefix data s =
     (let buf = put_uint32 (word_of_nat (length data)) @ data in Write buf s)"

definition readLengthPrefix :: "qstream \<Rightarrow> bytes result \<times> qstream" where
  "readLengthPrefix s =
     (case ReadFull 4 s of
        (Inl e, s1) \<Rightarrow> (Inl e, s1)
      | (Inr header, s1) \<Rightarrow>
        (case get_uint32 header of
           Inl e \<Rightarrow> (Inl e, s1)
         | Inr n \<Rightarrow>
           (case ReadFull (unat n) s1 of
              (Inl e, s2) \<Rightarrow> (Inl e, s2)
            | (Inr payload, s2) \<Rightarrow> (Inr payload, s2))))"

section \<open>Message types\<close>

text \<open>\<^verbatim>\<open>type MessageType int\<close>, a signed integer of 64 bits, with the constants counted by \<^verbatim>\<open>iota\<close>.\<close>

type_synonym MessageType = "64 word"

definition TypeUnknown :: MessageType where "TypeUnknown = 0"
definition TypeHandshake :: MessageType where "TypeHandshake = 1"
definition TypeReady :: MessageType where "TypeReady = 2"
definition TypeGossip :: MessageType where "TypeGossip = 3"
definition TypePing :: MessageType where "TypePing = 4"
definition TypeChatMessage :: MessageType where "TypeChatMessage = 5"
definition TypeDatagram :: MessageType where "TypeDatagram = 6"
definition TypeGetPeerRequest :: MessageType where "TypeGetPeerRequest = 7"
definition TypeGetPeerResponse :: MessageType where "TypeGetPeerResponse = 8"
definition TypeBlockRequest :: MessageType where "TypeBlockRequest = 9"
definition TypeBlockResponse :: MessageType where "TypeBlockResponse = 10"
definition TypeSessionInitRequest :: MessageType where "TypeSessionInitRequest = 11"
definition TypeSessionInitResponse :: MessageType where "TypeSessionInitResponse = 12"
definition TypeStreamInitRequest :: MessageType where "TypeStreamInitRequest = 13"
definition TypeChunkRequest :: MessageType where "TypeChunkRequest = 14"
definition TypeChunkResponse :: MessageType where "TypeChunkResponse = 15"
definition TypeStreamCancel :: MessageType where "TypeStreamCancel = 16"

lemmas msgtype_defs =
  TypeUnknown_def TypeHandshake_def TypeReady_def TypeGossip_def TypePing_def
  TypeChatMessage_def TypeDatagram_def TypeGetPeerRequest_def TypeGetPeerResponse_def
  TypeBlockRequest_def TypeBlockResponse_def TypeSessionInitRequest_def
  TypeSessionInitResponse_def TypeStreamInitRequest_def TypeChunkRequest_def
  TypeChunkResponse_def TypeStreamCancel_def

section \<open>Frames\<close>

text \<open>The type byte is \<^verbatim>\<open>byte(msgType)\<close>: the low eight bits.\<close>

definition writeFrame :: "MessageType \<Rightarrow> bytes \<Rightarrow> qstream \<Rightarrow> unit result \<times> qstream" where
  "writeFrame msgType data s =
     (let payload = (ucast msgType :: byte) # data in writeLengthPrefix payload s)"

text \<open>\<^verbatim>\<open>data[0]\<close> is read without a check of the length.\<close>

definition readFrame :: "qstream \<Rightarrow> (MessageType \<times> bytes) result \<times> qstream" where
  "readFrame s =
     (case readLengthPrefix s of
        (Inl e, s1) \<Rightarrow> (Inl e, s1)
      | (Inr data, s1) \<Rightarrow>
        (case data of
           [] \<Rightarrow> (Inl (Panic IndexOutOfRange), s1)
         | b # rest \<Rightarrow> (Inr (ucast b, rest), s1)))"

definition sendReadyFrame :: "qstream \<Rightarrow> bool \<times> qstream" where
  "sendReadyFrame s =
     (case Write [ucast TypeReady] s of
        (Inl e, s1) \<Rightarrow> (False, s1)
      | (Inr _, s1) \<Rightarrow> (True, s1))"

definition acceptReadyFrame :: "qstream \<Rightarrow> bool \<times> qstream" where
  "acceptReadyFrame s =
     (case ReadFull 1 s of
        (Inl e, s1) \<Rightarrow> (False, s1)
      | (Inr data, s1) \<Rightarrow> (data = [ucast TypeReady], s1))"

section \<open>Lemmas on reading and writing\<close>

definition frame :: "MessageType \<Rightarrow> bytes \<Rightarrow> bytes" where
  "frame t data = put_uint32 (word_of_nat (Suc (length data))) @ ucast t # data"

text \<open>The messages that a frame can carry: one byte of type, a length that fits 32 bits.\<close>

definition framable :: "MessageType \<times> bytes \<Rightarrow> bool" where
  "framable m \<longleftrightarrow> fst m < 256 \<and> Suc (length (snd m)) < 2 ^ 32"

lemma ReadFull_append [io_simps]:
  "rbuf s = bs @ rest \<Longrightarrow> ReadFull (length bs) s = (Inr bs, s\<lparr>rbuf := rest\<rparr>)"
  by (simp add: ReadFull_def)

lemma ReadFull_short:
  "length (rbuf s) < n \<Longrightarrow> \<exists>e. ReadFull n s = (Inl (Err e), s\<lparr>rbuf := []\<rparr>)"
  by (simp add: ReadFull_def)

lemma Write_ok [io_simps]: "wlimit s = None \<Longrightarrow> Write b s = (Inr (), s\<lparr>wbuf := wbuf s @ b\<rparr>)"
  by (simp add: Write_def)

lemma Write_frame: "Write b s = (r, s') \<Longrightarrow> rbuf s' = rbuf s \<and> rend s' = rend s"
  by (auto simp: Write_def split: option.splits if_splits prod.splits)

lemma Write_no_panic: "Write b s \<noteq> (Inl (Panic p), s')"
  by (auto simp: Write_def split: option.splits prod.splits)

lemma writeFrame_eq: "writeFrame t data s = Write (frame t data) s"
  by (simp add: writeFrame_def writeLengthPrefix_def frame_def)

lemma writeFrame_ok [io_simps]:
  "wlimit s = None \<Longrightarrow> writeFrame t data s = (Inr (), s\<lparr>wbuf := wbuf s @ frame t data\<rparr>)"
  by (simp add: writeFrame_eq Write_ok)

lemma length_frame: "length (frame t data) = 5 + length data"
  by (simp add: frame_def)

lemma ucast_type_roundtrip: "t < (256 :: MessageType) \<Longrightarrow> ucast (ucast t :: byte) = t"
  by (simp add: word_unat_eq_iff unsigned_ucast_eq take_bit_eq_mod word_less_nat_alt unat_mod)

lemma readLengthPrefix_append [io_simps]:
  assumes "rbuf s = put_uint32 (word_of_nat (length data)) @ data @ rest" and "length data < 2 ^ 32"
  shows "readLengthPrefix s = (Inr data, s\<lparr>rbuf := rest\<rparr>)"
proof -
  have "unat (word_of_nat (length data) :: u32) = length data"
    using assms(2) by (simp add: unat_of_nat)
  moreover have "ReadFull 4 s = (Inr (put_uint32 (word_of_nat (length data))), s\<lparr>rbuf := data @ rest\<rparr>)"
    using ReadFull_append [OF assms(1)] by simp
  ultimately show ?thesis
    using get_put_uint32 [of "word_of_nat (length data)" "[]"]
    by (simp add: readLengthPrefix_def ReadFull_append)
qed

lemma readFrame_frame [io_simps]:
  assumes "rbuf s = frame t data @ rest" and "framable (t, data)"
  shows "readFrame s = (Inr (t, data), s\<lparr>rbuf := rest\<rparr>)"
proof -
  have "readLengthPrefix s = (Inr (ucast t # data), s\<lparr>rbuf := rest\<rparr>)"
    using assms by (intro readLengthPrefix_append) (simp_all add: frame_def framable_def)
  with assms(2) show ?thesis
    by (simp add: readFrame_def ucast_type_roundtrip framable_def)
qed

section \<open>Every outcome of reading a frame\<close>

text \<open>
  What \<^verbatim>\<open>readFrame\<close> does is decided by the bytes at hand: a header that is not complete,
  a header that announces nothing (the index expression panics), a payload that is not
  complete, or a frame.
\<close>

lemma get_uint32_take:
  assumes "4 \<le> length bs"
  obtains n where "get_uint32 (take 4 bs) = Inr n"
proof -
  obtain a b c d r where "bs = a # b # c # d # r"
    using assms by (auto simp: numeral_eq_Suc Suc_le_length_iff)
  with that show thesis by simp
qed

lemma readFrame_cases:
  fixes s
  defines "bs \<equiv> rbuf s"
  obtains
    (no_header) "length bs < 4" "\<exists>e. readFrame s = (Inl (Err e), s\<lparr>rbuf := []\<rparr>)"
  | (empty) "4 \<le> length bs" "get_uint32 (take 4 bs) = Inr 0"
      "readFrame s = (Inl (Panic IndexOutOfRange), s\<lparr>rbuf := drop 4 bs\<rparr>)"
  | (short) n where "4 \<le> length bs" "get_uint32 (take 4 bs) = Inr n" "n \<noteq> 0" "length bs < 4 + unat n"
      "\<exists>e. readFrame s = (Inl (Err e), s\<lparr>rbuf := []\<rparr>)"
  | (frame) n t data where "4 \<le> length bs" "get_uint32 (take 4 bs) = Inr n" "4 + unat n \<le> length bs"
      "take (unat n) (drop 4 bs) = ucast t # data" "t < 256"
      "readFrame s = (Inr (t, data), s\<lparr>rbuf := drop (4 + unat n) bs\<rparr>)"
proof (cases "length bs < 4")
  case True
  then show thesis
    using no_header ReadFull_short [of s 4] by (auto simp: bs_def readFrame_def readLengthPrefix_def)
next
  case False
  then have len: "4 \<le> length bs" by simp
  then obtain n where n: "get_uint32 (take 4 bs) = Inr n" by (rule get_uint32_take)
  have header: "ReadFull 4 s = (Inr (take 4 bs), s\<lparr>rbuf := drop 4 bs\<rparr>)"
    using len by (simp add: ReadFull_def bs_def)
  show thesis
  proof (cases "n = 0")
    case True
    then show thesis
      using empty len n header by (simp add: readFrame_def readLengthPrefix_def ReadFull_def)
  next
    case n0: False
    show thesis
    proof (cases "4 + unat n \<le> length bs")
      case True
      have "0 < unat n" using n0 by (simp add: unat_gt_0)
      with True have "take (unat n) (drop 4 bs) \<noteq> []" by auto
      then obtain b data where data: "take (unat n) (drop 4 bs) = b # data" by (cases "take (unat n) (drop 4 bs)") auto
      have "readFrame s = (Inr (ucast b, data), s\<lparr>rbuf := drop (4 + unat n) bs\<rparr>)"
        using True n header data
        by (simp add: readFrame_def readLengthPrefix_def ReadFull_def ac_simps)
      moreover have "ucast (ucast b :: MessageType) = b" by (rule bit_word_eqI) (simp add: bit_simps)
      moreover have "(ucast b :: MessageType) < 256"
        by (simp add: word_less_nat_alt unsigned_ucast_eq
            le_less_trans [OF take_bit_nat_less_eq_self unat_byte_less])
      ultimately show thesis using frame [of n "ucast b" data] len n True data by simp
    next
      case False
      then show thesis
        using short n0 len n header ReadFull_short [of "s\<lparr>rbuf := drop 4 bs\<rparr>" "unat n"]
        by (fastforce simp: readFrame_def readLengthPrefix_def)
    qed
  qed
qed

lemma readFrame_shrinks: "readFrame s = (Inr m, s') \<Longrightarrow> length (rbuf s') < length (rbuf s)"
  by (rule readFrame_cases [of s]) (auto simp: unat_eq_0)

section \<open>The read loop of a stream\<close>

text \<open>
  \<^verbatim>\<open>Stream.readLoop\<close>: read frames and hand each one to \<^verbatim>\<open>Incoming\<close> until reading
  fails; the result is what it delivered and how it ended. (The other way out of the loop,
  a cancelled context, is a step of the state machine in the theory of streams.)
\<close>

function readLoop :: "qstream \<Rightarrow> (MessageType \<times> bytes) list \<times> exn" where
  "readLoop s =
     (case readFrame s of
        (Inl e, s1) \<Rightarrow> ([], e)
      | (Inr m, s1) \<Rightarrow> (let (ms, e) = readLoop s1 in (m # ms, e)))"
  by pat_completeness auto
termination
  by (relation "measure (\<lambda>s. length (rbuf s))") (auto dest: readFrame_shrinks sym)

declare readLoop.simps [simp del]

fun writeFrames :: "(MessageType \<times> bytes) list \<Rightarrow> qstream \<Rightarrow> unit result \<times> qstream" where
  "writeFrames [] s = (Inr (), s)"
| "writeFrames ((t, data) # ms) s =
     (case writeFrame t data s of
        (Inl e, s1) \<Rightarrow> (Inl e, s1)
      | (Inr _, s1) \<Rightarrow> writeFrames ms s1)"

definition frames :: "(MessageType \<times> bytes) list \<Rightarrow> bytes" where
  "frames ms = concat (map (\<lambda>(t, data). frame t data) ms)"

lemma writeFrames_ok:
  "wlimit s = None \<Longrightarrow> writeFrames ms s = (Inr (), s\<lparr>wbuf := wbuf s @ frames ms\<rparr>)"
  by (induction ms s rule: writeFrames.induct) (simp_all add: frames_def io_simps)

lemma readLoop_frames:
  "\<forall>m \<in> set ms. framable m \<Longrightarrow> rbuf s = frames ms @ rest \<Longrightarrow>
    readLoop s = (let (ms', e) = readLoop (s\<lparr>rbuf := rest\<rparr>) in (ms @ ms', e))"
proof (induction ms arbitrary: s)
  case Nil
  then have "s\<lparr>rbuf := rest\<rparr> = s" by (simp add: frames_def)
  then show ?case by (simp split: prod.split)
next
  case (Cons m ms)
  obtain t data where m: "m = (t, data)" by force
  have "readFrame s = (Inr m, s\<lparr>rbuf := frames ms @ rest\<rparr>)"
    using Cons.prems m by (simp add: frames_def readFrame_frame)
  then show ?case
    using Cons.IH [of "s\<lparr>rbuf := frames ms @ rest\<rparr>"] Cons.prems
    by (subst readLoop.simps) (simp split: prod.split)
qed

lemma readLoop_empty: "rbuf s = [] \<Longrightarrow> readLoop s = ([], Err (rend s))"
  by (simp add: readLoop.simps readFrame_def readLengthPrefix_def ReadFull_def)

section \<open>Properties\<close>

text \<open>
  C11. Framing round trip: any sequence of messages whose type fits the type byte and
  whose length fits the 32-bit prefix, written frame by frame on a stream, is read back by
  the read loop on the other end as exactly that sequence, in order; the loop then ends with
  the error that ends the stream, and nothing panics.
\<close>

theorem framing_roundtrip:
  assumes "\<forall>m \<in> set ms. framable m" and "wlimit s = None" and "wbuf s = []"
    and "rbuf r = wbuf (snd (writeFrames ms s))"
  shows "fst (writeFrames ms s) = Inr () \<and> readLoop r = (ms, Err (rend r))"
  using assms readLoop_frames [of ms r "[]"]
  by (simp add: writeFrames_ok readLoop_empty)

definition demo_stream :: qstream where
  "demo_stream = \<lparr>rbuf = [], rend = ErrEOF, wbuf = [], wlimit = None\<rparr>"

theorem framing_roundtrip_witness:
  "let ms = [(TypeGossip, [1, 2, 3]), (TypeReady, [])];
       r = demo_stream\<lparr>rbuf := wbuf (snd (writeFrames ms demo_stream))\<rparr>
   in length (rbuf r) = 13 \<and> readLoop r = (ms, Err ErrEOF)"
proof -
  let ?ms = "[(TypeGossip, [1, 2, 3]), (TypeReady, [])]"
  let ?r = "demo_stream\<lparr>rbuf := wbuf (snd (writeFrames ?ms demo_stream))\<rparr>"
  have "readLoop ?r = (?ms, Err (rend ?r))"
    using framing_roundtrip [of ?ms demo_stream ?r]
    by (simp add: framable_def demo_stream_def msgtype_defs)
  then show ?thesis
    by (simp add: demo_stream_def writeFrames_ok frames_def length_frame Let_def del: writeFrames.simps)
qed

text \<open>
  When reading a frame panics: exactly when a complete length header announces a
  payload of zero bytes, because the type byte is indexed without a check. Any peer that can
  write four zero bytes on a stream makes the reader panic.
\<close>

theorem readFrame_panic_iff:
  "is_panic (fst (readFrame s)) \<longleftrightarrow> 4 \<le> length (rbuf s) \<and> get_uint32 (take 4 (rbuf s)) = Inr 0"
  by (rule readFrame_cases [of s]) (auto simp: unat_eq_0)

text \<open>
  A frame that is cut off is an error, never a message and never a panic: on any strict
  prefix of a written frame, reading fails with an ordinary error and consumes what is there.
\<close>

theorem readFrame_truncated:
  assumes "framable (t, data)" and "strict_prefix (rbuf s) (frame t data)"
  shows "\<exists>e. readFrame s = (Inl (Err e), s\<lparr>rbuf := []\<rparr>)"
proof -
  let ?bs = "rbuf s"
  from assms(2) obtain zs where zs: "frame t data = ?bs @ zs" "zs \<noteq> []"
    by (auto elim: strict_prefixE')
  then have len: "length ?bs < 5 + length data"
    by (metis length_append length_frame length_greater_0_conv less_add_same_cancel1)
  have unat: "unat (word_of_nat (Suc (length data)) :: u32) = Suc (length data)"
    using assms(1) by (simp add: unat_of_nat framable_def del: of_nat_Suc)
  have hd: "get_uint32 (take 4 ?bs) = Inr (word_of_nat (Suc (length data)))" if "4 \<le> length ?bs"
  proof -
    have "take 4 (frame t data) = take 4 ?bs" using that zs by simp
    then have "take 4 ?bs = put_uint32 (word_of_nat (Suc (length data)))"
      by (simp add: frame_def)
    then show ?thesis using get_put_uint32 [of _ "[]"] by simp
  qed
  show ?thesis
    by (rule readFrame_cases [of s]) (use hd unat len in \<open>auto simp: unat_eq_0\<close>)
qed

theorem readFrame_truncated_witness:
  "\<exists>e. readFrame (demo_stream\<lparr>rbuf := [0, 0, 0, 4, 3, 1]\<rparr>) =
     (Inl (Err e), demo_stream\<lparr>rbuf := []\<rparr>)"
proof -
  let ?s = "demo_stream\<lparr>rbuf := [0, 0, 0, 4, 3, 1]\<rparr>"
  have "strict_prefix (rbuf ?s) (frame TypeGossip [1, 2, 3])"
    by (simp add: frame_def put_uint32_def msgtype_defs strict_prefix_def)
  moreover have "framable (TypeGossip, [1, 2, 3])" by (simp add: framable_def msgtype_defs)
  ultimately show ?thesis using readFrame_truncated [of TypeGossip "[1, 2, 3]" ?s] by simp
qed

end
