(* ===== verification/Messages.thy ===== *)
theory Messages
  imports Types
begin

text \<open>
  The protocol buffer messages, as the structs that the generated files declare
  (\<^verbatim>\<open>internal/proto/message.pb.go\<close>, \<^verbatim>\<open>internal/p2p/dht/dht.pb.go\<close>,
  \<^verbatim>\<open>internal/storage/types.pb.go\<close>, \<^verbatim>\<open>internal/crypto/security_keys.pb.go\<close>,
  \<^verbatim>\<open>pkg/api/proto/content.pb.go\<close>), without the bookkeeping fields of the protobuf
  runtime. A oneof is a datatype with one constructor per wrapper struct; a oneof that is
  not set is \<open>None\<close>. Strings are byte lists, as Go's strings are.
\<close>

section \<open>internal/proto\<close>

record Envelope =
  env_Data :: bytes
  env_Signature :: bytes
  env_PubKey :: bytes

record ChatMessage =
  EncryptedPayload :: bytes

record Transaction =
  AssetId :: bytes
  Amount :: u64
  Memo :: bytes

record HandshakeInit =
  Nonce :: bytes

record HandshakeResponse =
  hr_PubKey :: bytes
  hr_Signature :: bytes
  hr_Version :: u32

record Ping =
  ping_Nonce :: u64

record PeerList_Peer =
  plp_Id :: bytes
  plp_LastKnownAddr :: bytes

record PeerList =
  pl_Peers :: "PeerList_Peer list"

record Ack =
  RefMessageId :: bytes

record PeerInfo =
  pi_PubKey :: bytes
  pi_Address :: bytes

record PeerRequest =
  Count :: u32

record PeerResponse =
  pr_Peers :: "PeerInfo list"

datatype Payload =
    MessageData_HandshakeInit HandshakeInit
  | MessageData_Ping Ping
  | MessageData_Ack Ack
  | MessageData_ChatMessage ChatMessage
  | MessageData_PeerList PeerList
  | MessageData_Transfer Transaction
  | MessageData_HandshakeResponse HandshakeResponse
  | MessageData_PeerReq PeerRequest
  | MessageData_PeerRes PeerResponse

record MessageData =
  MessageId :: bytes
  OriginId :: bytes
  TargetId :: bytes
  Timestamp :: u64
  HopLimit :: u32
  Payload :: "Payload option"

text \<open>
  \<^verbatim>\<open>&MessageData{Payload: p}\<close>: a struct literal leaves the fields it does not name zero.
\<close>

definition payload_only :: "Payload \<Rightarrow> MessageData" where
  "payload_only p =
     \<lparr>MessageId = [], OriginId = [], TargetId = [], Timestamp = 0, HopLimit = 0, Payload = Some p\<rparr>"

section \<open>internal/p2p/dht\<close>

datatype MerkleNode_Type = MerkleNode_FILE_CHUNK | MerkleNode_META_LINK

record MerkleNode =
  mn_Type :: MerkleNode_Type
  mn_Data :: bytes
  mn_Links :: "bytes list"
  mn_Size :: u64

record dht_PeerStoreEntry =
  dpe_PubKey :: bytes
  dpe_HashId :: bytes
  dpe_LastKnownAddr :: bytes
  dpe_LastSeen :: u64
  dpe_TrustScore :: u32

record KBucket =
  kb_Index :: u32
  kb_Peers :: "dht_PeerStoreEntry list"

section \<open>internal/storage and internal/crypto\<close>

record PeerStoreEntry =
  pse_PubKey :: bytes
  pse_LastKnownAddr :: bytes
  pse_LastSeen :: u64
  pse_TrustScore :: u32

record EncryptedPrivateKey =
  Salt :: bytes
  epk_Nonce :: bytes
  EncryptedKey :: bytes
  Algorithm :: bytes

section \<open>pkg/api/proto\<close>

record SessionInitRequest =
  sir_RootHash :: bytes
  sir_DesiredStreams :: u32
  sir_ProtocolVersion :: u32

record SessionInitResponse =
  Accepted :: bool
  AllowedStreams :: u32
  FileSize :: u64
  sires_SessionId :: bytes

record ChunkRequest =
  cr_SessionId :: bytes
  ChunkHash :: bytes

record ChunkResponse =
  cres_Data :: bytes
  Found :: bool

datatype ContentPayload =
    ContentMessage_InitReq SessionInitRequest
  | ContentMessage_InitRes SessionInitResponse
  | ContentMessage_ChunkReq ChunkRequest
  | ContentMessage_ChunkRes ChunkResponse

record ContentMessage =
  cm_Payload :: "ContentPayload option"

section \<open>The protobuf runtime as a parameter\<close>

text \<open>
  \<^verbatim>\<open>google.golang.org/protobuf/proto\<close> is not part of the repository: \<open>marshal\<close> and
  \<open>unmarshal\<close> of a message type are the two fields of a \<open>codec\<close> that the definitions
  take as an argument. Of its documented behaviour the development uses that decoding what
  was encoded gives the message back, and that neither direction panics.
\<close>

record 'm codec =
  marshal :: "'m \<Rightarrow> bytes result"
  unmarshal :: "bytes \<Rightarrow> 'm result"

definition codec_documented :: "'m codec \<Rightarrow> bool" where
  "codec_documented c \<longleftrightarrow>
     (\<forall>m b. marshal c m = Inr b \<longrightarrow> unmarshal c b = Inr m) \<and>
     (\<forall>m. \<not> is_panic (marshal c m)) \<and> (\<forall>b. \<not> is_panic (unmarshal c b))"

lemma codec_roundtrip: "codec_documented c \<Longrightarrow> marshal c m = Inr b \<Longrightarrow> unmarshal c b = Inr m"
  by (simp add: codec_documented_def)

lemma codec_no_panic:
  "codec_documented c \<Longrightarrow> marshal c m \<noteq> Inl (Panic p)"
  "codec_documented c \<Longrightarrow> unmarshal c b \<noteq> Inl (Panic p)"
  unfolding codec_documented_def by (metis is_panic.simps(1))+

lemma codec_inject:
  "codec_documented c \<Longrightarrow> marshal c m = Inr b \<Longrightarrow> marshal c m' = Inr b \<Longrightarrow> m = m'"
  by (metis codec_roundtrip sum.inject(2))

end
