(* ===== verification/Crypto.thy ===== *)
theory Crypto
  imports Messages
begin

text \<open>
  \<^verbatim>\<open>internal/crypto/signature.go\<close> and \<^verbatim>\<open>internal/crypto/engine.go\<close>: signatures with the
  identity key, and the engine that encrypts for a peer with a key agreed between the two
  identity keys.

  The cryptographic primitives (Ed25519, X25519, HKDF, AES-GCM, the birational map of
  \<^verbatim>\<open>edwards25519\<close>) are arguments of the definitions, and what a theorem needs of them is one
  of the two predicates \<open>ed_documented\<close> and \<open>kx_documented\<close>: that a signature made with a
  private key verifies under its public key, that the two sides of a key agreement compute the
  same secret, and that opening what was sealed gives the plaintext back.
\<close>

section \<open>Signatures\<close>

record ed25519_lib =
  ed_Sign :: "bytes \<Rightarrow> bytes \<Rightarrow> bytes"
  ed_Verify :: "bytes \<Rightarrow> bytes \<Rightarrow> bytes \<Rightarrow> bool"
  ed_GenerateKey :: "bytes \<Rightarrow> bytes result"

definition SignatureSize :: nat where "SignatureSize = 64"
definition PrivateKeySize :: nat where "PrivateKeySize = 64"

text \<open>\<^verbatim>\<open>ed25519.Sign\<close> panics on a private key of the wrong length.\<close>

definition CreateSignature :: "ed25519_lib \<Rightarrow> bytes \<Rightarrow> bytes \<Rightarrow> bytes result" where
  "CreateSignature E payload privKey =
     (if length privKey \<noteq> PrivateKeySize
      then Inl (Panic (ExplicitPanic ''ed25519: bad private key length''))
      else Inr (ed_Sign E privKey payload))"

definition VerifySignature :: "ed25519_lib \<Rightarrow> PeerPublicKey \<Rightarrow> bytes \<Rightarrow> bytes \<Rightarrow> bool" where
  "VerifySignature E pubKey payload sig =
     (if length sig \<noteq> SignatureSize then False else ed_Verify E pubKey payload sig)"

text \<open>
  \<open>keypair k\<close> says that \<open>k\<close> is a private key in the format of \<^verbatim>\<open>crypto/ed25519\<close>: 64 bytes,
  the seed followed by the public key that belongs to it.
\<close>

definition ed_documented :: "ed25519_lib \<Rightarrow> (bytes \<Rightarrow> bool) \<Rightarrow> bool" where
  "ed_documented E keypair \<longleftrightarrow>
     (\<forall>k. keypair k \<longrightarrow> length k = 64 \<and>
        (\<forall>m. length (ed_Sign E k m) = 64 \<and> ed_Verify E (drop 32 k) m (ed_Sign E k m))) \<and>
     (\<forall>r k. ed_GenerateKey E r = Inr k \<longrightarrow> keypair k) \<and>
     (\<forall>r. \<not> is_panic (ed_GenerateKey E r))"

lemma keypair_length: "ed_documented E keypair \<Longrightarrow> keypair k \<Longrightarrow> length k = 64"
  by (simp add: ed_documented_def)

lemma keypair_public:
  "ed_documented E keypair \<Longrightarrow> keypair k \<Longrightarrow> PeerPrivateKeyToPublic k = drop 32 k"
  by (simp add: PeerPrivateKeyToPublic_eq keypair_length)

lemma signature_verifies:
  assumes "ed_documented E keypair" and "keypair k"
  shows "\<exists>sig. CreateSignature E m k = Inr sig \<and> VerifySignature E (PeerPrivateKeyToPublic k) m sig"
proof -
  have "length k = 64" "length (ed_Sign E k m) = 64" "ed_Verify E (drop 32 k) m (ed_Sign E k m)"
    using assms by (auto simp: ed_documented_def)
  then show ?thesis
    by (simp add: CreateSignature_def VerifySignature_def PrivateKeySize_def SignatureSize_def
        PeerPrivateKeyToPublic_eq)
qed

section \<open>The X25519 key of an identity key\<close>

text \<open>
  For an identity key of at least 32 bytes; of a shorter one \<^verbatim>\<open>edPriv.Seed()\<close> panics, which is a
  branch of \<open>NewEngine\<close>, its only caller.
\<close>

definition edPrivToX25519 :: "bytes \<Rightarrow> bytes" where
  "edPrivToX25519 edPriv =
     (let h = sha512 (take 32 edPriv);
          out = take 32 h;
          out = out[0 := out ! 0 AND 248];
          out = out[31 := out ! 31 AND 127];
          out = out[31 := out ! 31 OR 64]
      in out)"

section \<open>The engine\<close>

record kx_lib =
  ed_point_Montgomery :: "bytes \<Rightarrow> bytes result"
  x25519_NewPrivateKey :: "bytes \<Rightarrow> bytes result"
  x25519_NewPublicKey :: "bytes \<Rightarrow> bytes result"
  x25519_ECDH :: "bytes \<Rightarrow> bytes \<Rightarrow> bytes result"
  hkdf_sha256 :: "bytes \<Rightarrow> bytes \<Rightarrow> nat \<Rightarrow> bytes result"
  aes_NewGCM :: "bytes \<Rightarrow> bytes result"
  gcm_Seal :: "bytes \<Rightarrow> bytes \<Rightarrow> bytes \<Rightarrow> bytes"
  gcm_Open :: "bytes \<Rightarrow> bytes \<Rightarrow> bytes \<Rightarrow> bytes result"

definition gcm_NonceSize :: nat where "gcm_NonceSize = 12"

text \<open>\<^verbatim>\<open>fmt.Errorf("...: %w", err)\<close>.\<close>

fun wrap :: "string \<Rightarrow> exn \<Rightarrow> exn" where
  "wrap s (Err e) = Err (ErrWrap s e)"
| "wrap s (Panic p) = Panic p"

definition EdPubKeyToX25519 :: "kx_lib \<Rightarrow> PeerPublicKey \<Rightarrow> bytes result" where
  "EdPubKeyToX25519 K edPub =
     (case ed_point_Montgomery K edPub of
        Inl e \<Rightarrow> Inl (wrap ''invalid ed25519 public key point'' e)
      | Inr b \<Rightarrow> Inr b)"

record Engine =
  myDiffieHellmanKey :: bytes

definition NewEngine :: "kx_lib \<Rightarrow> bytes \<Rightarrow> Engine result" where
  "NewEngine K identityKey =
     (if length identityKey < 32 then Inl (Panic IndexOutOfRange)
      else
        (case x25519_NewPrivateKey K (edPrivToX25519 identityKey) of
           Inl e \<Rightarrow> Inl (wrap ''failed to create X25519 private key'' e)
         | Inr priv \<Rightarrow> Inr \<lparr>myDiffieHellmanKey = priv\<rparr>))"

definition hkdf_info :: bytes where
  "hkdf_info = bytes_of_string ''p2p-messenger-v1-aes-key''"

definition computeSharedKey :: "kx_lib \<Rightarrow> Engine \<Rightarrow> PeerPublicKey \<Rightarrow> bytes result" where
  "computeSharedKey K e theirEdPub =
     (case EdPubKeyToX25519 K theirEdPub of
        Inl x \<Rightarrow> Inl x
      | Inr theirX25519Bytes \<Rightarrow>
        (case x25519_NewPublicKey K theirX25519Bytes of
           Inl x \<Rightarrow> Inl (wrap ''crypto/ecdh rejected the public key'' x)
         | Inr theirPubKey \<Rightarrow>
           (case x25519_ECDH K (myDiffieHellmanKey e) theirPubKey of
              Inl x \<Rightarrow> Inl (wrap ''ecdh computation failed'' x)
            | Inr sharedSecret \<Rightarrow>
              (case hkdf_sha256 K sharedSecret hkdf_info 32 of
                 Inl x \<Rightarrow> Inl x
               | Inr aesKey \<Rightarrow> Inr aesKey))))"

text \<open>The argument \<open>rnd\<close> is what reading the nonce from \<^verbatim>\<open>rand.Reader\<close> gives.\<close>

definition Encrypt :: "kx_lib \<Rightarrow> Engine \<Rightarrow> bytes \<Rightarrow> PeerPublicKey \<Rightarrow> bytes result \<Rightarrow> bytes result" where
  "Encrypt K e plaintext recipientEdPub rnd =
     (case computeSharedKey K e recipientEdPub of
        Inl x \<Rightarrow> Inl x
      | Inr key \<Rightarrow>
        (case aes_NewGCM K key of
           Inl x \<Rightarrow> Inl x
         | Inr gcm \<Rightarrow>
           (case rnd of
              Inl x \<Rightarrow> Inl x
            | Inr nonce \<Rightarrow> Inr (nonce @ gcm_Seal K gcm nonce plaintext))))"

definition Decrypt :: "kx_lib \<Rightarrow> Engine \<Rightarrow> bytes \<Rightarrow> PeerPublicKey \<Rightarrow> bytes result" where
  "Decrypt K e ciphertext senderEdPub =
     (case computeSharedKey K e senderEdPub of
        Inl x \<Rightarrow> Inl x
      | Inr key \<Rightarrow>
        (case aes_NewGCM K key of
           Inl x \<Rightarrow> Inl x
         | Inr gcm \<Rightarrow>
           if length ciphertext < gcm_NonceSize then Inl (Err (ErrNew ''ciphertext too short''))
           else
             (let nonce = take gcm_NonceSize ciphertext;
                  actualCiphertext = drop gcm_NonceSize ciphertext
              in (case gcm_Open K gcm nonce actualCiphertext of
                    Inl x \<Rightarrow> Inl (wrap ''decryption failed (wrong key or tampering)'' x)
                  | Inr plaintext \<Rightarrow> Inr plaintext))))"

text \<open>
  What is relied on: for identity keys, the conversion of the public half is the public key of
  the converted private half, so that the two sides of an agreement compute the same secret;
  opening inverts sealing under the same key and nonce.
\<close>

definition kx_documented :: "kx_lib \<Rightarrow> (bytes \<Rightarrow> bool) \<Rightarrow> bool" where
  "kx_documented K keypair \<longleftrightarrow>
     (\<forall>a b pa pb qa qb ma mb. keypair a \<longrightarrow> keypair b \<longrightarrow>
        x25519_NewPrivateKey K (edPrivToX25519 a) = Inr pa \<longrightarrow>
        x25519_NewPrivateKey K (edPrivToX25519 b) = Inr pb \<longrightarrow>
        ed_point_Montgomery K (drop 32 a) = Inr ma \<longrightarrow> x25519_NewPublicKey K ma = Inr qa \<longrightarrow>
        ed_point_Montgomery K (drop 32 b) = Inr mb \<longrightarrow> x25519_NewPublicKey K mb = Inr qb \<longrightarrow>
        x25519_ECDH K pa qb = x25519_ECDH K pb qa) \<and>
     (\<forall>a. keypair a \<longrightarrow> (\<exists>m q. ed_point_Montgomery K (drop 32 a) = Inr m \<and>
        x25519_NewPublicKey K m = Inr q)) \<and>
     (\<forall>gcm n p. gcm_Open K gcm n (gcm_Seal K gcm n p) = Inr p)"

lemma sealed_opens: "kx_documented K keypair \<Longrightarrow> gcm_Open K gcm n (gcm_Seal K gcm n p) = Inr p"
  by (simp add: kx_documented_def)

lemma NewEngine_InrD:
  "NewEngine K k = Inr e \<Longrightarrow> x25519_NewPrivateKey K (edPrivToX25519 k) = Inr (myDiffieHellmanKey e)"
  by (auto simp: NewEngine_def split: sum.splits if_splits)

lemma EdPubKeyToX25519_Inr: "ed_point_Montgomery K p = Inr m \<Longrightarrow> EdPubKeyToX25519 K p = Inr m"
  by (simp add: EdPubKeyToX25519_def)

text \<open>Both ends derive the same key, or both fail.\<close>

lemma shared_key_symmetric:
  assumes kx: "kx_documented K keypair" and a: "keypair a" and b: "keypair b"
    and ea: "NewEngine K a = Inr ea" and eb: "NewEngine K b = Inr eb"
  shows "computeSharedKey K ea (drop 32 b) = computeSharedKey K eb (drop 32 a)"
proof -
  obtain ma qa mb qb where
    m: "ed_point_Montgomery K (drop 32 a) = Inr ma" "x25519_NewPublicKey K ma = Inr qa"
      "ed_point_Montgomery K (drop 32 b) = Inr mb" "x25519_NewPublicKey K mb = Inr qb"
    using kx a b unfolding kx_documented_def by meson
  then have "x25519_ECDH K (myDiffieHellmanKey ea) qb = x25519_ECDH K (myDiffieHellmanKey eb) qa"
    using kx a b NewEngine_InrD [OF ea] NewEngine_InrD [OF eb] unfolding kx_documented_def by meson
  with m show ?thesis by (simp add: computeSharedKey_def EdPubKeyToX25519_Inr)
qed

lemma Encrypt_InrD:
  assumes "Encrypt K e p pub rnd = Inr ct"
  obtains key gcm nonce where "computeSharedKey K e pub = Inr key" "aes_NewGCM K key = Inr gcm"
    "rnd = Inr nonce" "ct = nonce @ gcm_Seal K gcm nonce p"
  using assms by (auto simp: Encrypt_def split: sum.splits)

lemma Decrypt_sealed:
  assumes "kx_documented K keypair" and "computeSharedKey K e pub = Inr key" and "aes_NewGCM K key = Inr gcm"
    and "length nonce = gcm_NonceSize"
  shows "Decrypt K e (nonce @ gcm_Seal K gcm nonce p) pub = Inr p"
  using assms by (simp add: Decrypt_def sealed_opens)

lemma Decrypt_of_Encrypt:
  assumes "kx_documented K keypair" and "keypair a" and "keypair b"
    and "length a = 64" and "length b = 64"
    and "NewEngine K a = Inr ea" and "NewEngine K b = Inr eb"
    and "Encrypt K ea plaintext (PeerPrivateKeyToPublic b) (Inr nonce) = Inr ct"
    and "length nonce = gcm_NonceSize"
  shows "Decrypt K eb ct (PeerPrivateKeyToPublic a) = Inr plaintext"
proof -
  from assms(8) obtain key gcm where
    "computeSharedKey K ea (drop 32 b) = Inr key" "aes_NewGCM K key = Inr gcm"
    "ct = nonce @ gcm_Seal K gcm nonce plaintext"
    by (auto elim: Encrypt_InrD simp: PeerPrivateKeyToPublic_eq assms(5))
  moreover from this shared_key_symmetric [OF assms(1,2,3,6,7)]
  have "computeSharedKey K eb (drop 32 a) = Inr key" by simp
  ultimately show ?thesis
    using Decrypt_sealed [OF assms(1) _ _ assms(9)] by (simp add: PeerPrivateKeyToPublic_eq assms(4))
qed

section \<open>A concrete library\<close>

text \<open>
  Functions for which the documented behaviour holds, with the hash functions standing in for
  the curves: the public half of a key is its clamped scalar, the shared secret of two keys is
  their exclusive or, a signature is a hash over the public key and the message. Concrete runs
  are evaluated on them; no claim of security is made of them.
\<close>

definition demo_keypair :: "bytes \<Rightarrow> bool" where
  "demo_keypair k \<longleftrightarrow> length k = 64 \<and> drop 32 k = edPrivToX25519 k"

definition demo_key :: "byte \<Rightarrow> bytes" where
  "demo_key x = replicate 32 x @ edPrivToX25519 (replicate 32 x)"

definition demo_ed :: ed25519_lib where
  "demo_ed =
     \<lparr>ed_Sign = (\<lambda>k m. sha512 (drop 32 k @ m)),
      ed_Verify = (\<lambda>pub m s. s = sha512 (pub @ m)),
      ed_GenerateKey = (\<lambda>r. let seed = take 32 (r @ replicate 32 0) in Inr (seed @ edPrivToX25519 seed))\<rparr>"

definition demo_kx :: kx_lib where
  "demo_kx =
     \<lparr>ed_point_Montgomery = (\<lambda>p. Inr p),
      x25519_NewPrivateKey = (\<lambda>k. if length k = 32 then Inr k else Inl (Err (ErrLib ''key size''))),
      x25519_NewPublicKey = (\<lambda>k. Inr k),
      x25519_ECDH = (\<lambda>p q. Inr (map2 (XOR) p q)),
      hkdf_sha256 = (\<lambda>secret info n. Inr (take n (sha256 (secret @ info)))),
      aes_NewGCM = (\<lambda>k. if length k \<in> {16, 24, 32} then Inr k else Inl (Err (ErrLib ''aes key size''))),
      gcm_Seal = (\<lambda>k n p. p @ sha256 (k @ n @ p)),
      gcm_Open = (\<lambda>k n c. let p = take (length c - 32) c in
        if c = p @ sha256 (k @ n @ p) then Inr p else Inl (Err (ErrLib ''authentication'')))\<rparr>"

lemma edPrivToX25519_take: "edPrivToX25519 (take 32 k) = edPrivToX25519 k"
  by (simp add: edPrivToX25519_def)

lemma edPrivToX25519_append: "length seed = 32 \<Longrightarrow> edPrivToX25519 (seed @ r) = edPrivToX25519 seed"
  by (simp add: edPrivToX25519_def)

lemma length_edPrivToX25519 [simp]: "length (edPrivToX25519 k) = 32"
  by (simp add: edPrivToX25519_def Let_def)

lemma demo_keypair_seed: "length seed = 32 \<Longrightarrow> demo_keypair (seed @ edPrivToX25519 seed)"
  by (simp add: demo_keypair_def edPrivToX25519_append)

lemma demo_key_keypair [simp]: "demo_keypair (demo_key x)"
  by (simp add: demo_key_def demo_keypair_seed)

lemma length_demo_key [simp]: "length (demo_key x) = 64"
  by (simp add: demo_key_def)

lemma demo_ed_documented: "ed_documented demo_ed demo_keypair"
proof -
  have "ed_GenerateKey demo_ed r = Inr k \<Longrightarrow> demo_keypair k" for r k
    by (auto simp: demo_ed_def Let_def simp del: take_append intro!: demo_keypair_seed)
  then show ?thesis
    by (auto simp: ed_documented_def demo_keypair_def) (simp_all add: demo_ed_def Let_def)
qed

lemma map2_xor_commute: "map2 (XOR) p q = map2 (XOR) (q :: bytes) p"
  by (induction p q rule: list_induct2') (simp_all add: xor.commute)

lemma demo_kx_documented: "kx_documented demo_kx demo_keypair"
  unfolding kx_documented_def
  by (auto simp: demo_kx_def demo_keypair_def map2_xor_commute split: if_splits)

lemma demo_NewEngine: "NewEngine demo_kx (demo_key x) = Inr \<lparr>myDiffieHellmanKey = edPrivToX25519 (demo_key x)\<rparr>"
  by (simp add: NewEngine_def demo_kx_def demo_key_def)

section \<open>Properties\<close>

text \<open>
  The converted private key is a clamped X25519 scalar (RFC 7748): 32 bytes, the three
  low bits of the first byte clear, the top bit of the last byte clear and the one below it
  set; every other bit is that of the SHA-512 digest of the seed.
\<close>

theorem edPrivToX25519_clamped:
  "length (edPrivToX25519 k) = 32 \<and>
   edPrivToX25519 k ! 0 AND 7 = 0 \<and>
   \<not> bit (edPrivToX25519 k ! 31) 7 \<and> bit (edPrivToX25519 k ! 31) 6 \<and>
   drop_bit 3 (edPrivToX25519 k ! 0) = drop_bit 3 (sha512 (take 32 k) ! 0) \<and>
   take_bit 6 (edPrivToX25519 k ! 31) = take_bit 6 (sha512 (take 32 k) ! 31) \<and>
   take 30 (drop 1 (edPrivToX25519 k)) = take 30 (drop 1 (sha512 (take 32 k)))"
proof -
  let ?h = "sha512 (take 32 k)"
  have first: "edPrivToX25519 k ! 0 = ?h ! 0 AND 248"
    and last: "edPrivToX25519 k ! 31 = (?h ! 31 AND 127) OR 64"
    by (simp_all add: edPrivToX25519_def Let_def)
  have b248: "(248 :: byte) = push_bit 3 (mask 5)" and b127: "(127 :: byte) = mask 7"
    and b64: "(64 :: byte) = push_bit 6 1" and b7: "(7 :: byte) = mask 3"
    by (simp_all add: mask_eq_exp_minus_1)
  have "edPrivToX25519 k ! 0 AND 7 = 0"
    unfolding first b248 b7
    by (rule bit_word_eqI) (simp add: bit_and_iff bit_push_bit_iff bit_mask_iff)
  moreover have "\<not> bit (edPrivToX25519 k ! 31) 7 \<and> bit (edPrivToX25519 k ! 31) 6"
    unfolding last b127 b64
    by (simp add: bit_and_iff bit_or_iff bit_push_bit_iff bit_mask_iff bit_1_iff)
  moreover have "drop_bit 3 (edPrivToX25519 k ! 0) = drop_bit 3 (?h ! 0)"
    unfolding first b248
    by (rule bit_word_eqI)
      (auto simp: bit_drop_bit_eq bit_and_iff bit_push_bit_iff bit_mask_iff dest: bit_imp_le_length)
  moreover have "take_bit 6 (edPrivToX25519 k ! 31) = take_bit 6 (?h ! 31)"
    unfolding last b127 b64
    by (rule bit_word_eqI)
      (auto simp: bit_take_bit_iff bit_and_iff bit_or_iff bit_push_bit_iff bit_mask_iff bit_1_iff)
  moreover have "take 30 (drop 1 (edPrivToX25519 k)) = take 30 (drop 1 ?h)"
    by (rule nth_equalityI) (simp_all add: edPrivToX25519_def Let_def)
  ultimately show ?thesis by simp
qed

text \<open>
  C4. End-to-end encryption: what the engine of one identity encrypts for another, the engine
  of the other decrypts, as coming from the first, to the same plaintext.
\<close>

theorem encrypt_decrypt:
  assumes "kx_documented K keypair" and "keypair a" and "keypair b"
    and "length a = 64" and "length b = 64"
    and "NewEngine K a = Inr ea" and "NewEngine K b = Inr eb"
    and "Encrypt K ea plaintext (PeerPrivateKeyToPublic b) (Inr nonce) = Inr ct"
    and "length nonce = gcm_NonceSize"
  shows "Decrypt K eb ct (PeerPrivateKeyToPublic a) = Inr plaintext"
  using assms by (rule Decrypt_of_Encrypt)

theorem encrypt_decrypt_witness:
  "let a = demo_key 1; b = demo_key 2;
       ea = \<lparr>myDiffieHellmanKey = edPrivToX25519 a\<rparr>; eb = \<lparr>myDiffieHellmanKey = edPrivToX25519 b\<rparr>
   in \<exists>ct. Encrypt demo_kx ea [104, 105] (PeerPrivateKeyToPublic b) (Inr (replicate 12 7)) = Inr ct \<and>
        Decrypt demo_kx eb ct (PeerPrivateKeyToPublic a) = Inr [104, 105]"
proof -
  let ?ea = "\<lparr>myDiffieHellmanKey = edPrivToX25519 (demo_key 1)\<rparr>"
  obtain ct where
    ct: "Encrypt demo_kx ?ea [104, 105] (PeerPrivateKeyToPublic (demo_key 2)) (Inr (replicate 12 7)) = Inr ct"
    by (simp add: Encrypt_def computeSharedKey_def EdPubKeyToX25519_def demo_kx_def)
  then show ?thesis
    using encrypt_decrypt [OF demo_kx_documented demo_key_keypair demo_key_keypair _ _
        demo_NewEngine demo_NewEngine ct]
    by (simp add: gcm_NonceSize_def)
qed

end
