(* ===== verification/Tls_Config.thy ===== *)
theory Tls_Config
  imports Crypto
begin

text \<open>
  \<^verbatim>\<open>GenerateTLSConfig\<close> of \<^verbatim>\<open>internal/crypto/security_keys.go\<close>: the self-signed certificate of a
  node and the TLS configuration that both sides of its connections use, and what \<^verbatim>\<open>crypto/tls\<close>
  accepts from a peer under a configuration. Certificates, PEM blocks and keys are encoded by the
  standard library, whose functions are an argument.
\<close>

section \<open>The configuration\<close>

datatype KeyUsage = KeyUsageDigitalSignature | KeyUsageCertSign
datatype ExtKeyUsage = ExtKeyUsageServerAuth | ExtKeyUsageClientAuth

text \<open>Times are in nanoseconds.\<close>

record x509_Certificate =
  SerialNumber :: int
  CommonName :: bytes
  Organization :: "bytes list"
  NotBefore :: int
  NotAfter :: int
  x5_KeyUsage :: KeyUsage
  x5_ExtKeyUsage :: "ExtKeyUsage list"
  BasicConstraintsValid :: bool

record tls_Certificate =
  Certificate :: "bytes list"
  PrivateKey :: bytes

datatype ClientAuthType =
    NoClientCert
  | RequestClientCert
  | RequireAnyClientCert
  | VerifyClientCertIfGiven
  | RequireAndVerifyClientCert

text \<open>
  \<^verbatim>\<open>VerifyPeerCertificate\<close> is given the raw certificates and the chains that were verified; of the
  session cache there is its capacity.
\<close>

record tls_Config =
  Certificates :: "tls_Certificate list"
  NextProtos :: "bytes list"
  ClientAuth :: ClientAuthType
  InsecureSkipVerify :: bool
  VerifyPeerCertificate :: "bytes list \<Rightarrow> bytes list list \<Rightarrow> unit result"
  ClientSessionCache :: nat

record tls_lib =
  x509_CreateCertificate :: "x509_Certificate \<Rightarrow> x509_Certificate \<Rightarrow> bytes \<Rightarrow> bytes \<Rightarrow> bytes result"
  x509_MarshalPKCS8PrivateKey :: "bytes \<Rightarrow> bytes result"
  pem_EncodeToMemory :: "bytes \<Rightarrow> bytes \<Rightarrow> bytes"
  tls_X509KeyPair :: "bytes \<Rightarrow> bytes \<Rightarrow> tls_Certificate result"

definition ten_years :: int where
  "ten_years = 3600000000000 * 24 * 365 * 10"

text \<open>\<open>now\<close> is what the successive calls of \<^verbatim>\<open>time.Now\<close> give.\<close>

definition cert_template :: "(nat \<Rightarrow> int) \<Rightarrow> bytes \<Rightarrow> x509_Certificate" where
  "cert_template now pub =
     (let pubHex = hex_EncodeToString pub
      in \<lparr>SerialNumber = now 0, CommonName = pubHex, Organization = [bytes_of_string ''P2P-Gossip-Messenger''],
          NotBefore = now 1, NotAfter = now 2 + ten_years, x5_KeyUsage = KeyUsageDigitalSignature,
          x5_ExtKeyUsage = [ExtKeyUsageServerAuth, ExtKeyUsageClientAuth], BasicConstraintsValid = True\<rparr>)"

text \<open>
  \<^verbatim>\<open>priv.Public()\<close> slices the key from its 32nd byte, which panics for a shorter one. The error
  of encoding the key is dropped.
\<close>

definition GenerateTLSConfig :: "tls_lib \<Rightarrow> (nat \<Rightarrow> int) \<Rightarrow> bytes \<Rightarrow> tls_Config result" where
  "GenerateTLSConfig T now priv =
     (if length priv < 32 then Inl (Panic IndexOutOfRange)
      else
        (let pub = copy zero32 (drop 32 priv);
             template = cert_template now pub
         in (case x509_CreateCertificate T template template pub priv of
               Inl e \<Rightarrow> Inl e
             | Inr certDER \<Rightarrow>
               (let privBytes = (case x509_MarshalPKCS8PrivateKey T priv of Inl _ \<Rightarrow> [] | Inr b \<Rightarrow> b);
                    keyPEM = pem_EncodeToMemory T (bytes_of_string ''PRIVATE KEY'') privBytes;
                    certPEM = pem_EncodeToMemory T (bytes_of_string ''CERTIFICATE'') certDER
                in (case tls_X509KeyPair T certPEM keyPEM of
                      Inl e \<Rightarrow> Inl e
                    | Inr tlsCert \<Rightarrow>
                      Inr \<lparr>Certificates = [tlsCert], NextProtos = [bytes_of_string ''my-gossip-protocol''],
                        ClientAuth = RequestClientCert, InsecureSkipVerify = True,
                        VerifyPeerCertificate = (\<lambda>rawCerts verifiedChains. Inr ()),
                        ClientSessionCache = 100\<rparr>)))))"

section \<open>What a configuration accepts\<close>

text \<open>
  The documented checks of \<^verbatim>\<open>crypto/tls\<close> on the certificates of the other side: \<open>chain_ok\<close> is the
  verification of a chain against the trusted roots (and, for a client, the name of the server),
  which a client leaves out when \<^verbatim>\<open>InsecureSkipVerify\<close> is set and a server makes or not according
  to \<^verbatim>\<open>ClientAuth\<close>; then the callback has a say.
\<close>

definition tls_client_accepts :: "tls_Config \<Rightarrow> (bytes list \<Rightarrow> bool) \<Rightarrow> bytes list \<Rightarrow> bool" where
  "tls_client_accepts cfg chain_ok certs =
     ((InsecureSkipVerify cfg \<or> chain_ok certs) \<and> VerifyPeerCertificate cfg certs [] = Inr ())"

definition tls_server_accepts :: "tls_Config \<Rightarrow> (bytes list \<Rightarrow> bool) \<Rightarrow> bytes list \<Rightarrow> bool" where
  "tls_server_accepts cfg chain_ok certs =
     (case ClientAuth cfg of
        NoClientCert \<Rightarrow> True
      | RequestClientCert \<Rightarrow> VerifyPeerCertificate cfg certs [] = Inr ()
      | RequireAnyClientCert \<Rightarrow> certs \<noteq> [] \<and> VerifyPeerCertificate cfg certs [] = Inr ()
      | VerifyClientCertIfGiven \<Rightarrow> (certs = [] \<or> chain_ok certs) \<and> VerifyPeerCertificate cfg certs [] = Inr ()
      | RequireAndVerifyClientCert \<Rightarrow>
          certs \<noteq> [] \<and> chain_ok certs \<and> VerifyPeerCertificate cfg certs [] = Inr ())"

section \<open>Lemmas\<close>

lemma GenerateTLSConfig_InrD:
  assumes "GenerateTLSConfig T now priv = Inr cfg"
  shows "InsecureSkipVerify cfg" and "ClientAuth cfg = RequestClientCert"
    and "VerifyPeerCertificate cfg raw verified = Inr ()"
    and "\<exists>cert. Certificates cfg = [cert]" and "32 \<le> length priv"
  using assms by (auto simp: GenerateTLSConfig_def Let_def split: if_splits sum.splits)

text \<open>A generated configuration takes any certificate, and none, from the other side.\<close>

lemma GenerateTLSConfig_accepts_all:
  assumes "GenerateTLSConfig T now priv = Inr cfg"
  shows "tls_client_accepts cfg chain_ok certs \<and> tls_server_accepts cfg chain_ok certs"
  using GenerateTLSConfig_InrD [OF assms] by (simp add: tls_client_accepts_def tls_server_accepts_def)

text \<open>The functions of the standard library return errors.\<close>

definition tls_no_panic :: "tls_lib \<Rightarrow> bool" where
  "tls_no_panic T \<longleftrightarrow>
     (\<forall>a b c d. \<not> is_panic (x509_CreateCertificate T a b c d)) \<and> (\<forall>a b. \<not> is_panic (tls_X509KeyPair T a b))"

lemma GenerateTLSConfig_panic_iff:
  assumes "tls_no_panic T"
  shows "is_panic (GenerateTLSConfig T now priv) \<longleftrightarrow> length priv < 32"
proof -
  have "\<not> is_panic (x509_CreateCertificate T a b c d)" "\<not> is_panic (tls_X509KeyPair T x y)" for a b c d x y
    using assms by (simp_all add: tls_no_panic_def)
  then show ?thesis
    by (auto simp: GenerateTLSConfig_def Let_def is_panic_iff split: sum.split)
qed

text \<open>The certificate names the identity key and holds for ten years from when it was made.\<close>

lemma cert_template_valid:
  assumes "now 1 \<le> now 2"
  shows "CommonName (cert_template now pub) = hex_EncodeToString pub \<and>
    NotBefore (cert_template now pub) + ten_years \<le> NotAfter (cert_template now pub)"
  using assms by (simp add: cert_template_def Let_def)

text \<open>A library for the examples: a certificate is its template's name.\<close>

definition demo_tls :: tls_lib where
  "demo_tls =
     \<lparr>x509_CreateCertificate = (\<lambda>t p pub priv. Inr (CommonName t)), x509_MarshalPKCS8PrivateKey = (\<lambda>k. Inr k),
      pem_EncodeToMemory = (\<lambda>t b. b), tls_X509KeyPair = (\<lambda>c k. Inr \<lparr>Certificate = [c], PrivateKey = k\<rparr>)\<rparr>"

lemma demo_tls_generates: "32 \<le> length priv \<Longrightarrow> \<exists>cfg. GenerateTLSConfig demo_tls now priv = Inr cfg"
  by (simp add: GenerateTLSConfig_def demo_tls_def Let_def)

end
