(* ===== verification/Wire_Instance.thy ===== *)
theory Wire_Instance
  imports Messages
begin

text \<open>
  A concrete serialisation of the messages, built from self-delimiting parts, on which
  \<open>codec_documented\<close> is proved: the codec that concrete runs of the development use. It is
  not the wire format of protocol buffers, and nothing depends on its layout; what it shows is
  that the hypothesis on the protobuf runtime can hold.
\<close>

section \<open>Parts\<close>

text \<open>A decoder returns what it read and the bytes that are left.\<close>

type_synonym 'a decoder = "bytes \<Rightarrow> ('a \<times> bytes) option"

definition inverts :: "('a \<Rightarrow> bytes) \<Rightarrow> 'a decoder \<Rightarrow> bool" where
  "inverts enc dec \<longleftrightarrow> (\<forall>x rest. dec (enc x @ rest) = Some (x, rest))"

lemma invertsD: "inverts enc dec \<Longrightarrow> dec (enc x @ rest) = Some (x, rest)"
  by (simp add: inverts_def)

fun enc_list :: "('a \<Rightarrow> bytes) \<Rightarrow> 'a list \<Rightarrow> bytes" where
  "enc_list enc [] = [0]"
| "enc_list enc (x # xs) = 1 # enc x @ enc_list enc xs"

text \<open>The fuel is the length of the input: every element takes at least one byte.\<close>

fun dec_list_fuel :: "nat \<Rightarrow> 'a decoder \<Rightarrow> 'a list decoder" where
  "dec_list_fuel 0 dec bs = None"
| "dec_list_fuel (Suc n) dec bs =
     (case bs of
        [] \<Rightarrow> None
      | b # bs' \<Rightarrow>
          if b = 0 then Some ([], bs')
          else (case dec bs' of
                  None \<Rightarrow> None
                | Some (x, r) \<Rightarrow>
                  (case dec_list_fuel n dec r of
                     None \<Rightarrow> None
                   | Some (xs, r') \<Rightarrow> Some (x # xs, r'))))"

definition dec_list :: "'a decoder \<Rightarrow> 'a list decoder" where
  "dec_list dec bs = dec_list_fuel (length bs) dec bs"

lemma dec_list_fuel_enough:
  "inverts enc dec \<Longrightarrow> length (enc_list enc xs) \<le> n \<Longrightarrow>
    dec_list_fuel n dec (enc_list enc xs @ rest) = Some (xs, rest)"
proof (induction xs arbitrary: n)
  case Nil
  then show ?case by (cases n) auto
next
  case (Cons x xs)
  then obtain m where "n = Suc m" "length (enc_list enc xs) \<le> m" by (cases n) auto
  with Cons show ?case by (simp add: invertsD)
qed

lemma inverts_list: "inverts enc dec \<Longrightarrow> inverts (enc_list enc) (dec_list dec)"
  by (simp add: inverts_def [of "enc_list enc"] dec_list_def dec_list_fuel_enough)

text \<open>A byte slice: its length in unary, then its bytes.\<close>

definition enc_bytes :: "bytes \<Rightarrow> bytes" where
  "enc_bytes b = replicate (length b) 1 @ 0 # b"

definition dec_bytes :: "bytes decoder" where
  "dec_bytes bs =
     (let n = length (takeWhile (\<lambda>b. b = 1) bs)
      in (case drop n bs of
            [] \<Rightarrow> None
          | _ # r \<Rightarrow> if n \<le> length r then Some (take n r, drop n r) else None))"

definition dec_u32 :: "u32 decoder" where
  "dec_u32 bs = (case get_uint32 bs of Inl _ \<Rightarrow> None | Inr v \<Rightarrow> Some (v, drop 4 bs))"

definition dec_u64 :: "u64 decoder" where
  "dec_u64 bs = (case get_uint64 bs of Inl _ \<Rightarrow> None | Inr v \<Rightarrow> Some (v, drop 8 bs))"

definition enc_pair :: "('a \<Rightarrow> bytes) \<Rightarrow> ('b \<Rightarrow> bytes) \<Rightarrow> 'a \<times> 'b \<Rightarrow> bytes" where
  "enc_pair f g p = f (fst p) @ g (snd p)"

definition dec_pair :: "'a decoder \<Rightarrow> 'b decoder \<Rightarrow> ('a \<times> 'b) decoder" where
  "dec_pair f g bs =
     (case f bs of
        None \<Rightarrow> None
      | Some (a, r) \<Rightarrow> (case g r of None \<Rightarrow> None | Some (b, r') \<Rightarrow> Some ((a, b), r')))"

fun enc_sum :: "('a \<Rightarrow> bytes) \<Rightarrow> ('b \<Rightarrow> bytes) \<Rightarrow> 'a + 'b \<Rightarrow> bytes" where
  "enc_sum f g (Inl a) = 0 # f a"
| "enc_sum f g (Inr b) = 1 # g b"

fun dec_sum :: "'a decoder \<Rightarrow> 'b decoder \<Rightarrow> ('a + 'b) decoder" where
  "dec_sum f g [] = None"
| "dec_sum f g (t # bs) =
     (if t = 0 then map_option (map_prod Inl id) (f bs) else map_option (map_prod Inr id) (g bs))"

definition enc_unit :: "unit \<Rightarrow> bytes" where "enc_unit u = []"
definition dec_unit :: "unit decoder" where "dec_unit bs = Some ((), bs)"

lemma inverts_pair: "inverts f f' \<Longrightarrow> inverts g g' \<Longrightarrow> inverts (enc_pair f g) (dec_pair f' g')"
  by (simp add: inverts_def enc_pair_def dec_pair_def)

lemma inverts_sum: "inverts f f' \<Longrightarrow> inverts g g' \<Longrightarrow> inverts (enc_sum f g) (dec_sum f' g')"
  unfolding inverts_def by (auto elim: enc_sum.elims split: sum.split) (case_tac x; simp)

lemma inverts_bytes: "inverts enc_bytes dec_bytes"
proof -
  have "takeWhile (\<lambda>b. b = 1) (replicate n 1 @ 0 # (r :: bytes)) = replicate n 1" for n r
    by (induction n) auto
  then show ?thesis by (simp add: inverts_def enc_bytes_def dec_bytes_def Let_def)
qed

lemma length_enc_bytes [simp]: "length (enc_bytes b) = 2 * length b + 1"
  by (simp add: enc_bytes_def)

lemma inverts_u32: "inverts put_uint32 dec_u32"
  by (simp add: inverts_def dec_u32_def codec_simps)

lemma inverts_u64: "inverts put_uint64 dec_u64"
  by (simp add: inverts_def dec_u64_def codec_simps)

lemma inverts_unit: "inverts enc_unit dec_unit"
  by (simp add: inverts_def enc_unit_def dec_unit_def)

lemmas inverts_intros = inverts_pair inverts_sum inverts_bytes inverts_u32 inverts_u64 inverts_unit inverts_list

section \<open>A codec from a representation\<close>

text \<open>A message type is given by its fields as nested pairs and sums.\<close>

definition wire_codec :: "('m \<Rightarrow> 'r) \<Rightarrow> ('r \<Rightarrow> 'm) \<Rightarrow> ('r \<Rightarrow> bytes) \<Rightarrow> 'r decoder \<Rightarrow> 'm codec" where
  "wire_codec rep mk enc dec =
     \<lparr>marshal = (\<lambda>m. Inr (enc (rep m))),
      unmarshal = (\<lambda>bs. case dec bs of
         Some (r, []) \<Rightarrow> Inr (mk r)
       | _ \<Rightarrow> Inl (Err (ErrLib ''proto: cannot parse'')))\<rparr>"

lemma wire_codec_documented:
  assumes "inverts enc dec" and "\<And>m. mk (rep m) = m"
  shows "codec_documented (wire_codec rep mk enc dec)"
  using invertsD [OF assms(1), of _ "[]"]
  by (auto simp: codec_documented_def wire_codec_def assms(2) split: option.split list.split)

lemma wire_codec_total: "\<exists>b. marshal (wire_codec rep mk enc dec) m = Inr b"
  by (simp add: wire_codec_def)

definition rep_epk :: "EncryptedPrivateKey \<Rightarrow> bytes \<times> bytes \<times> bytes \<times> bytes" where
  "rep_epk m = (Salt m, epk_Nonce m, EncryptedKey m, Algorithm m)"

fun mk_epk :: "bytes \<times> bytes \<times> bytes \<times> bytes \<Rightarrow> EncryptedPrivateKey" where
  "mk_epk (a, b, c, d) = \<lparr>Salt = a, epk_Nonce = b, EncryptedKey = c, Algorithm = d\<rparr>"

definition epk_codec :: "EncryptedPrivateKey codec" where
  "epk_codec = wire_codec rep_epk mk_epk
     (enc_pair enc_bytes (enc_pair enc_bytes (enc_pair enc_bytes enc_bytes)))
     (dec_pair dec_bytes (dec_pair dec_bytes (dec_pair dec_bytes dec_bytes)))"

lemma epk_codec_documented: "codec_documented epk_codec"
  unfolding epk_codec_def
  by (rule wire_codec_documented) (intro inverts_intros, simp add: rep_epk_def)

definition rep_env :: "Envelope \<Rightarrow> bytes \<times> bytes \<times> bytes" where
  "rep_env m = (env_Data m, env_Signature m, env_PubKey m)"

fun mk_env :: "bytes \<times> bytes \<times> bytes \<Rightarrow> Envelope" where
  "mk_env (a, b, c) = \<lparr>env_Data = a, env_Signature = b, env_PubKey = c\<rparr>"

definition env_codec :: "Envelope codec" where
  "env_codec = wire_codec rep_env mk_env
     (enc_pair enc_bytes (enc_pair enc_bytes enc_bytes))
     (dec_pair dec_bytes (dec_pair dec_bytes dec_bytes))"

lemma env_codec_documented: "codec_documented env_codec"
  unfolding env_codec_def
  by (rule wire_codec_documented) (intro inverts_intros, simp add: rep_env_def)

definition rep_node :: "MerkleNode \<Rightarrow> (unit + unit) \<times> bytes \<times> bytes list \<times> u64" where
  "rep_node m = (case mn_Type m of MerkleNode_FILE_CHUNK \<Rightarrow> Inl () | MerkleNode_META_LINK \<Rightarrow> Inr (),
     mn_Data m, mn_Links m, mn_Size m)"

fun mk_node :: "(unit + unit) \<times> bytes \<times> bytes list \<times> u64 \<Rightarrow> MerkleNode" where
  "mk_node (t, d, l, s) =
     \<lparr>mn_Type = (case t of Inl _ \<Rightarrow> MerkleNode_FILE_CHUNK | Inr _ \<Rightarrow> MerkleNode_META_LINK),
      mn_Data = d, mn_Links = l, mn_Size = s\<rparr>"

definition node_codec :: "MerkleNode codec" where
  "node_codec = wire_codec rep_node mk_node
     (enc_pair (enc_sum enc_unit enc_unit) (enc_pair enc_bytes (enc_pair (enc_list enc_bytes) put_uint64)))
     (dec_pair (dec_sum dec_unit dec_unit) (dec_pair dec_bytes (dec_pair (dec_list dec_bytes) dec_u64)))"

lemma node_codec_documented: "codec_documented node_codec"
  unfolding node_codec_def
  by (rule wire_codec_documented) (intro inverts_intros, simp add: rep_node_def split: MerkleNode_Type.split)

definition rep_dpe :: "dht_PeerStoreEntry \<Rightarrow> bytes \<times> bytes \<times> bytes \<times> u64 \<times> u32" where
  "rep_dpe m = (dpe_PubKey m, dpe_HashId m, dpe_LastKnownAddr m, dpe_LastSeen m, dpe_TrustScore m)"

fun mk_dpe :: "bytes \<times> bytes \<times> bytes \<times> u64 \<times> u32 \<Rightarrow> dht_PeerStoreEntry" where
  "mk_dpe (a, b, c, d, e) =
     \<lparr>dpe_PubKey = a, dpe_HashId = b, dpe_LastKnownAddr = c, dpe_LastSeen = d, dpe_TrustScore = e\<rparr>"

definition rep_bucket :: "KBucket \<Rightarrow> u32 \<times> (bytes \<times> bytes \<times> bytes \<times> u64 \<times> u32) list" where
  "rep_bucket m = (kb_Index m, map rep_dpe (kb_Peers m))"

fun mk_bucket :: "u32 \<times> (bytes \<times> bytes \<times> bytes \<times> u64 \<times> u32) list \<Rightarrow> KBucket" where
  "mk_bucket (i, ps) = \<lparr>kb_Index = i, kb_Peers = map mk_dpe ps\<rparr>"

definition bucket_codec :: "KBucket codec" where
  "bucket_codec = wire_codec rep_bucket mk_bucket
     (enc_pair put_uint32 (enc_list (enc_pair enc_bytes (enc_pair enc_bytes (enc_pair enc_bytes
        (enc_pair put_uint64 put_uint32))))))
     (dec_pair dec_u32 (dec_list (dec_pair dec_bytes (dec_pair dec_bytes (dec_pair dec_bytes
        (dec_pair dec_u64 dec_u32))))))"

lemma mk_rep_dpe: "mk_dpe (rep_dpe m) = m"
  by (simp add: rep_dpe_def)

lemma bucket_codec_documented: "codec_documented bucket_codec"
  unfolding bucket_codec_def
  by (rule wire_codec_documented) (intro inverts_intros, simp add: rep_bucket_def mk_rep_dpe comp_def)

definition rep_pse :: "PeerStoreEntry \<Rightarrow> bytes \<times> bytes \<times> u64 \<times> u32" where
  "rep_pse m = (pse_PubKey m, pse_LastKnownAddr m, pse_LastSeen m, pse_TrustScore m)"

fun mk_pse :: "bytes \<times> bytes \<times> u64 \<times> u32 \<Rightarrow> PeerStoreEntry" where
  "mk_pse (a, b, c, d) =
     \<lparr>pse_PubKey = a, pse_LastKnownAddr = b, pse_LastSeen = c, pse_TrustScore = d\<rparr>"

definition pse_codec :: "PeerStoreEntry codec" where
  "pse_codec = wire_codec rep_pse mk_pse
     (enc_pair enc_bytes (enc_pair enc_bytes (enc_pair put_uint64 put_uint32)))
     (dec_pair dec_bytes (dec_pair dec_bytes (dec_pair dec_u64 dec_u32)))"

lemma pse_codec_documented: "codec_documented pse_codec"
  unfolding pse_codec_def
  by (rule wire_codec_documented) (intro inverts_intros, simp add: rep_pse_def)

section \<open>MessageData\<close>

text \<open>The oneof as a nested sum, in the order of the constructors.\<close>

type_synonym payload_rep =
  "bytes + u64 + bytes + bytes + (bytes \<times> bytes) list + (bytes \<times> u64 \<times> bytes) +
   (bytes \<times> bytes \<times> u32) + u32 + (bytes \<times> bytes) list"

fun rep_payload :: "Payload \<Rightarrow> payload_rep" where
  "rep_payload (MessageData_HandshakeInit h) = Inl (Nonce h)"
| "rep_payload (MessageData_Ping p) = Inr (Inl (ping_Nonce p))"
| "rep_payload (MessageData_Ack a) = Inr (Inr (Inl (RefMessageId a)))"
| "rep_payload (MessageData_ChatMessage c) = Inr (Inr (Inr (Inl (EncryptedPayload c))))"
| "rep_payload (MessageData_PeerList l) =
     Inr (Inr (Inr (Inr (Inl (map (\<lambda>p. (plp_Id p, plp_LastKnownAddr p)) (pl_Peers l))))))"
| "rep_payload (MessageData_Transfer t) =
     Inr (Inr (Inr (Inr (Inr (Inl (AssetId t, Amount t, Memo t))))))"
| "rep_payload (MessageData_HandshakeResponse h) =
     Inr (Inr (Inr (Inr (Inr (Inr (Inl (hr_PubKey h, hr_Signature h, hr_Version h)))))))"
| "rep_payload (MessageData_PeerReq r) = Inr (Inr (Inr (Inr (Inr (Inr (Inr (Inl (Count r))))))))"
| "rep_payload (MessageData_PeerRes r) =
     Inr (Inr (Inr (Inr (Inr (Inr (Inr (Inr (map (\<lambda>p. (pi_PubKey p, pi_Address p)) (pr_Peers r)))))))))"

fun mk_payload :: "payload_rep \<Rightarrow> Payload" where
  "mk_payload (Inl n) = MessageData_HandshakeInit \<lparr>Nonce = n\<rparr>"
| "mk_payload (Inr (Inl n)) = MessageData_Ping \<lparr>ping_Nonce = n\<rparr>"
| "mk_payload (Inr (Inr (Inl r))) = MessageData_Ack \<lparr>RefMessageId = r\<rparr>"
| "mk_payload (Inr (Inr (Inr (Inl c)))) = MessageData_ChatMessage \<lparr>EncryptedPayload = c\<rparr>"
| "mk_payload (Inr (Inr (Inr (Inr (Inl l))))) =
     MessageData_PeerList \<lparr>pl_Peers = map (\<lambda>(i, a). \<lparr>plp_Id = i, plp_LastKnownAddr = a\<rparr>) l\<rparr>"
| "mk_payload (Inr (Inr (Inr (Inr (Inr (Inl (a, n, m))))))) =
     MessageData_Transfer \<lparr>AssetId = a, Amount = n, Memo = m\<rparr>"
| "mk_payload (Inr (Inr (Inr (Inr (Inr (Inr (Inl (k, s, v)))))))) =
     MessageData_HandshakeResponse \<lparr>hr_PubKey = k, hr_Signature = s, hr_Version = v\<rparr>"
| "mk_payload (Inr (Inr (Inr (Inr (Inr (Inr (Inr (Inl n)))))))) = MessageData_PeerReq \<lparr>Count = n\<rparr>"
| "mk_payload (Inr (Inr (Inr (Inr (Inr (Inr (Inr (Inr l)))))))) =
     MessageData_PeerRes \<lparr>pr_Peers = map (\<lambda>(k, a). \<lparr>pi_PubKey = k, pi_Address = a\<rparr>) l\<rparr>"

lemma peer_eta:
  "\<lparr>plp_Id = plp_Id x, plp_LastKnownAddr = plp_LastKnownAddr x\<rparr> = x"
  "\<lparr>pi_PubKey = pi_PubKey y, pi_Address = pi_Address y\<rparr> = y"
  "\<lparr>pl_Peers = pl_Peers l\<rparr> = l" "\<lparr>pr_Peers = pr_Peers r\<rparr> = r"
  by (cases x, simp) (cases y, simp, cases l, simp, cases r, simp)

lemma mk_rep_payload: "mk_payload (rep_payload p) = p"
  by (cases p rule: rep_payload.cases) (simp_all add: comp_def peer_eta)

definition rep_msg :: "MessageData \<Rightarrow> bytes \<times> bytes \<times> bytes \<times> u64 \<times> u32 \<times> (unit + payload_rep)" where
  "rep_msg m = (MessageId m, OriginId m, TargetId m, Timestamp m, HopLimit m,
     case Payload m of None \<Rightarrow> Inl () | Some p \<Rightarrow> Inr (rep_payload p))"

fun mk_msg :: "bytes \<times> bytes \<times> bytes \<times> u64 \<times> u32 \<times> (unit + payload_rep) \<Rightarrow> MessageData" where
  "mk_msg (i, og, ta, ti, h, p) =
     \<lparr>MessageId = i, OriginId = og, TargetId = ta, Timestamp = ti, HopLimit = h,
      Payload = (case p of Inl _ \<Rightarrow> None | Inr r \<Rightarrow> Some (mk_payload r))\<rparr>"

definition enc_payload :: "payload_rep \<Rightarrow> bytes" where
  "enc_payload = enc_sum enc_bytes (enc_sum put_uint64 (enc_sum enc_bytes (enc_sum enc_bytes
     (enc_sum (enc_list (enc_pair enc_bytes enc_bytes))
     (enc_sum (enc_pair enc_bytes (enc_pair put_uint64 enc_bytes))
     (enc_sum (enc_pair enc_bytes (enc_pair enc_bytes put_uint32))
     (enc_sum put_uint32 (enc_list (enc_pair enc_bytes enc_bytes)))))))))"

definition dec_payload :: "payload_rep decoder" where
  "dec_payload = dec_sum dec_bytes (dec_sum dec_u64 (dec_sum dec_bytes (dec_sum dec_bytes
     (dec_sum (dec_list (dec_pair dec_bytes dec_bytes))
     (dec_sum (dec_pair dec_bytes (dec_pair dec_u64 dec_bytes))
     (dec_sum (dec_pair dec_bytes (dec_pair dec_bytes dec_u32))
     (dec_sum dec_u32 (dec_list (dec_pair dec_bytes dec_bytes)))))))))"

definition msg_codec :: "MessageData codec" where
  "msg_codec = wire_codec rep_msg mk_msg
     (enc_pair enc_bytes (enc_pair enc_bytes (enc_pair enc_bytes (enc_pair put_uint64
       (enc_pair put_uint32 (enc_sum enc_unit enc_payload))))))
     (dec_pair dec_bytes (dec_pair dec_bytes (dec_pair dec_bytes (dec_pair dec_u64
       (dec_pair dec_u32 (dec_sum dec_unit dec_payload))))))"

lemma inverts_payload: "inverts enc_payload dec_payload"
  unfolding enc_payload_def dec_payload_def by (intro inverts_intros)

lemma msg_codec_documented: "codec_documented msg_codec"
  unfolding msg_codec_def
  by (rule wire_codec_documented)
    (intro inverts_intros inverts_payload, simp add: rep_msg_def mk_rep_payload split: option.split)

section \<open>ContentMessage\<close>

type_synonym content_rep =
  "(bytes \<times> u32 \<times> u32) + ((unit + unit) \<times> u32 \<times> u64 \<times> bytes) + (bytes \<times> bytes) + (bytes \<times> (unit + unit))"

definition rep_bool :: "bool \<Rightarrow> unit + unit" where
  "rep_bool b = (if b then Inr () else Inl ())"

fun mk_bool :: "unit + unit \<Rightarrow> bool" where
  "mk_bool (Inl _) = False"
| "mk_bool (Inr _) = True"

fun rep_content :: "ContentPayload \<Rightarrow> content_rep" where
  "rep_content (ContentMessage_InitReq r) =
     Inl (sir_RootHash r, sir_DesiredStreams r, sir_ProtocolVersion r)"
| "rep_content (ContentMessage_InitRes r) =
     Inr (Inl (rep_bool (Accepted r), AllowedStreams r, FileSize r, sires_SessionId r))"
| "rep_content (ContentMessage_ChunkReq r) = Inr (Inr (Inl (cr_SessionId r, ChunkHash r)))"
| "rep_content (ContentMessage_ChunkRes r) = Inr (Inr (Inr (cres_Data r, rep_bool (Found r))))"

fun mk_content :: "content_rep \<Rightarrow> ContentPayload" where
  "mk_content (Inl (h, d, v)) =
     ContentMessage_InitReq \<lparr>sir_RootHash = h, sir_DesiredStreams = d, sir_ProtocolVersion = v\<rparr>"
| "mk_content (Inr (Inl (a, s, z, i))) =
     ContentMessage_InitRes \<lparr>Accepted = mk_bool a, AllowedStreams = s, FileSize = z, sires_SessionId = i\<rparr>"
| "mk_content (Inr (Inr (Inl (i, h)))) = ContentMessage_ChunkReq \<lparr>cr_SessionId = i, ChunkHash = h\<rparr>"
| "mk_content (Inr (Inr (Inr (d, f)))) = ContentMessage_ChunkRes \<lparr>cres_Data = d, Found = mk_bool f\<rparr>"

lemma mk_rep_bool [simp]: "mk_bool (rep_bool b) = b"
  by (simp add: rep_bool_def)

lemma mk_rep_content: "mk_content (rep_content p) = p"
  by (cases p rule: rep_content.cases) simp_all

definition rep_cm :: "ContentMessage \<Rightarrow> unit + content_rep" where
  "rep_cm m = (case cm_Payload m of None \<Rightarrow> Inl () | Some p \<Rightarrow> Inr (rep_content p))"

definition mk_cm :: "unit + content_rep \<Rightarrow> ContentMessage" where
  "mk_cm r = \<lparr>cm_Payload = (case r of Inl _ \<Rightarrow> None | Inr c \<Rightarrow> Some (mk_content c))\<rparr>"

definition cm_codec :: "ContentMessage codec" where
  "cm_codec = wire_codec rep_cm mk_cm
     (enc_sum enc_unit (enc_sum (enc_pair enc_bytes (enc_pair put_uint32 put_uint32))
       (enc_sum (enc_pair (enc_sum enc_unit enc_unit) (enc_pair put_uint32 (enc_pair put_uint64 enc_bytes)))
       (enc_sum (enc_pair enc_bytes enc_bytes) (enc_pair enc_bytes (enc_sum enc_unit enc_unit))))))
     (dec_sum dec_unit (dec_sum (dec_pair dec_bytes (dec_pair dec_u32 dec_u32))
       (dec_sum (dec_pair (dec_sum dec_unit dec_unit) (dec_pair dec_u32 (dec_pair dec_u64 dec_bytes)))
       (dec_sum (dec_pair dec_bytes dec_bytes) (dec_pair dec_bytes (dec_sum dec_unit dec_unit))))))"

lemma cm_codec_documented: "codec_documented cm_codec"
  unfolding cm_codec_def
  by (rule wire_codec_documented)
    (intro inverts_intros, simp add: rep_cm_def mk_cm_def mk_rep_content split: option.split)

lemmas codecs_documented =
  epk_codec_documented env_codec_documented node_codec_documented bucket_codec_documented
  pse_codec_documented msg_codec_documented cm_codec_documented

lemma codecs_total:
  "\<exists>b. marshal epk_codec k = Inr b" "\<exists>b. marshal env_codec e = Inr b"
  "\<exists>b. marshal node_codec n = Inr b" "\<exists>b. marshal bucket_codec u = Inr b"
  "\<exists>b. marshal pse_codec p = Inr b" "\<exists>b. marshal msg_codec m = Inr b"
  "\<exists>b. marshal cm_codec c = Inr b"
  by (simp_all add: cm_codec_def epk_codec_def env_codec_def node_codec_def bucket_codec_def pse_codec_def
      msg_codec_def wire_codec_total)

end
