(* ===== verification/Handshake.thy ===== *)
theory Handshake
  imports Framing Tls_Config Wire_Instance
begin

text \<open>
  The authentication of a connection: \<^verbatim>\<open>internal/network/handshake.go\<close> and the
  \<^verbatim>\<open>QuicTransport\<close> of \<^verbatim>\<open>internal/network/quic.go\<close>, which runs it on the first
  stream of a connection and announces the authenticated connection on a channel. Each side
  sends a nonce, answers the other's nonce with a signature over it and its own public key, and
  checks the answer to its own nonce.

  The QUIC connection is a value of a type variable; what resolving, dialling, opening and
  accepting give are inputs of the operations, and what is done to the connection is the list
  of effects they return.
\<close>

section \<open>The three steps\<close>

definition hs_init :: "bytes \<Rightarrow> MessageData" where
  "hs_init nonce = payload_only (MessageData_HandshakeInit \<lparr>Nonce = nonce\<rparr>)"

definition hs_response :: "PeerPublicKey \<Rightarrow> bytes \<Rightarrow> u32 \<Rightarrow> MessageData" where
  "hs_response pub sig version =
     payload_only (MessageData_HandshakeResponse
       \<lparr>hr_PubKey = pub, hr_Signature = sig, hr_Version = version\<rparr>)"

definition sendHandshake :: "MessageData codec \<Rightarrow> bytes \<Rightarrow> qstream \<Rightarrow> unit result \<times> qstream" where
  "sendHandshake M nonce s =
     (case marshal M (hs_init nonce) of
        Inl e \<Rightarrow> (Inl e, s)
      | Inr data \<Rightarrow> writeFrame TypeHandshake data s)"

definition checkHandshakeResponse ::
  "MessageData codec \<Rightarrow> ed25519_lib \<Rightarrow> bytes \<Rightarrow> qstream \<Rightarrow> PeerPublicKey result \<times> qstream" where
  "checkHandshakeResponse M E nonce s =
     (case readFrame s of
        (Inl e, s1) \<Rightarrow> (Inl e, s1)
      | (Inr (msgType, protoData), s1) \<Rightarrow>
        if msgType \<noteq> TypeHandshake then (Inl (Err (ErrNew ''message type is not handshake'')), s1)
        else
          (case unmarshal M protoData of
             Inl e \<Rightarrow> (Inl e, s1)
           | Inr data \<Rightarrow>
             (case Payload data of
                Some (MessageData_HandshakeResponse msg) \<Rightarrow>
                  (let dataForVerify = nonce @ hr_PubKey msg
                   in (case to_array 32 (hr_PubKey msg) of
                         Inl e \<Rightarrow> (Inl e, s1)
                       | Inr pubKey \<Rightarrow>
                           if \<not> VerifySignature E pubKey dataForVerify (hr_Signature msg)
                           then (Inl (Err (ErrNew ''invalid signature'')), s1)
                           else (to_array 32 (hr_PubKey msg), s1)))
              | _ \<Rightarrow> (Inl (Err (ErrNew ''invalid proto type'')), s1))))"

definition acceptHandshake ::
  "MessageData codec \<Rightarrow> ed25519_lib \<Rightarrow> PeerPrivateKey \<Rightarrow> u32 \<Rightarrow> qstream \<Rightarrow> unit result \<times> qstream" where
  "acceptHandshake M E privKey version s =
     (case readFrame s of
        (Inl e, s1) \<Rightarrow> (Inl e, s1)
      | (Inr (msgType, protoData), s1) \<Rightarrow>
        if msgType \<noteq> TypeHandshake then (Inl (Err (ErrNew ''message type is not handshake'')), s1)
        else
          (case unmarshal M protoData of
             Inl e \<Rightarrow> (Inl e, s1)
           | Inr data \<Rightarrow>
             (case Payload data of
                Some (MessageData_HandshakeInit hs) \<Rightarrow>
                  (let myPubKey = PeerPrivateKeyToPublic privKey;
                       dataForSignature = Nonce hs @ myPubKey
                   in (case CreateSignature E dataForSignature privKey of
                         Inl e \<Rightarrow> (Inl e, s1)
                       | Inr signature \<Rightarrow>
                         (case marshal M (hs_response myPubKey signature version) of
                            Inl e \<Rightarrow> (Inl e, s1)
                          | Inr bs \<Rightarrow> writeFrame TypeHandshake bs s1)))
              | _ \<Rightarrow> (Inl (Err (ErrNew ''invalid proto type'')), s1))))"

section \<open>The transport\<close>

type_synonym QuicErrorCode = nat

definition ErrCodeNoError :: QuicErrorCode where "ErrCodeNoError = 0"
definition ErrCodeProtocolViolation :: QuicErrorCode where "ErrCodeProtocolViolation = 1"
definition ErrCodeSpamDetected :: QuicErrorCode where "ErrCodeSpamDetected = 2"
definition ErrCodeStreamError :: QuicErrorCode where "ErrCodeStreamError = 3"
definition ErrCodeAuthFailed :: QuicErrorCode where "ErrCodeAuthFailed = 4"
definition ErrCodeNormalClose :: QuicErrorCode where "ErrCodeNormalClose = 5"

text \<open>Durations are in milliseconds.\<close>

record quic_Config =
  Allow0RTT :: bool
  KeepAlivePeriod :: int
  MaxIdleTimeout :: int
  MaxIncomingStreams :: int
  MaxIncomingUniStreams :: int
  EnableDatagrams :: bool

definition GetQuicConfig :: quic_Config where
  "GetQuicConfig =
     \<lparr>Allow0RTT = True, KeepAlivePeriod = 10 * 1000, MaxIdleTimeout = 30 * 1000, MaxIncomingStreams = 1000,
      MaxIncomingUniStreams = 1000, EnableDatagrams = True\<rparr>"

text \<open>
  \<open>tr\<close> is the \<^verbatim>\<open>*quic.Transport\<close>, of which the local address of its socket is kept; the pointers
  may be nil. What is sent on \<^verbatim>\<open>connChan\<close> is a result of the operations.
\<close>

record QuicTransport =
  tr :: "bytes option"
  tlsCfg :: "tls_Config option"
  quicCgf :: "quic_Config option"
  privKey :: PeerPrivateKey
  protocolVersion :: u32
  tr_addr :: "bytes option"

definition connChan_capacity :: nat where "connChan_capacity = 10"

text \<open>The zero value of the type.\<close>

definition zero_transport :: QuicTransport where
  "zero_transport =
     \<lparr>tr = None, tlsCfg = None, quicCgf = None, privKey = replicate 64 0, protocolVersion = 0, tr_addr = None\<rparr>"

text \<open>
  \<open>resolve\<close> is \<^verbatim>\<open>net.ResolveUDPAddr\<close>, whose error is dropped, and \<open>listenUDP\<close> is \<^verbatim>\<open>net.ListenUDP\<close>,
  which gives the local address of the socket and for a nil address binds to any port.
\<close>

definition NewQUICTransport ::
  "(bytes \<Rightarrow> bytes result) \<Rightarrow> (bytes option \<Rightarrow> bytes result) \<Rightarrow> bytes \<Rightarrow> tls_Config option \<Rightarrow>
   quic_Config option \<Rightarrow> PeerPrivateKey \<Rightarrow> u32 \<Rightarrow> QuicTransport result" where
  "NewQUICTransport resolve listenUDP addr tls quic priv version =
     (let udpAddr = (case resolve addr of Inl _ \<Rightarrow> None | Inr a \<Rightarrow> Some a)
      in (case listenUDP udpAddr of
            Inl err \<Rightarrow> Inl (Panic (ExplicitPanic ''log.Fatal''))
          | Inr localAddr \<Rightarrow>
            Inr \<lparr>tr = Some localAddr, tlsCfg = tls, quicCgf = quic, privKey = priv,
              protocolVersion = version, tr_addr = Some localAddr\<rparr>))"

definition QuicTransport_Addr :: "QuicTransport \<Rightarrow> bytes option" where
  "QuicTransport_Addr q = tr_addr q"

text \<open>
  \<open>listen\<close> is \<^verbatim>\<open>ListenEarly\<close> of the QUIC library on the socket and the two configurations; on
  success the goroutine of \<^verbatim>\<open>AcceptConn\<close> is started with the transport's version. The text of the
  error is not wrapped.
\<close>

definition ListenEarly ::
  "(bytes \<Rightarrow> tls_Config option \<Rightarrow> quic_Config option \<Rightarrow> unit result) \<Rightarrow> QuicTransport \<Rightarrow> unit result" where
  "ListenEarly listen q =
     (case tr q of
        None \<Rightarrow> Inl (Panic NilDereference)
      | Some sock \<Rightarrow>
        (case listen sock (tlsCfg q) (quicCgf q) of
           Inl (Panic p) \<Rightarrow> Inl (Panic p)
         | Inl (Err e) \<Rightarrow> Inl (Err (ErrNew ''QuicTransport Listen error''))
         | Inr _ \<Rightarrow> Inr ()))"

record 'c NewConnEvent =
  ev_Conn :: 'c
  ev_IsOut :: bool
  ev_PeerID :: PeerID
  ev_PeerPubKey :: PeerPublicKey
  ev_Addr :: bytes

text \<open>What is done to the connection, and what is sent on \<^verbatim>\<open>connChan\<close>.\<close>

datatype 'c conn_effect =
    CloseWithError 'c QuicErrorCode
  | CloseStream
  | ConnChan "'c NewConnEvent"

definition newConn :: "'c \<Rightarrow> bool \<Rightarrow> bytes \<Rightarrow> PeerID \<Rightarrow> PeerPublicKey \<Rightarrow> 'c conn_effect" where
  "newConn conn isOut addr peerID peerPubKey =
     ConnChan \<lparr>ev_Conn = conn, ev_IsOut = isOut, ev_PeerID = peerID, ev_PeerPubKey = peerPubKey,
       ev_Addr = addr\<rparr>"

text \<open>\<open>myNonce\<close> is what the 32 bytes read from \<^verbatim>\<open>crypto/rand\<close> are.\<close>

definition authenticatePeer ::
  "MessageData codec \<Rightarrow> ed25519_lib \<Rightarrow> QuicTransport \<Rightarrow> u32 \<Rightarrow> bytes \<Rightarrow> qstream \<Rightarrow>
   PeerPublicKey result \<times> qstream" where
  "authenticatePeer M E q version myNonce s =
     (case sendHandshake M myNonce s of
        (Inl e, s1) \<Rightarrow> (Inl e, s1)
      | (Inr _, s1) \<Rightarrow>
        (case acceptHandshake M E (privKey q) version s1 of
           (Inl e, s2) \<Rightarrow> (Inl e, s2)
         | (Inr _, s2) \<Rightarrow>
           (case checkHandshakeResponse M E myNonce s2 of
              (Inl e, s3) \<Rightarrow> (Inl e, s3)
            | (Inr peerPubKey, s3) \<Rightarrow> (Inr peerPubKey, s3))))"

text \<open>
  \<open>resolved\<close>, \<open>dialed\<close> (the connection and its remote address) and \<open>opened\<close> are the
  outcomes of resolving the address, dialling it and opening the first stream; dialling
  dereferences the \<^verbatim>\<open>*quic.Transport\<close>. The deferred
  \<^verbatim>\<open>stream.Close()\<close> runs last on every way out, also when a panic unwinds.
\<close>

definition DialEarly ::
  "MessageData codec \<Rightarrow> ed25519_lib \<Rightarrow> QuicTransport \<Rightarrow> bytes \<Rightarrow> unit result \<Rightarrow> ('c \<times> bytes) result \<Rightarrow>
   qstream result \<Rightarrow> unit result \<times> 'c conn_effect list \<times> qstream option" where
  "DialEarly M E q myNonce resolved dialed opened =
     (case resolved of
        Inl e \<Rightarrow> (Inl e, [], None)
      | Inr _ \<Rightarrow>
        (case tr q of
           None \<Rightarrow> (Inl (Panic NilDereference), [], None)
         | Some _ \<Rightarrow>
          (case dialed of
             Inl e \<Rightarrow> (Inl e, [], None)
           | Inr (conn, addr) \<Rightarrow>
             (case opened of
                Inl e \<Rightarrow> (Inl e, [CloseWithError conn ErrCodeStreamError], None)
              | Inr s \<Rightarrow>
                (case authenticatePeer M E q (protocolVersion q) myNonce s of
                   (Inl (Panic p), s1) \<Rightarrow> (Inl (Panic p), [CloseStream], Some s1)
                 | (Inl (Err e), s1) \<Rightarrow>
                     (Inl (Err e), [CloseWithError conn ErrCodeAuthFailed, CloseStream], Some s1)
                 | (Inr peerPubKey, s1) \<Rightarrow>
                   (let peerID = PeerPubKeyToID peerPubKey
                    in (case sendReadyFrame s1 of
                          (False, s2) \<Rightarrow>
                            (Inl (Err (ErrNew ''error to send ready frame to peer'')), [CloseStream], Some s2)
                        | (True, s2) \<Rightarrow>
                            (Inr (), [newConn conn True addr peerID peerPubKey, CloseStream], Some s2))))))))"

text \<open>
  The goroutine that \<^verbatim>\<open>AcceptConn\<close> starts for a connection; it has no result, only a panic
  can come out of it.
\<close>

definition AcceptConn_handler ::
  "MessageData codec \<Rightarrow> ed25519_lib \<Rightarrow> QuicTransport \<Rightarrow> u32 \<Rightarrow> bytes \<Rightarrow> 'c \<Rightarrow> bytes \<Rightarrow> qstream result \<Rightarrow>
   panic option \<times> 'c conn_effect list \<times> qstream option" where
  "AcceptConn_handler M E q version myNonce conn addr accepted =
     (case accepted of
        Inl e \<Rightarrow> (None, [CloseWithError conn ErrCodeStreamError], None)
      | Inr s \<Rightarrow>
        (case authenticatePeer M E q version myNonce s of
           (Inl (Panic p), s1) \<Rightarrow> (Some p, [CloseStream], Some s1)
         | (Inl (Err e), s1) \<Rightarrow> (None, [CloseWithError conn ErrCodeAuthFailed, CloseStream], Some s1)
         | (Inr peerPubKey, s1) \<Rightarrow>
           (let peerID = PeerPubKeyToID peerPubKey
            in (case acceptReadyFrame s1 of
                  (False, s2) \<Rightarrow> (None, [CloseStream], Some s2)
                | (True, s2) \<Rightarrow> (None, [newConn conn False addr peerID peerPubKey, CloseStream], Some s2)))))"

section \<open>What each step does\<close>

lemma hs_Payload [simp]:
  "Payload (hs_init n) = Some (MessageData_HandshakeInit \<lparr>Nonce = n\<rparr>)"
  "Payload (hs_response k s v) =
     Some (MessageData_HandshakeResponse \<lparr>hr_PubKey = k, hr_Signature = s, hr_Version = v\<rparr>)"
  by (simp_all add: hs_init_def hs_response_def payload_only_def)

lemma checkHandshakeResponse_InrD:
  assumes "checkHandshakeResponse M E nonce s = (Inr k, s')"
  obtains data m msg where "readFrame s = (Inr (TypeHandshake, data), s')" "unmarshal M data = Inr m"
    "Payload m = Some (MessageData_HandshakeResponse msg)" "32 \<le> length (hr_PubKey msg)"
    "k = take 32 (hr_PubKey msg)" "VerifySignature E k (nonce @ hr_PubKey msg) (hr_Signature msg)"
  using assms that unfolding checkHandshakeResponse_def
  by (auto simp: Let_def to_array_def split: prod.splits sum.splits option.splits Payload.splits if_splits)

lemma readFrame_rest: "readFrame s = (r, s') \<Longrightarrow> wbuf s' = wbuf s \<and> wlimit s' = wlimit s \<and> rend s' = rend s"
  by (rule readFrame_cases [of s]) auto

lemma acceptHandshake_InrD:
  assumes "acceptHandshake M E k v s = (Inr u, s')"
  obtains data m hs s1 sig r where "readFrame s = (Inr (TypeHandshake, data), s1)" "unmarshal M data = Inr m"
    "Payload m = Some (MessageData_HandshakeInit hs)"
    "CreateSignature E (Nonce hs @ PeerPrivateKeyToPublic k) k = Inr sig"
    "marshal M (hs_response (PeerPrivateKeyToPublic k) sig v) = Inr r"
    "writeFrame TypeHandshake r s1 = (Inr u, s')"
  using assms that unfolding acceptHandshake_def
  by (auto simp: Let_def split: prod.splits sum.splits option.splits Payload.splits if_splits)

lemma acceptHandshake_writes:
  assumes "rbuf s = frame TypeHandshake i @ rest" and "framable (TypeHandshake, i)"
    and "unmarshal M i = Inr m" and "Payload m = Some (MessageData_HandshakeInit hs)"
    and "CreateSignature E (Nonce hs @ PeerPrivateKeyToPublic k) k = Inr sig"
    and "marshal M (hs_response (PeerPrivateKeyToPublic k) sig v) = Inr r" and "wlimit s = None"
  shows "acceptHandshake M E k v s =
    (Inr (), s\<lparr>rbuf := rest, wbuf := wbuf s @ frame TypeHandshake r\<rparr>)"
  using assms by (simp add: acceptHandshake_def readFrame_frame writeFrame_ok)

lemma checkHandshakeResponse_accepts:
  assumes "rbuf s = frame TypeHandshake r @ rest" and "framable (TypeHandshake, r)"
    and "unmarshal M r = Inr (hs_response pub sig v)" and "length pub = 32"
    and "VerifySignature E pub (nonce @ pub) sig"
  shows "checkHandshakeResponse M E nonce s = (Inr pub, s\<lparr>rbuf := rest\<rparr>)"
  using assms by (simp add: checkHandshakeResponse_def readFrame_frame)

section \<open>An honest end\<close>

text \<open>
  What an end with the configuration \<open>q\<close> and the nonce \<open>n\<close> writes when it receives the nonce
  \<open>n'\<close>: its own nonce, then the signed answer.
\<close>

definition handshake_output ::
  "MessageData codec \<Rightarrow> ed25519_lib \<Rightarrow> QuicTransport \<Rightarrow> bytes \<Rightarrow> bytes \<Rightarrow> bytes option" where
  "handshake_output M E q n n' =
     (let pub = PeerPrivateKeyToPublic (privKey q)
      in (case (marshal M (hs_init n), CreateSignature E (n' @ pub) (privKey q)) of
            (Inr i, Inr sig) \<Rightarrow>
              (case marshal M (hs_response pub sig (protocolVersion q)) of
                 Inl _ \<Rightarrow> None
               | Inr r \<Rightarrow>
                   if framable (TypeHandshake, i) \<and> framable (TypeHandshake, r)
                   then Some (frame TypeHandshake i @ frame TypeHandshake r) else None)
          | _ \<Rightarrow> None))"

lemma handshake_outputE:
  assumes "handshake_output M E q n n' = Some out"
  obtains i sig r where "marshal M (hs_init n) = Inr i"
    "CreateSignature E (n' @ PeerPrivateKeyToPublic (privKey q)) (privKey q) = Inr sig"
    "marshal M (hs_response (PeerPrivateKeyToPublic (privKey q)) sig (protocolVersion q)) = Inr r"
    "framable (TypeHandshake, i)" "framable (TypeHandshake, r)"
    "out = frame TypeHandshake i @ frame TypeHandshake r"
  using assms that by (auto simp: handshake_output_def Let_def split: sum.splits if_splits)

text \<open>
  \<open>answered M E n bs k\<close>: the bytes \<open>bs\<close> that a peer sent contain a handshake response with a
  public key whose first 32 bytes are \<open>k\<close> and a signature under \<open>k\<close> over the nonce \<open>n\<close> and that
  public key. Whatever the input, what \<^verbatim>\<open>authenticatePeer\<close> accepts was answered.
\<close>

definition answered :: "MessageData codec \<Rightarrow> ed25519_lib \<Rightarrow> bytes \<Rightarrow> bytes \<Rightarrow> PeerPublicKey \<Rightarrow> bool" where
  "answered M E n bs k \<longleftrightarrow>
     (\<exists>data m msg. sublist data bs \<and> unmarshal M data = Inr m \<and>
        Payload m = Some (MessageData_HandshakeResponse msg) \<and>
        length k = 32 \<and> take 32 (hr_PubKey msg) = k \<and>
        VerifySignature E k (n @ hr_PubKey msg) (hr_Signature msg))"

lemma readFrame_part:
  assumes "readFrame s = (Inr (t, d), s')"
  shows "\<exists>p. rbuf s = p @ d @ rbuf s'"
proof (rule readFrame_cases [of s])
  fix n t' data
  assume n: "4 + unat n \<le> length (rbuf s)" and data: "take (unat n) (drop 4 (rbuf s)) = ucast t' # data"
    and "readFrame s = (Inr (t', data), s\<lparr>rbuf := drop (4 + unat n) (rbuf s)\<rparr>)"
  with assms have s': "s' = s\<lparr>rbuf := drop (4 + unat n) (rbuf s)\<rparr>" "d = data" by auto
  have "rbuf s = take 4 (rbuf s) @ take (unat n) (drop 4 (rbuf s)) @ drop (4 + unat n) (rbuf s)"
    by (metis append_take_drop_id drop_drop add.commute)
  then have "rbuf s = (take 4 (rbuf s) @ [ucast t']) @ data @ rbuf s'" using data s' by simp
  with s' show ?thesis by metis
qed (use assms in auto)

lemma readFrame_sublist:
  assumes "readFrame s = (Inr (t, d), s')"
  shows "sublist d (rbuf s) \<and> suffix (rbuf s') (rbuf s)"
proof -
  obtain p where "rbuf s = p @ d @ rbuf s'" using readFrame_part [OF assms] by blast
  then show ?thesis by (metis sublist_appendI suffix_def append.assoc)
qed

lemma authenticatePeer_sound:
  assumes "authenticatePeer M E q v n s = (Inr k, s')"
  shows "answered M E n (rbuf s) k"
proof -
  obtain s1 s2 u where s1: "sendHandshake M n s = (Inr u, s1)"
    and s2: "\<exists>u. acceptHandshake M E (privKey q) v s1 = (Inr u, s2)"
    and s3: "checkHandshakeResponse M E n s2 = (Inr k, s')"
    using assms by (auto simp: authenticatePeer_def split: prod.splits sum.splits)
  from s1 have "rbuf s1 = rbuf s"
    by (auto simp: sendHandshake_def writeFrame_eq split: sum.splits dest: Write_frame)
  moreover from s2 have "suffix (rbuf s2) (rbuf s1)"
    by (auto elim!: acceptHandshake_InrD simp: writeFrame_eq) (metis Write_frame readFrame_sublist)
  moreover from s3 obtain data m msg where r: "readFrame s2 = (Inr (TypeHandshake, data), s')"
    "unmarshal M data = Inr m" "Payload m = Some (MessageData_HandshakeResponse msg)"
    "32 \<le> length (hr_PubKey msg)" "k = take 32 (hr_PubKey msg)"
    "VerifySignature E k (n @ hr_PubKey msg) (hr_Signature msg)"
    by (rule checkHandshakeResponse_InrD)
  then have "sublist data (rbuf s2)" by (blast dest: readFrame_sublist)
  ultimately have "sublist data (rbuf s)"
    using suffix_imp_sublist sublist_order.order_trans by metis
  moreover have "length k = 32" using r by simp
  ultimately show ?thesis using r unfolding answered_def by metis
qed

text \<open>
  An end that is fed with what an honest end writes in answer to its nonce accepts that end's
  key, and has then written exactly its own part. The other end may be the end itself.
\<close>

lemma authenticatePeer_honest:
  assumes M: "codec_documented M" and E: "ed_documented E keypair" and b: "keypair (privKey qb)"
    and outa: "handshake_output M E qa na nb = Some outa"
    and outb: "handshake_output M E qb nb na = Some outb"
    and s: "rbuf s = outb @ rest" "wlimit s = None"
  shows "authenticatePeer M E qa (protocolVersion qa) na s =
    (Inr (PeerPrivateKeyToPublic (privKey qb)), s\<lparr>rbuf := rest, wbuf := wbuf s @ outa\<rparr>)"
proof -
  let ?pb = "PeerPrivateKeyToPublic (privKey qb)"
  from outa obtain ia siga ra where
    a: "marshal M (hs_init na) = Inr ia"
      "CreateSignature E (nb @ PeerPrivateKeyToPublic (privKey qa)) (privKey qa) = Inr siga"
      "marshal M (hs_response (PeerPrivateKeyToPublic (privKey qa)) siga (protocolVersion qa)) = Inr ra"
      "outa = frame TypeHandshake ia @ frame TypeHandshake ra"
    by (rule handshake_outputE) blast
  from outb obtain ib sigb rb where
    b': "marshal M (hs_init nb) = Inr ib" "CreateSignature E (na @ ?pb) (privKey qb) = Inr sigb"
      "marshal M (hs_response ?pb sigb (protocolVersion qb)) = Inr rb"
      "framable (TypeHandshake, ib)" "framable (TypeHandshake, rb)"
      "outb = frame TypeHandshake ib @ frame TypeHandshake rb"
    by (rule handshake_outputE) blast
  let ?s1 = "s\<lparr>wbuf := wbuf s @ frame TypeHandshake ia\<rparr>"
  let ?s2 = "?s1\<lparr>rbuf := frame TypeHandshake rb @ rest, wbuf := wbuf ?s1 @ frame TypeHandshake ra\<rparr>"
  have "sendHandshake M na s = (Inr (), ?s1)"
    using a(1) s(2) by (simp add: sendHandshake_def writeFrame_ok)
  moreover have "acceptHandshake M E (privKey qa) (protocolVersion qa) ?s1 = (Inr (), ?s2)"
    using acceptHandshake_writes [of ?s1 ib "frame TypeHandshake rb @ rest" M "hs_init nb" "\<lparr>Nonce = nb\<rparr>"]
      a b' s codec_roundtrip [OF M b'(1)] by simp
  moreover have "VerifySignature E ?pb (na @ ?pb) sigb"
    using signature_verifies [OF E b, of "na @ ?pb"] b'(2) by auto
  then have "checkHandshakeResponse M E na ?s2 = (Inr ?pb, ?s2\<lparr>rbuf := rest\<rparr>)"
    using b' codec_roundtrip [OF M b'(3)] by (intro checkHandshakeResponse_accepts) simp_all
  ultimately show ?thesis using a(4) by (simp add: authenticatePeer_def)
qed

lemma ConnChan_authenticated:
  assumes "opened = Inr s" and
    "ConnChan ev \<in> set (fst (snd (DialEarly M E q n resolved dialed opened))) \<or>
     ConnChan ev \<in> set (fst (snd (AcceptConn_handler M E q v n conn addr opened)))"
  shows "answered M E n (rbuf s) (ev_PeerPubKey ev) \<and> ev_PeerID ev = sha256 (ev_PeerPubKey ev)"
proof -
  from assms obtain w s' where "authenticatePeer M E q w n s = (Inr (ev_PeerPubKey ev), s')"
    and "ev_PeerID ev = sha256 (ev_PeerPubKey ev)"
    unfolding DialEarly_def AcceptConn_handler_def
    by (auto simp: newConn_def Let_def PeerPubKeyToID_def
        split: sum.splits prod.splits exn.splits bool.splits if_splits option.splits)
  then show ?thesis by (simp add: authenticatePeer_sound)
qed

text \<open>Two honest ends of which each reads what the other writes.\<close>

lemma handshake_both:
  assumes "codec_documented M" and "ed_documented E keypair"
    and "keypair (privKey qa)" and "keypair (privKey qb)"
    and "handshake_output M E qa na nb = Some outa" and "handshake_output M E qb nb na = Some outb"
    and "rbuf sa = outb" and "wbuf sa = []" and "wlimit sa = None"
    and "wbuf sb = []" and "wlimit sb = None" and "rbuf sb = outa @ [ucast TypeReady]" and "tr qa = Some sock"
  shows "let pa = PeerPrivateKeyToPublic (privKey qa); pb = PeerPrivateKeyToPublic (privKey qb) in
    \<exists>sa' sb'.
      DialEarly M E qa na (Inr ()) (Inr (ca, addra)) (Inr sa) =
        (Inr (), [newConn ca True addra (PeerPubKeyToID pb) pb, CloseStream], Some sa') \<and>
      AcceptConn_handler M E qb (protocolVersion qb) nb cb addrb (Inr sb) =
        (None, [newConn cb False addrb (PeerPubKeyToID pa) pa, CloseStream], Some sb') \<and>
      wbuf sa' = rbuf sb \<and> wbuf sb' = rbuf sa"
  using assms authenticatePeer_honest [OF assms(1,2,4,5,6), of sa "[]"]
    authenticatePeer_honest [OF assms(1,2,3,6,5), of sb "[ucast TypeReady]"]
  by (simp add: DialEarly_def AcceptConn_handler_def sendReadyFrame_def acceptReadyFrame_def
      Write_ok ReadFull_def Let_def)

section \<open>Properties\<close>

text \<open>
  C10. Two honest nodes authenticate each other: there are byte strings \<open>outa\<close> and \<open>outb\<close>
  that are each what one end writes when it reads the other. The dialling node then announces
  the connection with the accepting node's public key and the hash of it as its identifier, the
  accepting node announces it with the dialling node's, no connection is closed, and each end's
  output is the other end's input.
\<close>

theorem transport_handshake:
  assumes "codec_documented M" and "ed_documented E keypair"
    and "keypair (privKey qa)" and "keypair (privKey qb)"
    and "handshake_output M E qa na nb = Some outa" and "handshake_output M E qb nb na = Some outb"
    and "rbuf sa = outb" and "wbuf sa = []" and "wlimit sa = None"
    and "wbuf sb = []" and "wlimit sb = None" and "rbuf sb = outa @ [ucast TypeReady]" and "tr qa = Some sock"
  shows "let pa = PeerPrivateKeyToPublic (privKey qa); pb = PeerPrivateKeyToPublic (privKey qb) in
    \<exists>sa' sb'.
      DialEarly M E qa na (Inr ()) (Inr (ca, addra)) (Inr sa) =
        (Inr (), [newConn ca True addra (PeerPubKeyToID pb) pb, CloseStream], Some sa') \<and>
      AcceptConn_handler M E qb (protocolVersion qb) nb cb addrb (Inr sb) =
        (None, [newConn cb False addrb (PeerPubKeyToID pa) pa, CloseStream], Some sb') \<and>
      wbuf sa' = rbuf sb \<and> wbuf sb' = rbuf sa"
  by (rule handshake_both [OF assms])

text \<open>Two concrete nodes.\<close>

definition demo_transport :: "byte \<Rightarrow> QuicTransport" where
  "demo_transport x =
     \<lparr>tr = Some [], tlsCfg = None, quicCgf = None, privKey = demo_key x, protocolVersion = 1, tr_addr = Some []\<rparr>"

lemma marshal_msg_codec_length:
  "\<exists>i. marshal msg_codec (hs_init n) = Inr i \<and> length i < 100 + 2 * length n"
  "\<exists>r. marshal msg_codec (hs_response k s v) = Inr r \<and> length r < 100 + 2 * length k + 2 * length s"
  by (simp_all add: msg_codec_def wire_codec_def hs_init_def hs_response_def payload_only_def
      rep_msg_def enc_pair_def enc_payload_def)

lemma demo_handshake_output:
  assumes "length n < 1000" and "length n' < 1000"
  shows "\<exists>out. handshake_output msg_codec demo_ed (demo_transport x) n n' = Some out"
proof -
  let ?pub = "PeerPrivateKeyToPublic (demo_key x)"
  obtain sig where sig: "CreateSignature demo_ed (n' @ ?pub) (demo_key x) = Inr sig" "length sig = 64"
    by (simp add: CreateSignature_def PrivateKeySize_def demo_ed_def)
  obtain i where i: "marshal msg_codec (hs_init n) = Inr i" "length i < 100 + 2 * length n"
    using marshal_msg_codec_length(1) by blast
  obtain r where r: "marshal msg_codec (hs_response ?pub sig 1) = Inr r"
    "length r < 100 + 2 * length ?pub + 2 * length sig"
    using marshal_msg_codec_length(2) by blast
  show ?thesis
    using sig i r assms
    by (simp add: handshake_output_def demo_transport_def framable_def msgtype_defs)
qed

theorem transport_handshake_witness:
  "\<exists>outa outb sa' sb'.
     DialEarly msg_codec demo_ed (demo_transport 1) [1] (Inr ()) (Inr ((), [])) (Inr (demo_stream\<lparr>rbuf := outb\<rparr>)) =
       (Inr (), [newConn () True [] (PeerPubKeyToID (PeerPrivateKeyToPublic (demo_key 2)))
          (PeerPrivateKeyToPublic (demo_key 2)), CloseStream], Some sa') \<and>
     AcceptConn_handler msg_codec demo_ed (demo_transport 2) 1 [2] () []
         (Inr (demo_stream\<lparr>rbuf := outa @ [ucast TypeReady]\<rparr>)) =
       (None, [newConn () False [] (PeerPubKeyToID (PeerPrivateKeyToPublic (demo_key 1)))
          (PeerPrivateKeyToPublic (demo_key 1)), CloseStream], Some sb') \<and>
     wbuf sa' = outa @ [ucast TypeReady] \<and> wbuf sb' = outb"
proof -
  obtain outa where a: "handshake_output msg_codec demo_ed (demo_transport 1) [1] [2] = Some outa"
    using demo_handshake_output [of "[1]" "[2]"] by auto
  obtain outb where b: "handshake_output msg_codec demo_ed (demo_transport 2) [2] [1] = Some outb"
    using demo_handshake_output [of "[2]" "[1]"] by auto
  show ?thesis
    using transport_handshake [OF msg_codec_documented demo_ed_documented _ _ a b,
        of "demo_stream\<lparr>rbuf := outb\<rparr>" "demo_stream\<lparr>rbuf := outa @ [ucast TypeReady]\<rparr>" "[]" "()" "[]" "()" "[]"]
    by (simp add: demo_stream_def demo_transport_def Let_def) blast
qed

text \<open>
  C20. A connection is announced only for a public key whose owner signed this node's nonce:
  whatever bytes the other end sends, if either side of the transport announces a connection
  then those bytes contain a response with that key and a signature over this node's nonce that
  verifies under it, and the announced identifier is the hash of the key.
\<close>

theorem announced_is_authenticated:
  assumes "opened = Inr s" and
    "ConnChan ev \<in> set (fst (snd (DialEarly M E q n resolved dialed opened))) \<or>
     ConnChan ev \<in> set (fst (snd (AcceptConn_handler M E q v n conn addr opened)))"
  shows "answered M E n (rbuf s) (ev_PeerPubKey ev) \<and> ev_PeerID ev = sha256 (ev_PeerPubKey ev)"
  using assms by (rule ConnChan_authenticated)

theorem announced_is_authenticated_witness:
  "\<exists>out ev. ConnChan ev \<in> set (fst (snd (DialEarly msg_codec demo_ed (demo_transport 1) [1] (Inr ())
       (Inr ((), [])) (Inr (demo_stream\<lparr>rbuf := out\<rparr>))))) \<and>
     answered msg_codec demo_ed [1] out (ev_PeerPubKey ev) \<and>
     ev_PeerPubKey ev = PeerPrivateKeyToPublic (demo_key 2)"
proof -
  obtain outa where a: "handshake_output msg_codec demo_ed (demo_transport 1) [1] [2] = Some outa"
    using demo_handshake_output [of "[1]" "[2]"] by auto
  obtain outb where b: "handshake_output msg_codec demo_ed (demo_transport 2) [2] [1] = Some outb"
    using demo_handshake_output [of "[2]" "[1]"] by auto
  let ?s = "demo_stream\<lparr>rbuf := outb\<rparr>"
  let ?r = "DialEarly msg_codec demo_ed (demo_transport 1) [1] (Inr ()) (Inr ((), [])) (Inr ?s)"
  let ?ev = "\<lparr>ev_Conn = (), ev_IsOut = True, ev_PeerID = PeerPubKeyToID (PeerPrivateKeyToPublic (demo_key 2)),
    ev_PeerPubKey = PeerPrivateKeyToPublic (demo_key 2), ev_Addr = []\<rparr>"
  have ev: "ConnChan ?ev \<in> set (fst (snd ?r))"
    using authenticatePeer_honest [OF msg_codec_documented demo_ed_documented _ a b, of ?s "[]"]
    by (simp add: DialEarly_def sendReadyFrame_def Write_ok Let_def newConn_def demo_stream_def
        demo_transport_def)
  show ?thesis
    by (rule exI [of _ outb], rule exI [of _ ?ev])
      (use ev announced_is_authenticated [OF refl disjI1, OF ev] in simp)
qed

text \<open>
  When a well-formed answer crashes the node: the answer to the nonce panics exactly if
  reading the frame panics, or the frame carries a response whose public key is shorter than 32
  bytes, because the slice is converted to an array before anything else is checked.
\<close>

theorem checkHandshakeResponse_panic_iff:
  assumes "codec_documented M"
  shows "is_panic (fst (checkHandshakeResponse M E n s)) \<longleftrightarrow>
    is_panic (fst (readFrame s)) \<or>
    (\<exists>data m msg. fst (readFrame s) = Inr (TypeHandshake, data) \<and> unmarshal M data = Inr m \<and>
       Payload m = Some (MessageData_HandshakeResponse msg) \<and> length (hr_PubKey msg) < 32)"
proof -
  have no: "\<not> is_panic (unmarshal M b)" for b using assms by (simp add: codec_documented_def)
  obtain r s1 where r: "readFrame s = (r, s1)" by force
  show ?thesis
  proof (cases r)
    case (Inl e)
    with r show ?thesis by (cases e) (auto simp: checkHandshakeResponse_def)
  next
    case (Inr m)
    then obtain t data where m: "r = Inr (t, data)" by (cases m) auto
    from r m no [of data] show ?thesis
      by (auto simp: checkHandshakeResponse_def Let_def to_array_def is_panic_iff
          split: sum.splits option.splits Payload.splits if_splits)
  qed
qed

theorem checkHandshakeResponse_panic_iff_witness:
  "\<exists>r. marshal msg_codec (hs_response [1, 2, 3] [] 1) = Inr r \<and>
     is_panic (fst (checkHandshakeResponse msg_codec demo_ed [7]
       (demo_stream\<lparr>rbuf := frame TypeHandshake r\<rparr>)))"
proof -
  obtain r where r: "marshal msg_codec (hs_response [1, 2, 3] [] 1) = Inr r" "length r < 200"
    using marshal_msg_codec_length(2) [of "[1, 2, 3]" "[]" 1] by auto
  let ?s = "demo_stream\<lparr>rbuf := frame TypeHandshake r\<rparr>"
  have "readFrame ?s = (Inr (TypeHandshake, r), ?s\<lparr>rbuf := []\<rparr>)"
    using r by (intro readFrame_frame) (simp_all add: framable_def msgtype_defs)
  with r codec_roundtrip [OF msg_codec_documented r(1)] show ?thesis
    using checkHandshakeResponse_panic_iff [OF msg_codec_documented, of demo_ed "[7]" ?s] by auto
qed

end
