(* ===== verification/Streams.thy ===== *)
theory Streams
  imports Handshake
begin

text \<open>
  \<^verbatim>\<open>internal/network/stream.go\<close> and the \<^verbatim>\<open>PeerWrapper\<close> of \<^verbatim>\<open>internal/network/quic.go\<close>: a
  bidirectional stream with its read loop, its write loop and the once-only \<^verbatim>\<open>Close\<close>, as a
  step relation; the registration of streams with the connection; the sending and receiving of
  one gossip frame per unidirectional stream.
\<close>

section \<open>The state of a stream\<close>

record StreamMessage =
  sm_Type :: MessageType
  sm_Payload :: bytes

definition msg_of :: "MessageType \<times> bytes \<Rightarrow> StreamMessage" where
  "msg_of m = \<lparr>sm_Type = fst m, sm_Payload = snd m\<rparr>"

text \<open>Where the read loop is: in \<^verbatim>\<open>readFrame\<close>, in the \<^verbatim>\<open>select\<close> with a message, or gone.\<close>

datatype reader = Reading | Holding StreamMessage | ReaderDone

text \<open>
  \<^verbatim>\<open>StreamID\<close> is the key under which the connection holds the stream, \<^verbatim>\<open>RemoteID\<close> is read by
  nobody. The fields after \<open>once_done\<close> are not in the struct: how often \<^verbatim>\<open>onClose\<close> ran, whether the
  connection's map holds the stream and whether \<^verbatim>\<open>wrapAndRegister\<close> still has to put it there,
  and the history: what the consumer took from \<^verbatim>\<open>Incoming\<close>, what \<^verbatim>\<open>Send\<close> put into
  \<^verbatim>\<open>Outgoing\<close>, and what the write loop took from it.
\<close>

record Stream =
  stream_qs :: qstream
  Incoming :: "StreamMessage list"
  Outgoing :: "StreamMessage list"
  ctx_done :: bool
  reader :: reader
  writer :: bool
  once_done :: bool
  onClose_calls :: nat
  reg_pending :: bool
  registered :: bool
  received :: "StreamMessage list"
  sent :: "StreamMessage list"
  written :: "StreamMessage list"
  stream_crash :: "panic option"

definition stream_capacity :: nat where "stream_capacity = 100"

definition ReadCh :: "Stream \<Rightarrow> StreamMessage list" where
  "ReadCh s = Incoming s"

definition NewStream :: "qstream \<Rightarrow> Stream" where
  "NewStream q =
     \<lparr>stream_qs = q, Incoming = [], Outgoing = [], ctx_done = False, reader = Reading, writer = True,
      once_done = False, onClose_calls = 0, reg_pending = True, registered = False,
      received = [], sent = [], written = [], stream_crash = None\<rparr>"

text \<open>\<^verbatim>\<open>CancelRead\<close> discards what was not read; after \<^verbatim>\<open>Close\<close> every write fails.\<close>

definition close_qstream :: "qstream \<Rightarrow> qstream" where
  "close_qstream q =
     q\<lparr>rbuf := [], rend := ErrLib ''read on canceled stream'',
       wlimit := Some (0, ErrLib ''write on closed stream'')\<rparr>"

text \<open>\<^verbatim>\<open>onClose\<close> is the \<^verbatim>\<open>cleanup\<close> of \<^verbatim>\<open>wrapAndRegister\<close>: it deletes the stream from the map.\<close>

definition Stream_Close :: "Stream \<Rightarrow> Stream" where
  "Stream_Close s =
     (if once_done s then s
      else s\<lparr>once_done := True, ctx_done := True, stream_qs := close_qstream (stream_qs s),
             onClose_calls := Suc (onClose_calls s), registered := False\<rparr>)"

section \<open>Its goroutines\<close>

datatype stream_event =
    ReadFrame | Deliver | ReadCancelled | Consume | SendMsg StreamMessage | WriteFrame | WriteCancelled
  | CallClose | ParentCancel | Register

text \<open>
  A \<^verbatim>\<open>select\<close> with two ready cases takes either: both steps are enabled. \<^verbatim>\<open>SendMsg\<close> is not
  enabled while the channel is full: the caller blocks. The error of \<^verbatim>\<open>writeFrame\<close> is dropped.
\<close>

inductive stream_step :: "Stream \<Rightarrow> stream_event \<Rightarrow> Stream \<Rightarrow> bool" where
  read_msg: "stream_crash s = None \<Longrightarrow> reader s = Reading \<Longrightarrow> readFrame (stream_qs s) = (Inr m, q') \<Longrightarrow>
    stream_step s ReadFrame (s\<lparr>stream_qs := q', reader := Holding (msg_of m)\<rparr>)"
| read_err: "stream_crash s = None \<Longrightarrow> reader s = Reading \<Longrightarrow> readFrame (stream_qs s) = (Inl (Err e), q') \<Longrightarrow>
    stream_step s ReadFrame (Stream_Close (s\<lparr>stream_qs := q', reader := ReaderDone\<rparr>))"
| read_panic: "stream_crash s = None \<Longrightarrow> reader s = Reading \<Longrightarrow> readFrame (stream_qs s) = (Inl (Panic p), q') \<Longrightarrow>
    stream_step s ReadFrame (Stream_Close (s\<lparr>stream_qs := q', reader := ReaderDone, stream_crash := Some p\<rparr>))"
| deliver: "stream_crash s = None \<Longrightarrow> reader s = Holding m \<Longrightarrow> length (Incoming s) < stream_capacity \<Longrightarrow>
    stream_step s Deliver (s\<lparr>Incoming := Incoming s @ [m], reader := Reading\<rparr>)"
| read_cancelled: "stream_crash s = None \<Longrightarrow> reader s = Holding m \<Longrightarrow> ctx_done s \<Longrightarrow>
    stream_step s ReadCancelled (Stream_Close (s\<lparr>reader := ReaderDone\<rparr>))"
| consume: "stream_crash s = None \<Longrightarrow> Incoming s = m # ms \<Longrightarrow>
    stream_step s Consume (s\<lparr>Incoming := ms, received := received s @ [m]\<rparr>)"
| send: "stream_crash s = None \<Longrightarrow> length (Outgoing s) < stream_capacity \<Longrightarrow>
    stream_step s (SendMsg m) (s\<lparr>Outgoing := Outgoing s @ [m], sent := sent s @ [m]\<rparr>)"
| write_msg: "stream_crash s = None \<Longrightarrow> writer s \<Longrightarrow> Outgoing s = m # ms \<Longrightarrow>
    writeFrame (sm_Type m) (sm_Payload m) (stream_qs s) = (r, q') \<Longrightarrow>
    stream_step s WriteFrame (s\<lparr>stream_qs := q', Outgoing := ms, written := written s @ [m]\<rparr>)"
| write_cancelled: "stream_crash s = None \<Longrightarrow> writer s \<Longrightarrow> ctx_done s \<Longrightarrow>
    stream_step s WriteCancelled (Stream_Close (s\<lparr>writer := False\<rparr>))"
| call_close: "stream_crash s = None \<Longrightarrow> stream_step s CallClose (Stream_Close s)"
| parent_cancel: "stream_crash s = None \<Longrightarrow> stream_step s ParentCancel (s\<lparr>ctx_done := True\<rparr>)"
| register: "stream_crash s = None \<Longrightarrow> reg_pending s \<Longrightarrow>
    stream_step s Register (s\<lparr>registered := True, reg_pending := False\<rparr>)"

inductive_cases stream_stepE: "stream_step s e s'"

inductive stream_run :: "Stream \<Rightarrow> stream_event list \<Rightarrow> Stream \<Rightarrow> bool" for s where
  srun_nil: "stream_run s [] s"
| srun_snoc: "stream_run s es s' \<Longrightarrow> stream_step s' e s'' \<Longrightarrow> stream_run s (es @ [e]) s''"

section \<open>Invariants\<close>

text \<open>
  What the reader has read and not passed on; what is still to be read; what was written.
\<close>

fun held :: "reader \<Rightarrow> StreamMessage list" where
  "held (Holding m) = [m]"
| "held _ = []"

definition unread :: "Stream \<Rightarrow> StreamMessage list" where
  "unread s = (if once_done s \<or> reader s = ReaderDone then [] else map msg_of (fst (readLoop (stream_qs s))))"

definition wire_frames :: "StreamMessage list \<Rightarrow> bytes" where
  "wire_frames ms = frames (map (\<lambda>m. (sm_Type m, sm_Payload m)) ms)"

definition inbound_ok :: "qstream \<Rightarrow> Stream \<Rightarrow> bool" where
  "inbound_ok q s \<longleftrightarrow>
     prefix (received s @ Incoming s @ held (reader s) @ unread s) (map msg_of (fst (readLoop q))) \<and>
     (\<not> once_done s \<and> reader s \<noteq> ReaderDone \<longrightarrow>
       received s @ Incoming s @ held (reader s) @ unread s = map msg_of (fst (readLoop q)))"

definition outbound_ok :: "qstream \<Rightarrow> Stream \<Rightarrow> bool" where
  "outbound_ok q s \<longleftrightarrow> sent s = written s @ Outgoing s \<and>
     (\<exists>k \<le> length (written s). wbuf (stream_qs s) = wbuf q @ wire_frames (take k (written s)) \<and>
        (\<not> once_done s \<longrightarrow> k = length (written s))) \<and>
     wlimit (stream_qs s) = (if once_done s then Some (0, ErrLib ''write on closed stream'') else None)"

definition channels_ok :: "Stream \<Rightarrow> bool" where
  "channels_ok s \<longleftrightarrow> length (Incoming s) \<le> stream_capacity \<and> length (Outgoing s) \<le> stream_capacity \<and>
     onClose_calls s = (if once_done s then 1 else 0)"

lemma readLoop_step:
  "readFrame q = (Inr m, q') \<Longrightarrow> fst (readLoop q) = m # fst (readLoop q')"
  "readFrame q = (Inl e, q') \<Longrightarrow> fst (readLoop q) = []"
  by (subst readLoop.simps; simp split: prod.split)+

lemma wire_frames_snoc: "wire_frames (ms @ [m]) = wire_frames ms @ frame (sm_Type m) (sm_Payload m)"
  by (simp add: wire_frames_def frames_def)

lemma step_channels: "stream_step s e s' \<Longrightarrow> channels_ok s \<Longrightarrow> channels_ok s'"
  by (erule stream_stepE) (auto simp: channels_ok_def Stream_Close_def)

lemma Close_simps [simp]:
  "once_done (Stream_Close s)" "reader (Stream_Close s) = reader s" "received (Stream_Close s) = received s"
  "Incoming (Stream_Close s) = Incoming s" "Outgoing (Stream_Close s) = Outgoing s"
  "sent (Stream_Close s) = sent s" "written (Stream_Close s) = written s"
  "wbuf (stream_qs (Stream_Close s)) = wbuf (stream_qs s)"
  "reg_pending (Stream_Close s) = reg_pending s" "stream_crash (Stream_Close s) = stream_crash s"
  by (simp_all add: Stream_Close_def close_qstream_def)

lemma unread_closed [simp]: "unread (Stream_Close s) = []"
  by (simp add: unread_def)

lemma Write_wbuf: "wlimit q = Some (0, e) \<Longrightarrow> Write b q = (r, q') \<Longrightarrow> wbuf q' = wbuf q \<and> wlimit q' = wlimit q"
  by (auto simp: Write_def split: if_splits)

lemma write_inbound:
  assumes "writeFrame t d (stream_qs s) = (r, q')"
  shows "rbuf q' = rbuf (stream_qs s) \<and> rend q' = rend (stream_qs s)"
  using assms by (auto simp: writeFrame_eq dest: Write_frame)

lemma readFrame_cong:
  assumes "rbuf q = rbuf p" and "rend q = rend p"
  shows "fst (readFrame q) = fst (readFrame p) \<and> rbuf (snd (readFrame q)) = rbuf (snd (readFrame p)) \<and>
    rend (snd (readFrame q)) = rend (snd (readFrame p))"
  using assms
  by (simp add: readFrame_def readLengthPrefix_def ReadFull_def split: sum.split prod.split list.split)

lemma readLoop_cong: "rbuf q = rbuf p \<Longrightarrow> rend q = rend p \<Longrightarrow> readLoop q = readLoop p"
proof (induction q arbitrary: p rule: readLoop.induct)
  case (1 q)
  obtain r q1 where q: "readFrame q = (r, q1)" by force
  obtain p1 where p: "readFrame p = (r, p1)" "rbuf q1 = rbuf p1" "rend q1 = rend p1"
    using readFrame_cong [OF 1(2,3)] q by (cases "readFrame p") auto
  show ?case
  proof (cases r)
    case (Inl e)
    with q p show ?thesis by (simp add: readLoop.simps)
  next
    case (Inr m)
    have "readLoop q1 = readLoop p1" using 1(1) q Inr p by auto
    with q p Inr show ?thesis by (subst (1 2) readLoop.simps) simp
  qed
qed

lemma prefix_drop_middle: "prefix (xs @ ys) zs \<Longrightarrow> prefix xs zs"
  by (rule append_prefixD)

lemma step_inbound:
  assumes "stream_step s e s'" and inv: "inbound_ok q s"
    and closed: "once_done s \<longrightarrow> rbuf (stream_qs s) = []"
  shows "inbound_ok q s'"
proof -
  have drop: "prefix (received s @ Incoming s @ held (reader s)) (map msg_of (fst (readLoop q)))"
    "prefix (received s @ Incoming s) (map msg_of (fst (readLoop q)))"
    using inv unfolding inbound_ok_def by (auto dest: prefix_drop_middle simp flip: append_assoc)
  from assms(1) show ?thesis
  proof (cases rule: stream_step.cases)
    case (read_msg m q')
    have "once_done s \<Longrightarrow> False"
      using read_msg closed by (auto dest: readFrame_shrinks)
    then have "unread s = msg_of m # unread s'"
      using read_msg by (auto simp: unread_def readLoop_step)
    with read_msg inv show ?thesis by (auto simp: inbound_ok_def)
  next
    case (write_msg m ms r q')
    then have "unread s' = unread s"
      using readLoop_cong [of q' "stream_qs s"] write_inbound [OF write_msg(6)] by (simp add: unread_def)
    with write_msg inv show ?thesis by (simp add: inbound_ok_def)
  next
    case (read_err e q')
    with drop show ?thesis by (simp add: inbound_ok_def)
  next
    case (read_panic p q')
    with drop show ?thesis by (simp add: inbound_ok_def)
  next
    case (deliver m)
    then have "unread s' = unread s" by (simp add: unread_def)
    with deliver inv show ?thesis by (simp add: inbound_ok_def)
  next
    case (read_cancelled m)
    with drop show ?thesis by (simp add: inbound_ok_def)
  next
    case (consume m ms)
    then have "unread s' = unread s" by (simp add: unread_def)
    with consume inv show ?thesis by (simp add: inbound_ok_def)
  next
    case write_cancelled
    with drop show ?thesis by (simp add: inbound_ok_def)
  next
    case call_close
    with drop show ?thesis by (simp add: inbound_ok_def)
  qed (use inv in \<open>auto simp: inbound_ok_def unread_def split: if_splits\<close>)
qed

lemma readFrame_empty: "readFrame q = (r, q') \<Longrightarrow> rbuf q = [] \<Longrightarrow> rbuf q' = []"
  by (auto simp: readFrame_def readLengthPrefix_def ReadFull_def)

lemma step_closed:
  assumes "stream_step s e s'" and "once_done s \<longrightarrow> rbuf (stream_qs s) = []"
  shows "once_done s' \<longrightarrow> rbuf (stream_qs s') = []"
  using assms
proof (cases rule: stream_step.cases)
  case (read_msg m q')
  with assms(2) readFrame_empty [OF read_msg(5)] show ?thesis by simp
next
  case (write_msg m ms r q')
  with assms(2) write_inbound [OF write_msg(6)] show ?thesis by simp
next
  case (read_err e q')
  with assms(2) readFrame_empty [OF read_err(5)] show ?thesis by (simp add: Stream_Close_def close_qstream_def)
next
  case (read_panic e q')
  with assms(2) readFrame_empty [OF read_panic(5)] show ?thesis by (simp add: Stream_Close_def close_qstream_def)
qed (use assms(2) in \<open>simp_all add: Stream_Close_def close_qstream_def\<close>)

lemma step_outbound:
  assumes "stream_step s e s'" and inv: "outbound_ok q s"
  shows "outbound_ok q s'"
proof -
  obtain k where k: "k \<le> length (written s)" "wbuf (stream_qs s) = wbuf q @ wire_frames (take k (written s))"
    "\<not> once_done s \<longrightarrow> k = length (written s)"
    using inv by (auto simp: outbound_ok_def)
  have wl: "wlimit (stream_qs s) = (if once_done s then Some (0, ErrLib ''write on closed stream'') else None)"
    and sent: "sent s = written s @ Outgoing s"
    using inv by (auto simp: outbound_ok_def)
  from assms(1) show ?thesis
  proof (cases rule: stream_step.cases)
    case (write_msg m ms r q')
    then have w: "Write (frame (sm_Type m) (sm_Payload m)) (stream_qs s) = (r, q')"
      by (simp add: writeFrame_eq)
    show ?thesis
    proof (cases "once_done s")
      case True
      with Write_wbuf [OF _ w] wl have "wbuf q' = wbuf (stream_qs s)" "wlimit q' = wlimit (stream_qs s)" by auto
      with True write_msg k wl sent show ?thesis
        by (auto simp: outbound_ok_def intro!: exI [of _ k])
    next
      case False
      with w wl have "q' = (stream_qs s)\<lparr>wbuf := wbuf (stream_qs s) @ frame (sm_Type m) (sm_Payload m)\<rparr>"
        by (simp add: Write_ok)
      with False write_msg k wl sent show ?thesis
        by (auto simp: outbound_ok_def wire_frames_snoc)
    qed
  next
    case (read_msg m q')
    with k wl sent readFrame_rest [OF read_msg(5)] show ?thesis by (auto simp: outbound_ok_def)
  next
    case (read_err e q')
    with k wl sent readFrame_rest [OF read_err(5)] show ?thesis
      by (auto simp: outbound_ok_def Stream_Close_def close_qstream_def)
  next
    case (read_panic e q')
    with k wl sent readFrame_rest [OF read_panic(5)] show ?thesis
      by (auto simp: outbound_ok_def Stream_Close_def close_qstream_def)
  qed (use k wl sent in \<open>auto simp: outbound_ok_def Stream_Close_def close_qstream_def\<close>)
qed

lemma NewStream_ok:
  "wlimit q = None \<Longrightarrow> inbound_ok q (NewStream q) \<and> outbound_ok q (NewStream q) \<and> channels_ok (NewStream q)"
  by (simp add: inbound_ok_def outbound_ok_def channels_ok_def NewStream_def unread_def wire_frames_def
      frames_def)

lemma stream_run_invariant:
  "stream_run s0 es s \<Longrightarrow> s0 = NewStream q \<Longrightarrow> wlimit q = None \<Longrightarrow>
    inbound_ok q s \<and> outbound_ok q s \<and> channels_ok s \<and> (once_done s \<longrightarrow> rbuf (stream_qs s) = [])"
proof (induction rule: stream_run.induct)
  case srun_nil
  then show ?case using NewStream_ok by (auto simp: NewStream_def)
next
  case (srun_snoc es s' e s'')
  then show ?case using step_inbound step_outbound step_channels step_closed by blast
qed

section \<open>The connection\<close>

text \<open>
  \<^verbatim>\<open>PeerWrapper\<close>: of the fields, the connection, the identifier that is passed to \<^verbatim>\<open>onData\<close>,
  the map of streams, and whether each of the two callbacks is set; what the callbacks do is
  \<open>OnData_handler\<close> and \<open>OnNewStream_handler\<close>. \<open>pw_loops\<close> counts how often its loops were started.
\<close>

record 'c PeerWrapper =
  pw_conn :: 'c
  pw_peerID :: PeerID
  streams :: "nat \<rightharpoonup> Stream"
  pw_closed :: bool
  pw_onData :: bool
  pw_onNewStream :: bool
  pw_loops :: nat

text \<open>The struct literal does not set \<^verbatim>\<open>peerID\<close>.\<close>

definition NewPeerWrapper :: "'c \<Rightarrow> 'c PeerWrapper" where
  "NewPeerWrapper conn = \<lparr>pw_conn = conn, pw_peerID = zero32, streams = Map.empty, pw_closed = False,
     pw_onData = False, pw_onNewStream = False, pw_loops = 0\<rparr>"

definition OnData :: "'c PeerWrapper \<Rightarrow> 'c PeerWrapper" where
  "OnData p = p\<lparr>pw_onData := True\<rparr>"

definition OnNewStream :: "'c PeerWrapper \<Rightarrow> 'c PeerWrapper" where
  "OnNewStream p = p\<lparr>pw_onNewStream := True\<rparr>"

definition GetConn :: "'c PeerWrapper \<Rightarrow> 'c" where
  "GetConn p = pw_conn p"

text \<open>\<open>remoteAddr\<close> is \<^verbatim>\<open>RemoteAddr().String()\<close> of a connection.\<close>

definition PeerWrapper_RemoteAddr :: "('c \<Rightarrow> bytes) \<Rightarrow> 'c PeerWrapper \<Rightarrow> bytes" where
  "PeerWrapper_RemoteAddr remoteAddr p = remoteAddr (pw_conn p)"

text \<open>The goroutines of \<open>AcceptUniLoop\<close>, \<open>AcceptDatagramLoop\<close> and \<open>AcceptStreamLoop\<close>.\<close>

definition StartLoops :: "'c PeerWrapper \<Rightarrow> 'c PeerWrapper" where
  "StartLoops p = p\<lparr>pw_loops := Suc (pw_loops p)\<rparr>"

definition PeerWrapper_Close :: "'c PeerWrapper \<Rightarrow> 'c PeerWrapper" where
  "PeerWrapper_Close p = p\<lparr>pw_closed := True\<rparr>"

definition wrapAndRegister :: "nat \<Rightarrow> qstream \<Rightarrow> 'c PeerWrapper \<Rightarrow> 'c PeerWrapper" where
  "wrapAndRegister i q p = p\<lparr>streams := (streams p)(i \<mapsto> NewStream q)\<rparr>"

definition removeStream :: "nat \<Rightarrow> 'c PeerWrapper \<Rightarrow> 'c PeerWrapper" where
  "removeStream i p = p\<lparr>streams := (streams p)(i := None)\<rparr>"

text \<open>
  \<open>opened\<close> is the outcome of \<^verbatim>\<open>OpenUniStreamSync\<close>, \<open>closed\<close> that of closing the stream.
\<close>

definition SendGossipMessage ::
  "MessageType \<Rightarrow> bytes \<Rightarrow> qstream result \<Rightarrow> unit result \<Rightarrow> unit result \<times> qstream option" where
  "SendGossipMessage msgType data opened closed =
     (case opened of
        Inl e \<Rightarrow> (Inl e, None)
      | Inr q \<Rightarrow>
        (case writeFrame msgType data q of
           (Inl e, q') \<Rightarrow> (Inl e, Some q')
         | (Inr _, q') \<Rightarrow> (closed, Some q')))"

definition SendGossipDatagram :: "bytes \<Rightarrow> (bytes \<Rightarrow> unit result) \<Rightarrow> unit result" where
  "SendGossipDatagram data sendDatagram =
     (if 1200 < length data then Inl (Err (ErrNew ''message too big for datagram'')) else sendDatagram data)"

text \<open>What \<^verbatim>\<open>handleGossipStream\<close> passes to \<^verbatim>\<open>onData\<close>, if it gets that far.\<close>

definition handleGossipStream ::
  "'c PeerWrapper \<Rightarrow> qstream \<Rightarrow> panic option \<times> (MessageType \<times> bytes \<times> PeerID) option" where
  "handleGossipStream p q =
     (case readFrame q of
        (Inl e, _) \<Rightarrow> (exn_panic e, None)
      | (Inr (msgType, msg), _) \<Rightarrow>
          (None, if pw_onData p then Some (msgType, msg, pw_peerID p) else None))"

lemma peerID_never_set [simp]:
  "pw_peerID (NewPeerWrapper c) = zero32" "pw_peerID (wrapAndRegister i q p) = pw_peerID p"
  "pw_peerID (removeStream i p) = pw_peerID p" "pw_peerID (PeerWrapper_Close p) = pw_peerID p"
  "pw_peerID (OnData p) = pw_peerID p" "pw_peerID (OnNewStream p) = pw_peerID p" "pw_peerID (StartLoops p) = pw_peerID p"
  by (simp_all add: NewPeerWrapper_def wrapAndRegister_def removeStream_def PeerWrapper_Close_def
      OnData_def OnNewStream_def StartLoops_def)

lemma callbacks_set [simp]:
  "pw_onData (OnData p)" "pw_onData (OnNewStream p) = pw_onData p" "pw_onNewStream (OnNewStream p)"
  "pw_onNewStream (OnData p) = pw_onNewStream p" "pw_conn (OnData p) = pw_conn p" "pw_conn (OnNewStream p) = pw_conn p"
  "pw_conn (NewPeerWrapper c) = c"
  by (simp_all add: OnData_def OnNewStream_def NewPeerWrapper_def)

lemma handleGossipStream_frame:
  "rbuf q = frame t data @ rest \<Longrightarrow> framable (t, data) \<Longrightarrow> pw_onData p \<Longrightarrow>
    handleGossipStream p q = (None, Some (t, data, pw_peerID p))"
  by (simp add: handleGossipStream_def readFrame_frame)

lemma SendGossipMessage_ok:
  "wlimit q = None \<Longrightarrow> SendGossipMessage t data (Inr q) (Inr ()) =
    (Inr (), Some (q\<lparr>wbuf := wbuf q @ frame t data\<rparr>))"
  by (simp add: SendGossipMessage_def writeFrame_ok)

section \<open>Properties\<close>

text \<open>
  C12. A stream delivers in order and closes once: in every interleaving of its read loop, its
  write loop, its user and the cancellation of its context, what the user has received and what
  waits in \<^verbatim>\<open>Incoming\<close> is a prefix of the messages on the stream, in order, without loss or
  duplication; what has been written is the frames of a prefix of the messages sent; neither
  channel exceeds its capacity; and \<^verbatim>\<open>onClose\<close> runs at most once, however many of the loops
  and callers close the stream.
\<close>

theorem stream_in_order:
  assumes "stream_run (NewStream q) es s" and "wlimit q = None"
  shows "prefix (received s @ Incoming s) (map msg_of (fst (readLoop q))) \<and>
    (\<exists>k \<le> length (sent s). wbuf (stream_qs s) = wbuf q @ wire_frames (take k (sent s))) \<and>
    length (Incoming s) \<le> stream_capacity \<and> length (Outgoing s) \<le> stream_capacity \<and>
    onClose_calls s \<le> 1"
proof -
  have inv: "inbound_ok q s" "outbound_ok q s" "channels_ok s"
    using stream_run_invariant [OF assms(1) refl assms(2)] by auto
  have "prefix (received s @ Incoming s) (map msg_of (fst (readLoop q)))"
    using inv(1) unfolding inbound_ok_def by (auto dest: prefix_drop_middle simp flip: append_assoc)
  moreover obtain k where k: "k \<le> length (written s)" "wbuf (stream_qs s) = wbuf q @ wire_frames (take k (written s))"
    and s: "sent s = written s @ Outgoing s"
    using inv(2) by (auto simp: outbound_ok_def)
  then have "k \<le> length (sent s)" "take k (sent s) = take k (written s)" by auto
  ultimately show ?thesis
    using inv(3) k(2) by (auto simp: channels_ok_def intro!: exI [of _ k])
qed

lemma demo_frame_run:
  "stream_run (NewStream (demo_stream\<lparr>rbuf := frame TypePing [9]\<rparr>)) [ReadFrame, Deliver]
     ((NewStream (demo_stream\<lparr>rbuf := []\<rparr>))\<lparr>Incoming := [msg_of (TypePing, [9])]\<rparr>)"
proof -
  let ?s = "NewStream (demo_stream\<lparr>rbuf := frame TypePing [9]\<rparr>)"
  let ?s1 = "?s\<lparr>stream_qs := demo_stream\<lparr>rbuf := []\<rparr>, reader := Holding (msg_of (TypePing, [9]))\<rparr>"
  let ?s2 = "?s1\<lparr>Incoming := Incoming ?s1 @ [msg_of (TypePing, [9])], reader := Reading\<rparr>"
  have r: "readFrame (stream_qs ?s) = (Inr (TypePing, [9]), demo_stream\<lparr>rbuf := []\<rparr>)"
    using readFrame_frame [of "stream_qs ?s" TypePing "[9]" "[]"]
    by (simp add: NewStream_def framable_def msgtype_defs)
  have 1: "stream_step ?s ReadFrame ?s1"
    by (rule stream_step.read_msg [OF _ _ r]) (simp_all add: NewStream_def)
  have 2: "stream_step ?s1 Deliver ?s2"
    by (rule stream_step.deliver) (simp_all add: NewStream_def stream_capacity_def)
  have "?s2 = (NewStream (demo_stream\<lparr>rbuf := []\<rparr>))\<lparr>Incoming := [msg_of (TypePing, [9])]\<rparr>"
    by (simp add: NewStream_def)
  with srun_snoc [OF srun_snoc [OF srun_nil 1] 2] show ?thesis by simp
qed

theorem stream_in_order_witness:
  "let q = demo_stream\<lparr>rbuf := frame TypePing [9]\<rparr>; m = msg_of (TypePing, [9]);
     s = (NewStream (demo_stream\<lparr>rbuf := []\<rparr>))\<lparr>Incoming := [m]\<rparr>
   in stream_run (NewStream q) [ReadFrame, Deliver] s \<and> prefix [m] (map msg_of (fst (readLoop q)))"
  using stream_in_order [OF demo_frame_run] demo_frame_run
  by (simp add: demo_stream_def NewStream_def Let_def)

text \<open>
  A closed stream can stay registered for ever. \<^verbatim>\<open>wrapAndRegister\<close> starts the loops before
  it puts the stream into the map of the connection. If the other end has already closed, the
  read loop can close the stream and remove it from the map first; then the stream is put there,
  and since \<^verbatim>\<open>onClose\<close> runs only once nothing removes it, whatever happens afterwards.
\<close>

lemma registered_stays:
  "stream_run s es s' \<Longrightarrow> once_done s \<Longrightarrow> registered s \<Longrightarrow> once_done s' \<and> registered s'"
proof (induction rule: stream_run.induct)
  case (srun_snoc es s' e s'')
  from srun_snoc(2) srun_snoc.IH [OF srun_snoc(4,5)] show ?case
    by (auto elim!: stream_stepE simp: Stream_Close_def)
qed simp

theorem closed_stream_stays_registered:
  assumes "rbuf q = []"
  shows "\<exists>s. stream_run (NewStream q) [ReadFrame, Register] s \<and>
    (\<forall>es s'. stream_run s es s' \<longrightarrow> once_done s' \<and> registered s')"
proof -
  let ?s = "NewStream q"
  have "readFrame q = (Inl (Err (rend q)), q)"
    using assms by (simp add: readFrame_def readLengthPrefix_def ReadFull_def)
  then have r: "readFrame (stream_qs ?s) = (Inl (Err (rend q)), q)" by (simp add: NewStream_def)
  let ?s1 = "Stream_Close (?s\<lparr>stream_qs := q, reader := ReaderDone\<rparr>)"
  let ?s2 = "?s1\<lparr>registered := True, reg_pending := False\<rparr>"
  have 1: "stream_step ?s ReadFrame ?s1"
    by (rule stream_step.read_err [OF _ _ r]) (simp_all add: NewStream_def)
  have 2: "stream_step ?s1 Register ?s2"
    by (rule stream_step.register) (simp_all add: NewStream_def)
  have "stream_run ?s [ReadFrame, Register] ?s2"
    using srun_snoc [OF srun_snoc [OF srun_nil 1] 2] by simp
  moreover have "once_done ?s2 \<and> registered ?s2" by simp
  ultimately show ?thesis using registered_stays by blast
qed

theorem closed_stream_stays_registered_witness:
  "\<exists>s s'. stream_run (NewStream demo_stream) [ReadFrame, Register] s \<and> stream_run s [CallClose] s' \<and>
    once_done s' \<and> registered s'"
proof -
  obtain s where s: "stream_run (NewStream demo_stream) [ReadFrame, Register] s"
    "\<forall>es s'. stream_run s es s' \<longrightarrow> once_done s' \<and> registered s'"
    using closed_stream_stays_registered [of demo_stream] by (auto simp: demo_stream_def)
  obtain s1 where "stream_step s1 Register s" using s(1) by (auto elim: stream_run.cases)
  then have "stream_crash s = None" by (auto elim: stream_step.cases)
  then have "stream_run s [CallClose] (Stream_Close s)"
    using srun_snoc [OF srun_nil stream_step.call_close] by fastforce
  with s show ?thesis by blast
qed

end
