(* ===== verification/Sessions.thy ===== *)
theory Sessions
  imports Wire_Instance Framing
begin

text \<open>
  \<^verbatim>\<open>internal/p2p/sessions.go\<close>: the transfer sessions of a node and the streams that belong to
  them; and the handler of a new stream that \<^verbatim>\<open>Swarm.AddPeer\<close> installs
  (\<^verbatim>\<open>internal/p2p/swarm.go\<close>), which is where streams enter a session.

  Sessions are shared by pointer: the map holds addresses of a store. A stream is named by its
  number. \<^verbatim>\<open>LastActive\<close> and \<^verbatim>\<open>StreamsCount\<close>, which nothing reads or sets, are left out.
\<close>

record TransferSession =
  ts_SessionID :: SessionID
  ts_RootHash :: ContentHash
  ts_PeerID :: PeerID
  IsOutgoing :: bool
  ts_Streams :: "nat list"
  NewStreams :: "nat list"
  ts_done :: bool

definition NewStreams_capacity :: nat where "NewStreams_capacity = 10"

record SessionManager =
  sessions :: "SessionID \<rightharpoonup> nat"
  session_store :: "TransferSession list"

definition NewSessionManager :: SessionManager where
  "NewSessionManager = \<lparr>sessions = Map.empty, session_store = []\<rparr>"

definition NewTransferSession :: "SessionID \<Rightarrow> ContentHash \<Rightarrow> PeerID \<Rightarrow> bool \<Rightarrow> TransferSession" where
  "NewTransferSession i root peer outgoing =
     \<lparr>ts_SessionID = i, ts_RootHash = root, ts_PeerID = peer, IsOutgoing = outgoing, ts_Streams = [],
      NewStreams = [], ts_done = False\<rparr>"

text \<open>\<open>i\<close> is what \<^verbatim>\<open>uuid.New()\<close> gives.\<close>

definition CreateNewSession ::
  "SessionID \<Rightarrow> ContentHash \<Rightarrow> PeerID \<Rightarrow> SessionManager \<Rightarrow> SessionID \<times> SessionManager" where
  "CreateNewSession i root peer sm =
     (let transfer = NewTransferSession i root peer True
      in (i, sm\<lparr>sessions := (sessions sm)(i \<mapsto> length (session_store sm)),
             session_store := session_store sm @ [transfer]\<rparr>))"

definition Session_Register :: "SessionID \<Rightarrow> nat \<Rightarrow> SessionManager \<Rightarrow> SessionManager" where
  "Session_Register i a sm = sm\<lparr>sessions := (sessions sm)(i \<mapsto> a)\<rparr>"

definition Session_Get :: "SessionID \<Rightarrow> SessionManager \<Rightarrow> nat option" where
  "Session_Get i sm = sessions sm i"

definition TransferSession_Close :: "TransferSession \<Rightarrow> TransferSession" where
  "TransferSession_Close t = t\<lparr>ts_done := True\<rparr>"

definition addStream :: "nat \<Rightarrow> TransferSession \<Rightarrow> TransferSession" where
  "addStream stream t = t\<lparr>ts_Streams := ts_Streams t @ [stream]\<rparr>"

definition update_session :: "nat \<Rightarrow> (TransferSession \<Rightarrow> TransferSession) \<Rightarrow> SessionManager \<Rightarrow> SessionManager" where
  "update_session a f sm = sm\<lparr>session_store := (session_store sm)[a := f (session_store sm ! a)]\<rparr>"

text \<open>
  The \<^verbatim>\<open>select\<close> of \<^verbatim>\<open>AddStream\<close> after the stream was added: \<open>choice\<close> is the case the scheduler
  takes when it is ready; \<open>None\<close> is a call that is still blocked.
\<close>

datatype select_case = CaseSend | CaseDone

definition AddStream ::
  "SessionID \<Rightarrow> nat \<Rightarrow> select_case \<Rightarrow> SessionManager \<Rightarrow> (bool \<times> SessionManager) option" where
  "AddStream i stream choice sm =
     (case sessions sm i of
        None \<Rightarrow> Some (False, sm)
      | Some a \<Rightarrow>
        (let sm1 = update_session a (addStream stream) sm;
             transfer = session_store sm1 ! a
         in (case choice of
               CaseSend \<Rightarrow>
                 if length (NewStreams transfer) < NewStreams_capacity
                 then Some (True, update_session a (\<lambda>t. t\<lparr>NewStreams := NewStreams t @ [stream]\<rparr>) sm1)
                 else None
             | CaseDone \<Rightarrow> if ts_done transfer then Some (False, sm1) else None)))"

section \<open>The handler of a new stream\<close>

text \<open>
  \<open>first\<close> is what the \<^verbatim>\<open>select\<close> gives: the first message of the stream, or \<open>None\<close> when five
  seconds have passed. The result tells whether the stream is closed when the handler returns;
  the whole is \<open>None\<close> while \<^verbatim>\<open>AddStream\<close> blocks.
\<close>

definition OnNewStream_handler ::
  "uuid_lib \<Rightarrow> ContentMessage codec \<Rightarrow> nat \<Rightarrow> (MessageType \<times> bytes) option \<Rightarrow> select_case \<Rightarrow>
   SessionManager \<Rightarrow> (bool \<times> SessionManager) option" where
  "OnNewStream_handler U C stream first choice sm =
     (case first of
        None \<Rightarrow> Some (True, sm)
      | Some (t, payload) \<Rightarrow>
          if t = TypeStreamInitRequest then
            (case unmarshal C payload of
               Inl _ \<Rightarrow> Some (True, sm)
             | Inr msg \<Rightarrow>
               (case cm_Payload msg of
                  Some (ContentMessage_ChunkReq req) \<Rightarrow>
                    (case uuid_ParseBytes U (cr_SessionId req) of
                       Inl _ \<Rightarrow> Some (False, sm)
                     | Inr sessionID \<Rightarrow>
                       (case AddStream sessionID stream choice sm of
                          None \<Rightarrow> None
                        | Some (False, sm') \<Rightarrow> Some (False, sm')
                        | Some (True, sm') \<Rightarrow> Some (True, sm')))
                | _ \<Rightarrow> Some (False, sm)))
          else Some (True, sm))"

section \<open>Lemmas\<close>

lemma update_session_simps [simp]:
  "sessions (update_session a f sm) = sessions sm"
  "length (session_store (update_session a f sm)) = length (session_store sm)"
  "a < length (session_store sm) \<Longrightarrow> session_store (update_session a f sm) ! a = f (session_store sm ! a)"
  "b \<noteq> a \<Longrightarrow> session_store (update_session a f sm) ! b = session_store sm ! b"
  by (simp_all add: update_session_def)

lemma AddStream_False:
  assumes "AddStream i stream choice sm = Some (False, sm')"
  shows "map NewStreams (session_store sm') = map NewStreams (session_store sm)"
proof (cases "sessions sm i")
  case (Some a)
  with assms have "sm' = update_session a (addStream stream) sm"
    by (cases choice) (auto simp: AddStream_def Let_def split: if_splits)
  then show ?thesis
    by (cases "a < length (session_store sm)") (auto simp: update_session_def addStream_def intro!: nth_equalityI simp: nth_list_update)
qed (use assms in \<open>simp add: AddStream_def\<close>)

lemma uuid_ParseBytes_raw: "uuid_documented U \<Longrightarrow> length b = 16 \<Longrightarrow> is_err (uuid_ParseBytes U b)"
  by (simp add: uuid_documented_def)

lemma handler_result:
  assumes "OnNewStream_handler U C stream first choice sm = Some (c, sm')"
  shows "sm' = sm \<or> (\<exists>i payload msg req. first = Some (TypeStreamInitRequest, payload) \<and>
    unmarshal C payload = Inr msg \<and> cm_Payload msg = Some (ContentMessage_ChunkReq req) \<and>
    uuid_ParseBytes U (cr_SessionId req) = Inr i \<and> AddStream i stream choice sm = Some (c, sm'))"
  using assms unfolding OnNewStream_handler_def
  by (auto split: option.splits prod.splits if_splits sum.splits ContentPayload.splits bool.splits)

section \<open>Properties\<close>

text \<open>
  C31. No stream ever joins a session in a usable state. A session's identifier is sixteen raw
  bytes, but the handler of a new stream parses the identifier in the request as the text of a
  UUID, which sixteen bytes never are: the request is ignored and the stream is left open. And a
  request that carries the text form does queue the stream in the session, but the handler then
  closes it.
\<close>

theorem new_stream_never_usable:
  assumes "uuid_documented U" and "OnNewStream_handler U C stream first choice sm = Some (closed, sm')"
  shows "(\<forall>payload msg req. first = Some (TypeStreamInitRequest, payload) \<and> unmarshal C payload = Inr msg \<and>
      cm_Payload msg = Some (ContentMessage_ChunkReq req) \<and> length (cr_SessionId req) = 16 \<longrightarrow>
      sm' = sm \<and> \<not> closed) \<and>
    (\<not> closed \<longrightarrow> map NewStreams (session_store sm') = map NewStreams (session_store sm))"
proof -
  have "sm' = sm \<and> \<not> closed"
    if p: "first = Some (TypeStreamInitRequest, payload)" "unmarshal C payload = Inr msg"
      "cm_Payload msg = Some (ContentMessage_ChunkReq req)" "length (cr_SessionId req) = 16"
    for payload msg req
  proof -
    obtain e where "uuid_ParseBytes U (cr_SessionId req) = Inl e"
      using uuid_ParseBytes_raw [OF assms(1) p(4)] by (auto simp: is_err_iff)
    with p assms(2) show ?thesis by (simp add: OnNewStream_handler_def)
  qed
  moreover have "map NewStreams (session_store sm') = map NewStreams (session_store sm)" if nc: "\<not> closed"
  proof -
    from handler_result [OF assms(2)] consider "sm' = sm" | i where "AddStream i stream choice sm = Some (False, sm')"
      using nc by auto
    then show ?thesis
    proof cases
      case 2
      then show ?thesis by (rule AddStream_False)
    qed simp
  qed
  ultimately show ?thesis by blast
qed

definition demo_uuid :: uuid_lib where
  "demo_uuid =
     \<lparr>uuid_FromBytes = (\<lambda>b. if length b = 16 then Inr b else Inl (Err (ErrLib ''invalid UUID''))),
      uuid_ParseBytes = (\<lambda>b. if length b \<in> {32, 36, 38, 45} then Inr (take 16 b)
        else Inl (Err (ErrLib ''invalid UUID length'')))\<rparr>"

lemma demo_uuid_documented: "uuid_documented demo_uuid"
  by (auto simp: uuid_documented_def demo_uuid_def split: if_splits)

definition demo_sessions :: SessionManager where
  "demo_sessions = snd (CreateNewSession (replicate 16 7) zero32 zero32 NewSessionManager)"

theorem new_stream_never_usable_witness:
  "\<exists>b. marshal cm_codec \<lparr>cm_Payload = Some (ContentMessage_ChunkReq
         \<lparr>cr_SessionId = replicate 16 7, ChunkHash = []\<rparr>)\<rparr> = Inr b \<and>
     OnNewStream_handler demo_uuid cm_codec 5 (Some (TypeStreamInitRequest, b)) CaseSend demo_sessions =
       Some (False, demo_sessions)"
proof -
  let ?req = "\<lparr>cr_SessionId = replicate 16 7, ChunkHash = []\<rparr>"
  let ?msg = "\<lparr>cm_Payload = Some (ContentMessage_ChunkReq ?req)\<rparr>"
  obtain b where b: "marshal cm_codec ?msg = Inr b" using codecs_total(7) by blast
  have u: "unmarshal cm_codec b = Inr ?msg" by (rule codec_roundtrip [OF cm_codec_documented b])
  let ?first = "Some (TypeStreamInitRequest, b)"
  obtain r where r: "OnNewStream_handler demo_uuid cm_codec 5 ?first CaseSend demo_sessions = Some r"
    using u by (simp add: OnNewStream_handler_def demo_uuid_def)
  obtain closed sm' where "r = (closed, sm')" by force
  with new_stream_never_usable [OF demo_uuid_documented r [unfolded this]] u
  have "r = (False, demo_sessions)" by simp
  with b r show ?thesis by auto
qed

end
