(* ===== verification/Dispatcher.thy ===== *)
theory Dispatcher
  imports Crypto Wire_Instance "HOL-Library.Multiset"
begin

text \<open>
  \<^verbatim>\<open>internal/dispatcher/dispatcher.go\<close>: the queue of packets that all peers feed, the
  worker goroutines that take packets from it, the check of a packet's signature and the call of
  the handler registered for the type of its payload.

  A handler is a function on the state of the application, which may panic. The operations come
  first, then the goroutines as a step relation over the queue, the workers and the application.
\<close>

section \<open>Handlers and the registry\<close>

type_synonym 'st Handler = "MessageData \<Rightarrow> PeerID \<Rightarrow> 'st \<Rightarrow> panic option \<times> 'st"

text \<open>
  \<^verbatim>\<open>reflect.Type\<close> of a payload: one value per wrapper struct of the oneof.
\<close>

datatype payload_type =
    T_HandshakeInit | T_Ping | T_Ack | T_ChatMessage | T_PeerList | T_Transfer
  | T_HandshakeResponse | T_PeerReq | T_PeerRes

fun type_of_payload :: "Payload \<Rightarrow> payload_type" where
  "type_of_payload (MessageData_HandshakeInit _) = T_HandshakeInit"
| "type_of_payload (MessageData_Ping _) = T_Ping"
| "type_of_payload (MessageData_Ack _) = T_Ack"
| "type_of_payload (MessageData_ChatMessage _) = T_ChatMessage"
| "type_of_payload (MessageData_PeerList _) = T_PeerList"
| "type_of_payload (MessageData_Transfer _) = T_Transfer"
| "type_of_payload (MessageData_HandshakeResponse _) = T_HandshakeResponse"
| "type_of_payload (MessageData_PeerReq _) = T_PeerReq"
| "type_of_payload (MessageData_PeerRes _) = T_PeerRes"

text \<open>\<^verbatim>\<open>reflect.TypeOf\<close> of a payload that is not set is the nil type, \<open>None\<close>.\<close>

definition TypeOf :: "Payload option \<Rightarrow> payload_type option" where
  "TypeOf p = map_option type_of_payload p"

record IngressPacket =
  ip_Envelope :: Envelope
  ip_PeerID :: PeerID

record 'st Dispatcher =
  ingressChan :: "IngressPacket list"
  handlers :: "payload_type option \<rightharpoonup> 'st Handler"
  workersNum :: int
  d_cancelled :: bool

definition ingress_capacity :: nat where "ingress_capacity = 2000"

text \<open>\<open>numCPU\<close> is \<^verbatim>\<open>runtime.NumCPU()\<close>.\<close>

definition NewDispatcher :: "int \<Rightarrow> 'st Dispatcher" where
  "NewDispatcher numCPU =
     (let workerNum = numCPU - 1;
          workerNum = (if workerNum < 0 then 1 else workerNum)
      in \<lparr>ingressChan = [], handlers = Map.empty, workersNum = workerNum, d_cancelled = False\<rparr>)"

definition Registry :: "payload_type option \<Rightarrow> 'st Handler \<Rightarrow> 'st Dispatcher \<Rightarrow> 'st Dispatcher" where
  "Registry t handler d = d\<lparr>handlers := (handlers d)(t \<mapsto> handler)\<rparr>"

text \<open>The second component tells whether the packet was queued or dropped.\<close>

definition PushMessage :: "Envelope \<Rightarrow> PeerID \<Rightarrow> 'st Dispatcher \<Rightarrow> 'st Dispatcher \<times> bool" where
  "PushMessage env peerID d =
     (if length (ingressChan d) < ingress_capacity
      then (d\<lparr>ingressChan := ingressChan d @ [\<lparr>ip_Envelope = env, ip_PeerID = peerID\<rparr>]\<rparr>, True)
      else (d, False))"

definition Stop :: "'st Dispatcher \<Rightarrow> 'st Dispatcher" where
  "Stop d = d\<lparr>d_cancelled := True\<rparr>"

section \<open>Processing a packet\<close>

definition route :: "'st Dispatcher \<Rightarrow> MessageData \<Rightarrow> PeerID \<Rightarrow> 'st \<Rightarrow> panic option \<times> 'st" where
  "route d msg fromPeer st =
     (let payloadType = TypeOf (Payload msg)
      in (case handlers d payloadType of
            Some handler \<Rightarrow> handler msg fromPeer st
          | None \<Rightarrow> (None, st)))"

definition processPacket ::
  "MessageData codec \<Rightarrow> ed25519_lib \<Rightarrow> 'st Dispatcher \<Rightarrow> IngressPacket \<Rightarrow> 'st \<Rightarrow> panic option \<times> 'st" where
  "processPacket M E d packet st =
     (let env = ip_Envelope packet
      in (case to_array 32 (env_PubKey env) of
            Inl e \<Rightarrow> (exn_panic e, st)
          | Inr pubKey \<Rightarrow>
              if length pubKey \<noteq> 32 \<or> \<not> VerifySignature E pubKey (env_Data env) (env_Signature env)
              then (None, st)
              else
                (case unmarshal M (env_Data env) of
                   Inl e \<Rightarrow> (exn_panic e, st)
                 | Inr msgData \<Rightarrow> route d msgData (ip_PeerID packet) st)))"

text \<open>The packets that reach a handler, and with what.\<close>

definition authentic :: "MessageData codec \<Rightarrow> ed25519_lib \<Rightarrow> Envelope \<Rightarrow> MessageData \<Rightarrow> bool" where
  "authentic M E env m \<longleftrightarrow> 32 \<le> length (env_PubKey env) \<and>
     VerifySignature E (take 32 (env_PubKey env)) (env_Data env) (env_Signature env) \<and>
     unmarshal M (env_Data env) = Inr m"

lemma processPacket_authentic:
  "authentic M E (ip_Envelope p) m \<Longrightarrow> processPacket M E d p st = route d m (ip_PeerID p) st"
  by (simp add: processPacket_def authentic_def to_array_def Let_def)

lemma processPacket_short:
  "length (env_PubKey (ip_Envelope p)) < 32 \<Longrightarrow>
    processPacket M E d p st = (Some SliceToArrayLength, st)"
  by (simp add: processPacket_def to_array_def)

lemma processPacket_handlers:
  assumes "handlers d = handlers d'"
  shows "processPacket M E d p st = processPacket M E d' p st"
proof -
  have "route d = route d'" using assms by (intro ext) (simp add: route_def)
  then show ?thesis by (simp add: processPacket_def Let_def cong: sum.case_cong if_cong)
qed

lemma processPacket_ignored:
  assumes "codec_documented M" and "32 \<le> length (env_PubKey (ip_Envelope p))"
    and "\<nexists>m. authentic M E (ip_Envelope p) m"
  shows "processPacket M E d p st = (None, st)"
  using assms(2,3) codec_no_panic(2) [OF assms(1)]
  by (auto simp: processPacket_def authentic_def to_array_def Let_def split: sum.split) (metis exn.exhaust exn_panic.simps(1))

section \<open>The goroutines\<close>

text \<open>
  \<^verbatim>\<open>idle\<close> workers are blocked in the \<^verbatim>\<open>select\<close> of \<^verbatim>\<open>workerLoop\<close>, \<^verbatim>\<open>busy\<close> is what the
  others have taken and not finished; a worker whose packet is finished has returned, as has one
  that saw the context cancelled. \<open>accepted\<close>, \<open>dropped\<close> and \<open>finished\<close> record the history.
  A panic of any goroutine ends the process: nothing happens after it.
\<close>

record 'st dispatch_state =
  disp :: "'st Dispatcher"
  idle :: nat
  returned :: nat
  busy :: "IngressPacket list"
  app :: 'st
  accepted :: "IngressPacket list"
  dropped :: "IngressPacket list"
  finished :: "IngressPacket list"
  crash :: "panic option"

definition dispatch_init :: "'st Dispatcher \<Rightarrow> 'st \<Rightarrow> 'st dispatch_state" where
  "dispatch_init d st =
     \<lparr>disp = d, idle = 0, returned = 0, busy = [], app = st, accepted = [], dropped = [],
      finished = [], crash = None\<rparr>"

text \<open>\<^verbatim>\<open>Start\<close>: one goroutine per iteration of the loop.\<close>

definition Start :: "'st dispatch_state \<Rightarrow> 'st dispatch_state" where
  "Start s = s\<lparr>idle := idle s + nat (workersNum (disp s))\<rparr>"

datatype dispatch_event =
    EvPush Envelope PeerID
  | EvStart
  | EvTake
  | EvFinish IngressPacket
  | EvDone
  | EvStop

inductive dispatch_step ::
  "MessageData codec \<Rightarrow> ed25519_lib \<Rightarrow> 'st dispatch_state \<Rightarrow> dispatch_event \<Rightarrow> 'st dispatch_state \<Rightarrow> bool"
  for M E where
  push: "crash s = None \<Longrightarrow> PushMessage env peerID (disp s) = (d', True) \<Longrightarrow>
    dispatch_step M E s (EvPush env peerID)
      (s\<lparr>disp := d', accepted := accepted s @ [\<lparr>ip_Envelope = env, ip_PeerID = peerID\<rparr>]\<rparr>)"
| push_drop: "crash s = None \<Longrightarrow> PushMessage env peerID (disp s) = (d', False) \<Longrightarrow>
    dispatch_step M E s (EvPush env peerID)
      (s\<lparr>disp := d', dropped := dropped s @ [\<lparr>ip_Envelope = env, ip_PeerID = peerID\<rparr>]\<rparr>)"
| start: "crash s = None \<Longrightarrow> dispatch_step M E s EvStart (Start s)"
| take_packet: "crash s = None \<Longrightarrow> idle s = Suc n \<Longrightarrow> ingressChan (disp s) = p # ps \<Longrightarrow>
    dispatch_step M E s EvTake
      (s\<lparr>disp := (disp s)\<lparr>ingressChan := ps\<rparr>, idle := n, busy := p # busy s\<rparr>)"
| finish: "crash s = None \<Longrightarrow> p \<in> set (busy s) \<Longrightarrow>
    processPacket M E (disp s) p (app s) = (None, st') \<Longrightarrow>
    dispatch_step M E s (EvFinish p)
      (s\<lparr>busy := remove1 p (busy s), app := st', returned := Suc (returned s),
         finished := finished s @ [p]\<rparr>)"
| finish_panic: "crash s = None \<Longrightarrow> p \<in> set (busy s) \<Longrightarrow>
    processPacket M E (disp s) p (app s) = (Some x, st') \<Longrightarrow>
    dispatch_step M E s (EvFinish p)
      (s\<lparr>busy := remove1 p (busy s), app := st', finished := finished s @ [p], crash := Some x\<rparr>)"
| done_ctx: "crash s = None \<Longrightarrow> idle s = Suc n \<Longrightarrow> d_cancelled (disp s) \<Longrightarrow>
    dispatch_step M E s EvDone (s\<lparr>idle := n, returned := Suc (returned s)\<rparr>)"
| stop: "crash s = None \<Longrightarrow> dispatch_step M E s EvStop (s\<lparr>disp := Stop (disp s)\<rparr>)"

inductive_cases dispatch_stepE: "dispatch_step M E s e s'"

inductive dispatch_run ::
  "MessageData codec \<Rightarrow> ed25519_lib \<Rightarrow> 'st dispatch_state \<Rightarrow> dispatch_event list \<Rightarrow> 'st dispatch_state \<Rightarrow> bool"
  for M E s where
  run_nil: "dispatch_run M E s [] s"
| run_snoc: "dispatch_run M E s es s' \<Longrightarrow> dispatch_step M E s' e s'' \<Longrightarrow> dispatch_run M E s (es @ [e]) s''"

inductive_cases dispatch_runE: "dispatch_run M E s es s'"

section \<open>Invariants\<close>

lemma PushMessage_True:
  "PushMessage env i d = (d', True) \<Longrightarrow> length (ingressChan d) < ingress_capacity \<and>
    d' = d\<lparr>ingressChan := ingressChan d @ [\<lparr>ip_Envelope = env, ip_PeerID = i\<rparr>]\<rparr>"
  by (auto simp: PushMessage_def split: if_splits)

lemma PushMessage_False:
  "PushMessage env i d = (d', False) \<Longrightarrow> ingress_capacity \<le> length (ingressChan d) \<and> d' = d"
  by (auto simp: PushMessage_def split: if_splits)

lemmas PushMessage_D = PushMessage_True PushMessage_False

text \<open>The configuration of the dispatcher does not change while it runs.\<close>

lemma run_config:
  "dispatch_run M E s es s' \<Longrightarrow> workersNum (disp s') = workersNum (disp s) \<and> handlers (disp s') = handlers (disp s)"
proof (induction rule: dispatch_run.induct)
  case (run_snoc es s' e s'')
  from run_snoc(2,3) show ?case
    by (auto elim!: dispatch_stepE dest!: PushMessage_D simp: Start_def Stop_def)
qed simp

text \<open>The queue never holds more than its capacity.\<close>

lemma run_queue_bounded:
  "dispatch_run M E s es s' \<Longrightarrow> length (ingressChan (disp s)) \<le> ingress_capacity \<Longrightarrow>
    length (ingressChan (disp s')) \<le> ingress_capacity"
proof (induction rule: dispatch_run.induct)
  case (run_snoc es s' e s'')
  from run_snoc(2,3,4) show ?case
    by (auto elim!: dispatch_stepE dest!: PushMessage_D simp: Start_def Stop_def)
qed simp

text \<open>No packet is lost or made up: what was accepted is queued, in work, or finished.\<close>

definition conserved :: "'st dispatch_state \<Rightarrow> bool" where
  "conserved s \<longleftrightarrow>
     (\<exists>taken. accepted s = taken @ ingressChan (disp s) \<and> mset taken = mset (busy s) + mset (finished s))"

lemma conservedI:
  "accepted s = taken @ ingressChan (disp s) \<Longrightarrow> mset taken = mset (busy s) + mset (finished s) \<Longrightarrow> conserved s"
  by (auto simp: conserved_def)

lemma mset_moved: "p \<in> set b \<Longrightarrow> mset b + mset f = mset (remove1 p b) + mset (f @ [p])"
  by (simp flip: set_mset_mset)

lemma conserved_finish:
  assumes "conserved s" and "p \<in> set (busy s)" and "accepted s' = accepted s"
    and "ingressChan (disp s') = ingressChan (disp s)"
    and "busy s' = remove1 p (busy s)" and "finished s' = finished s @ [p]"
  shows "conserved s'"
  using assms(1) mset_moved [OF assms(2), of "finished s"] unfolding conserved_def assms(3-6) by metis

lemma step_conserved:
  assumes "dispatch_step M E s e s'" and "conserved s"
  shows "conserved s'"
proof -
  obtain taken where t: "accepted s = taken @ ingressChan (disp s)"
    "mset taken = mset (busy s) + mset (finished s)"
    using assms(2) by (auto simp: conserved_def)
  from assms(1) show ?thesis
  proof (cases rule: dispatch_step.cases)
    case (take_packet n p ps)
    with t show ?thesis by (intro conservedI [of _ "taken @ [p]"]) simp_all
  next
    case (finish p st')
    show ?thesis by (rule conserved_finish [OF assms(2) finish(4)]) (simp_all add: finish(2))
  next
    case (finish_panic p x st')
    show ?thesis by (rule conserved_finish [OF assms(2) finish_panic(4)]) (simp_all add: finish_panic(2))
  next
    case (push env i d')
    with t PushMessage_True [of env i "disp s" d'] show ?thesis
      by (intro conservedI [of _ taken]) simp_all
  next
    case (push_drop env i d')
    with t PushMessage_False [of env i "disp s" d'] show ?thesis
      by (intro conservedI [of _ taken]) simp_all
  qed (use t in \<open>simp_all add: conserved_def Start_def Stop_def\<close>)
qed

lemma run_conserved: "dispatch_run M E s es s' \<Longrightarrow> conserved s \<Longrightarrow> conserved s'"
  by (induction rule: dispatch_run.induct) (auto intro: step_conserved)

text \<open>
  Every worker is waiting, at work, or gone: a worker that has taken a packet does not come back
  for another.
\<close>

definition workers :: "'st dispatch_state \<Rightarrow> nat" where
  "workers s = idle s + returned s + length (busy s) + (if crash s = None then 0 else 1)"

lemma remove1_length: "p \<in> set b \<Longrightarrow> length b = Suc (length (remove1 p b))"
  by (simp add: length_remove1, metis Suc_pred length_pos_if_in_set)

lemma step_workers:
  assumes "dispatch_step M E s e s'"
  shows "workers s' = workers s + (if e = EvStart then nat (workersNum (disp s)) else 0) \<and>
    (length (finished s) \<le> returned s + (if crash s = None then 0 else 1) \<longrightarrow>
     length (finished s') \<le> returned s' + (if crash s' = None then 0 else 1))"
  using assms
  by (cases rule: dispatch_step.cases)
    (auto simp: workers_def Start_def Stop_def dest: remove1_length)

lemma run_workers:
  "dispatch_run M E s es s' \<Longrightarrow>
    workers s' = workers s + count_list es EvStart * nat (workersNum (disp s)) \<and>
    (length (finished s) \<le> returned s + (if crash s = None then 0 else 1) \<longrightarrow>
     length (finished s') \<le> returned s' + (if crash s' = None then 0 else 1))"
proof (induction rule: dispatch_run.induct)
  case (run_snoc es s' e s'')
  then show ?case using step_workers [OF run_snoc(2)] run_config [OF run_snoc(1)] by auto
qed simp

text \<open>The application changes only when an authentic packet is finished.\<close>

lemma step_app:
  assumes "dispatch_step M E s e s'" and "codec_documented M"
    and "\<forall>p \<in> set (busy s). \<nexists>m. authentic M E (ip_Envelope p) m"
  shows "app s' = app s"
proof -
  have "snd (processPacket M E (disp s) p (app s)) = app s" if "p \<in> set (busy s)" for p
    using that assms(3) processPacket_short [of p M E "disp s" "app s"]
      processPacket_ignored [OF assms(2), of p E "disp s" "app s"]
    by (cases "length (env_PubKey (ip_Envelope p)) < 32") auto
  with assms(1) show ?thesis
    by (auto elim!: dispatch_stepE simp: Start_def Stop_def) (metis snd_conv)+
qed

text \<open>What is in the queue or at work was pushed.\<close>

lemma run_pushed:
  "dispatch_run M E s es s' \<Longrightarrow> ingressChan (disp s) = [] \<Longrightarrow> busy s = [] \<Longrightarrow>
    p \<in> set (ingressChan (disp s')) \<union> set (busy s') \<Longrightarrow> EvPush (ip_Envelope p) (ip_PeerID p) \<in> set es"
proof (induction arbitrary: p rule: dispatch_run.induct)
  case (run_snoc es s' e s'')
  from run_snoc(2,6) have "p \<in> set (ingressChan (disp s')) \<union> set (busy s') \<or> e = EvPush (ip_Envelope p) (ip_PeerID p)"
    by (cases rule: dispatch_step.cases)
      (auto simp: Start_def Stop_def dest!: PushMessage_D dest: notin_set_remove1)
  with run_snoc.IH [OF run_snoc(4,5)] show ?case by auto
qed simp

lemma run_app:
  "dispatch_run M E s es s' \<Longrightarrow> codec_documented M \<Longrightarrow> ingressChan (disp s) = [] \<Longrightarrow> busy s = [] \<Longrightarrow>
    \<forall>env i m. EvPush env i \<in> set es \<longrightarrow> \<not> authentic M E env m \<Longrightarrow> app s' = app s"
proof (induction rule: dispatch_run.induct)
  case (run_snoc es s' e s'')
  have "\<forall>p \<in> set (busy s'). \<nexists>m. authentic M E (ip_Envelope p) m"
    using run_pushed [OF run_snoc(1,5,6)] run_snoc(7) by fastforce
  from step_app [OF run_snoc(2,4) this] run_snoc show ?case by auto
qed simp

text \<open>Idle workers can drain a queue: one takes and finishes each packet.\<close>

lemma run_append: "dispatch_run M E s' es' s'' \<Longrightarrow> dispatch_run M E s es s' \<Longrightarrow> dispatch_run M E s (es @ es') s''"
proof (induction rule: dispatch_run.induct)
  case (run_snoc es' s1 e s2)
  then show ?case using dispatch_run.run_snoc [of M E s "es @ es'" s1 e s2] by simp
qed simp

lemma take_and_finish:
  assumes "crash s = None" and "idle s = Suc n" and "ingressChan (disp s) = p # ps" and "busy s = []"
    and "processPacket M E (disp s) p (app s) = (None, st')"
  shows "\<exists>s'. dispatch_run M E s [EvTake, EvFinish p] s' \<and> crash s' = None \<and> idle s' = n \<and>
    ingressChan (disp s') = ps \<and> busy s' = [] \<and> handlers (disp s') = handlers (disp s) \<and> app s' = st' \<and>
    finished s' = finished s @ [p]"
proof -
  let ?s1 = "s\<lparr>disp := (disp s)\<lparr>ingressChan := ps\<rparr>, idle := n, busy := p # busy s\<rparr>"
  let ?s2 = "?s1\<lparr>busy := remove1 p (busy ?s1), app := st', returned := Suc (returned ?s1), finished := finished ?s1 @ [p]\<rparr>"
  have 1: "dispatch_step M E s EvTake ?s1" using assms(1-3) by (rule dispatch_step.take_packet)
  have "processPacket M E (disp ?s1) p (app ?s1) = (None, st')"
    using assms(5) processPacket_handlers [of "disp ?s1" "disp s" M E p] by simp
  then have 2: "dispatch_step M E ?s1 (EvFinish p) ?s2"
    using assms(1) by (intro dispatch_step.finish) simp_all
  have "dispatch_run M E s ([] @ [EvTake] @ [EvFinish p]) ?s2"
    using run_snoc [OF run_snoc [OF run_nil 1] 2] by simp
  with assms(1,4) show ?thesis by (intro exI [of _ ?s2]) simp
qed

lemma drain:
  assumes "\<forall>p \<in> set (ingressChan (disp s)). \<forall>st. fst (processPacket M E d p st) = None"
    and "crash s = None" and "busy s = []" and "length (ingressChan (disp s)) \<le> idle s"
    and "handlers (disp s) = handlers d"
  shows "\<exists>es s'. dispatch_run M E s es s' \<and> ingressChan (disp s') = [] \<and> busy s' = [] \<and> crash s' = None \<and>
    finished s' = finished s @ ingressChan (disp s) \<and>
    app s' = foldl (\<lambda>st p. snd (processPacket M E d p st)) (app s) (ingressChan (disp s))"
  using assms
proof (induction "ingressChan (disp s)" arbitrary: s)
  case Nil
  then show ?case using run_nil [of M E s] by (intro exI [of _ "[]"] exI [of _ s]) simp
next
  case (Cons p ps)
  obtain n where n: "idle s = Suc n" using Cons.prems(4) Cons.hyps(2) [symmetric] by (cases "idle s") auto
  have "processPacket M E (disp s) p (app s) = (None, snd (processPacket M E d p (app s)))"
    using Cons.prems(1) Cons.hyps(2) [symmetric] processPacket_handlers [OF Cons.prems(5), of M E p "app s"]
    by (simp add: prod_eq_iff)
  from take_and_finish [OF Cons.prems(2) n Cons.hyps(2) [symmetric] Cons.prems(3) this]
  obtain s' where s': "dispatch_run M E s [EvTake, EvFinish p] s'" "crash s' = None" "idle s' = n"
    "ingressChan (disp s') = ps" "busy s' = []" "handlers (disp s') = handlers (disp s)"
    "app s' = snd (processPacket M E d p (app s))" "finished s' = finished s @ [p]" by blast
  obtain es s'' where "dispatch_run M E s' es s''" "ingressChan (disp s'') = []" "busy s'' = []" "crash s'' = None"
    "finished s'' = finished s' @ ps" "app s'' = foldl (\<lambda>st p. snd (processPacket M E d p st)) (app s') ps"
    using Cons.hyps(1) [of s'] s' Cons.prems n Cons.hyps(2) [symmetric] by auto
  with run_append [OF this(1) s'(1)] s' show ?case
    by (intro exI [of _ "[EvTake, EvFinish p] @ es"] exI [of _ s'']) (simp add: Cons.hyps(2) [symmetric])
qed

section \<open>Services\<close>

text \<open>
  \<^verbatim>\<open>services.Service\<close> (\<^verbatim>\<open>internal/services/service.go\<close>): a handler and the types it
  subscribes to. The contract: a message of a subscribed type from a sender whose identifier has
  the length the service expects (\<open>wf\<close>) does not make the handler panic.
\<close>

locale service =
  fixes Handle :: "'st Handler"
    and GetSubscribedTypes :: "payload_type option list"
    and wf :: "MessageData \<Rightarrow> bool"
  assumes no_panic: "TypeOf (Payload m) \<in> set GetSubscribedTypes \<Longrightarrow> wf m \<Longrightarrow> fst (Handle m i st) = None"

text \<open>The loop of \<^verbatim>\<open>Node.Start\<close> over the subscribed types of one service.\<close>

fun register_types :: "payload_type option list \<Rightarrow> 'st Handler \<Rightarrow> 'st Dispatcher \<Rightarrow> 'st Dispatcher" where
  "register_types [] h d = d"
| "register_types (t # ts) h d = register_types ts h (Registry t h d)"

lemma register_types_handlers:
  "handlers (register_types ts h d) t = (if t \<in> set ts then Some h else handlers d t)"
  by (induction ts h d rule: register_types.induct) (auto simp: Registry_def)

lemma register_types_config [simp]:
  "ingressChan (register_types ts h d) = ingressChan d" "workersNum (register_types ts h d) = workersNum d"
  "d_cancelled (register_types ts h d) = d_cancelled d"
  by (induction ts h d rule: register_types.induct) (auto simp: Registry_def)

context service
begin

text \<open>Registering a service keeps routing free of panics.\<close>

lemma route_no_panic:
  assumes "\<And>m i st. P m \<Longrightarrow> fst (route d m i st) = None" and "P m" and "wf m"
  shows "fst (route (register_types GetSubscribedTypes Handle d) m i st) = None"
  using assms no_panic [of m i st]
  by (cases "TypeOf (Payload m) \<in> set GetSubscribedTypes")
    (auto simp: route_def register_types_handlers Let_def)

end

section \<open>Properties\<close>

text \<open>
  What a packet does, on every branch: a packet whose public key is shorter than 32 bytes
  panics (the conversion to an array comes before the check of its length); a packet whose
  signature does not verify under its public key or whose data does not decode changes nothing;
  any other is handed, with the identifier it was pushed with, to the handler registered for the
  type of its payload, and changes nothing when there is none.
\<close>

theorem processPacket_cases:
  assumes "codec_documented M"
  shows "processPacket M E d \<lparr>ip_Envelope = env, ip_PeerID = i\<rparr> st =
    (if length (env_PubKey env) < 32 then (Some SliceToArrayLength, st)
     else if \<not> VerifySignature E (take 32 (env_PubKey env)) (env_Data env) (env_Signature env) then (None, st)
     else case unmarshal M (env_Data env) of
            Inl e \<Rightarrow> (None, st)
          | Inr m \<Rightarrow>
            (case handlers d (TypeOf (Payload m)) of
               None \<Rightarrow> (None, st)
             | Some handler \<Rightarrow> handler m i st))"
  using processPacket_short [of "\<lparr>ip_Envelope = env, ip_PeerID = i\<rparr>" M E d st]
    processPacket_ignored [OF assms, of "\<lparr>ip_Envelope = env, ip_PeerID = i\<rparr>" E d st]
    processPacket_authentic [of M E "\<lparr>ip_Envelope = env, ip_PeerID = i\<rparr>" _ d st]
  by (auto simp: authentic_def route_def split: sum.split)

definition demo_handler :: "nat Handler" where
  "demo_handler m i n = (None, Suc n)"

definition demo_dispatcher :: "int \<Rightarrow> nat Dispatcher" where
  "demo_dispatcher numCPU = Registry (Some T_Ping) demo_handler (NewDispatcher numCPU)"

definition demo_msg :: MessageData where
  "demo_msg = payload_only (MessageData_Ping \<lparr>ping_Nonce = 5\<rparr>)"

definition demo_env :: Envelope where
  "demo_env = (let data = projr (marshal msg_codec demo_msg) in
     \<lparr>env_Data = data, env_Signature = ed_Sign demo_ed (demo_key 1) data,
      env_PubKey = PeerPrivateKeyToPublic (demo_key 1)\<rparr>)"

lemma demo_env_authentic: "authentic msg_codec demo_ed demo_env demo_msg"
proof -
  obtain b where b: "marshal msg_codec demo_msg = Inr b" using codecs_total(6) by blast
  moreover have "length (demo_key 1) = 64" by simp
  ultimately show ?thesis
    using codec_roundtrip [OF msg_codec_documented b] signature_verifies [OF demo_ed_documented demo_key_keypair, of b 1]
    by (auto simp: authentic_def demo_env_def CreateSignature_def PrivateKeySize_def)
qed

theorem processPacket_cases_witness:
  "processPacket msg_codec demo_ed (demo_dispatcher 4) \<lparr>ip_Envelope = demo_env, ip_PeerID = []\<rparr> 0 = (None, 1)"
proof -
  have "handlers (demo_dispatcher 4) (TypeOf (Payload demo_msg)) = Some demo_handler"
    by (simp add: demo_dispatcher_def Registry_def TypeOf_def demo_msg_def payload_only_def)
  with demo_env_authentic show ?thesis
    using processPacket_cases [OF msg_codec_documented, of demo_ed "demo_dispatcher 4" demo_env "[]" 0]
    by (simp add: authentic_def demo_handler_def)
qed

text \<open>
  C5. The dispatcher stops working after a bounded number of packets. A worker handles one packet
  and returns, because \<^verbatim>\<open>workerLoop\<close> has no loop. So when \<^verbatim>\<open>Start\<close> is called once, as
  \<^verbatim>\<open>Node.Start\<close> does, then in every run, of any length, at most \<^verbatim>\<open>NumCPU - 1\<close> packets are
  ever taken from the queue (none on a machine with one CPU), whatever is pushed; the queue never
  holds more than 2000 packets, and every accepted packet is queued, at work or finished, in the
  order of acceptance for those still queued.
\<close>

theorem dispatcher_exhausts:
  assumes "dispatch_run M E (dispatch_init d st) es s"
    and "ingressChan d = []" and "workersNum d = workersNum (NewDispatcher numCPU)" and "1 \<le> numCPU"
    and "count_list es EvStart \<le> 1"
  shows "length (finished s) + length (busy s) \<le> nat (numCPU - 1) \<and>
    length (ingressChan (disp s)) \<le> ingress_capacity \<and>
    (\<exists>taken. accepted s = taken @ ingressChan (disp s) \<and> mset taken = mset (busy s) + mset (finished s))"
proof -
  define k where "k = count_list es EvStart * nat (numCPU - 1)"
  have "workers s = k \<and>
    length (finished s) \<le> returned s + (if crash s = None then 0 else 1)"
    using run_workers [OF assms(1)] assms(3,4)
    by (simp add: dispatch_init_def workers_def NewDispatcher_def Let_def k_def)
  moreover have "k \<le> nat (numCPU - 1)"
    using mult_le_mono1 [OF assms(5), of "nat (numCPU - 1)"] by (simp add: k_def)
  ultimately have "length (finished s) + length (busy s) \<le> nat (numCPU - 1)"
    by (simp add: workers_def split: if_splits)
  moreover have "length (ingressChan (disp s)) \<le> ingress_capacity"
    using run_queue_bounded [OF assms(1)] assms(2) by (simp add: dispatch_init_def)
  moreover have "conserved s"
    using run_conserved [OF assms(1)] assms(2) by (simp add: dispatch_init_def conserved_def)
  ultimately show ?thesis by (simp add: conserved_def)
qed

text \<open>
  C6. As long as there are idle workers, what was accepted is handled: in every state of a run in
  which nothing is at work, nothing has panicked and there are at least as many idle workers as
  packets in the queue, the run can go on until the queue is empty, every queued packet is
  finished in the order of the queue, and the application is what processing them in this order
  makes of it, provided that none of them makes its handler panic.
\<close>

theorem idle_workers_drain:
  assumes "dispatch_run M E (dispatch_init d st) es s" and "crash s = None" and "busy s = []"
    and "length (ingressChan (disp s)) \<le> idle s"
    and "\<forall>p \<in> set (ingressChan (disp s)). \<forall>st. fst (processPacket M E d p st) = None"
  shows "\<exists>es' s'. dispatch_run M E (dispatch_init d st) (es @ es') s' \<and> ingressChan (disp s') = [] \<and> busy s' = [] \<and>
    crash s' = None \<and> finished s' = finished s @ ingressChan (disp s) \<and>
    app s' = foldl (\<lambda>st p. snd (processPacket M E d p st)) (app s) (ingressChan (disp s))"
proof -
  have "handlers (disp s) = handlers d" using run_config [OF assms(1)] by (simp add: dispatch_init_def)
  from drain [OF assms(5,2,3,4) this] show ?thesis using run_append [OF _ assms(1)] by blast
qed

theorem idle_workers_drain_witness:
  "\<exists>es' s'. dispatch_run msg_codec demo_ed (dispatch_init (demo_dispatcher 4) 0) ([EvStart, EvPush demo_env []] @ es') s' \<and>
    finished s' = [\<lparr>ip_Envelope = demo_env, ip_PeerID = []\<rparr>] \<and> app s' = 1"
proof -
  let ?p = "\<lparr>ip_Envelope = demo_env, ip_PeerID = []\<rparr>" and ?s0 = "dispatch_init (demo_dispatcher 4) 0"
  let ?s1 = "Start ?s0"
  let ?s2 = "?s1\<lparr>disp := (demo_dispatcher 4)\<lparr>ingressChan := [?p]\<rparr>, accepted := accepted ?s1 @ [?p]\<rparr>"
  have "dispatch_step msg_codec demo_ed ?s0 EvStart ?s1" by (rule dispatch_step.start) (simp add: dispatch_init_def)
  moreover have "dispatch_step msg_codec demo_ed ?s1 (EvPush demo_env []) ?s2"
    by (intro dispatch_step.push) (simp_all add: Start_def dispatch_init_def PushMessage_def ingress_capacity_def
        demo_dispatcher_def Registry_def NewDispatcher_def Let_def)
  ultimately have run: "dispatch_run msg_codec demo_ed ?s0 [EvStart, EvPush demo_env []] ?s2"
    using run_snoc [OF run_snoc [OF run_nil]] by fastforce
  have p: "processPacket msg_codec demo_ed (demo_dispatcher 4) ?p n = (None, Suc n)" for n
    using demo_env_authentic processPacket_authentic [where d = "demo_dispatcher 4" and st = n and p = ?p and m = demo_msg]
    by (simp add: route_def demo_dispatcher_def Registry_def TypeOf_def demo_msg_def payload_only_def demo_handler_def)
  from idle_workers_drain [OF run] show ?thesis
    by (simp add: Start_def dispatch_init_def demo_dispatcher_def Registry_def NewDispatcher_def Let_def
        p [unfolded demo_dispatcher_def Registry_def NewDispatcher_def Let_def, simplified]) blast
qed

text \<open>A run of four steps in which a packet is delivered.\<close>

lemma delivery_run:
  assumes "0 < workersNum d" and "ingressChan d = []" and "p = \<lparr>ip_Envelope = env, ip_PeerID = i\<rparr>"
    and "processPacket M E d p st = (None, st')"
  shows "\<exists>s. dispatch_run M E (dispatch_init d st) [EvStart, EvPush env i, EvTake, EvFinish p] s \<and>
    app s = st' \<and> finished s = [p] \<and> crash s = None"
proof -
  let ?s1 = "Start (dispatch_init d st)"
  let ?d' = "d\<lparr>ingressChan := [p]\<rparr>"
  let ?s2 = "?s1\<lparr>disp := ?d', accepted := accepted ?s1 @ [p]\<rparr>"
  let ?s3 = "?s2\<lparr>disp := (disp ?s2)\<lparr>ingressChan := []\<rparr>, idle := nat (workersNum d) - 1, busy := p # busy ?s2\<rparr>"
  let ?s4 = "?s3\<lparr>busy := remove1 p (busy ?s3), app := st', returned := Suc (returned ?s3),
    finished := finished ?s3 @ [p]\<rparr>"
  have 1: "dispatch_step M E (dispatch_init d st) EvStart ?s1"
    by (rule dispatch_step.start) (simp add: dispatch_init_def)
  have 2: "dispatch_step M E ?s1 (EvPush env i) ?s2"
    unfolding assms(3) using assms(2)
    by (intro dispatch_step.push) (simp_all add: Start_def dispatch_init_def PushMessage_def ingress_capacity_def)
  have 3: "dispatch_step M E ?s2 EvTake ?s3"
    using assms(1) by (intro dispatch_step.take_packet) (simp_all add: Start_def dispatch_init_def)
  have "processPacket M E (disp ?s3) p (app ?s3) = (None, st')"
    using assms(4) processPacket_handlers [of "disp ?s3" d M E p st]
    by (simp add: Start_def dispatch_init_def)
  then have 4: "dispatch_step M E ?s3 (EvFinish p) ?s4"
    by (intro dispatch_step.finish) (simp_all add: Start_def dispatch_init_def)
  have "dispatch_run M E (dispatch_init d st) ((([] @ [EvStart]) @ [EvPush env i]) @ [EvTake]) ?s3"
    by (rule run_snoc [OF run_snoc [OF run_snoc [OF run_nil 1] 2] 3])
  from run_snoc [OF this 4] show ?thesis
    by (intro exI [of _ ?s4]) (simp add: Start_def dispatch_init_def)
qed

lemma demo_delivery:
  "\<exists>s. dispatch_run msg_codec demo_ed (dispatch_init (demo_dispatcher 4) 0)
      [EvStart, EvPush demo_env [], EvTake, EvFinish \<lparr>ip_Envelope = demo_env, ip_PeerID = []\<rparr>] s \<and>
    app s = 1 \<and> finished s = [\<lparr>ip_Envelope = demo_env, ip_PeerID = []\<rparr>] \<and> crash s = None"
proof (rule delivery_run)
  show "processPacket msg_codec demo_ed (demo_dispatcher 4) \<lparr>ip_Envelope = demo_env, ip_PeerID = []\<rparr> 0 = (None, 1)"
    using demo_env_authentic processPacket_authentic [where d = "demo_dispatcher 4" and st = 0 and
        p = "\<lparr>ip_Envelope = demo_env, ip_PeerID = []\<rparr>" and m = demo_msg]
    by (simp add: route_def demo_dispatcher_def Registry_def TypeOf_def demo_msg_def payload_only_def demo_handler_def)
qed (simp_all add: demo_dispatcher_def Registry_def NewDispatcher_def)

theorem dispatcher_exhausts_witness:
  "\<exists>s. dispatch_run msg_codec demo_ed (dispatch_init (demo_dispatcher 4) 0)
      [EvStart, EvPush demo_env [], EvTake, EvFinish \<lparr>ip_Envelope = demo_env, ip_PeerID = []\<rparr>] s \<and>
    length (finished s) = 1 \<and> length (finished s) + length (busy s) \<le> 3"
proof -
  obtain s where s: "dispatch_run msg_codec demo_ed (dispatch_init (demo_dispatcher 4) 0)
      [EvStart, EvPush demo_env [], EvTake, EvFinish \<lparr>ip_Envelope = demo_env, ip_PeerID = []\<rparr>] s"
    "length (finished s) = 1"
    using demo_delivery by auto
  have "length (finished s) + length (busy s) \<le> nat (4 - 1)"
    using dispatcher_exhausts [OF s(1), of 4]
    by (simp add: demo_dispatcher_def Registry_def NewDispatcher_def)
  with s show ?thesis by auto
qed

text \<open>
  C21. Nothing unauthenticated reaches the application: in a run in which no pushed envelope
  carries a valid signature over data that decodes, the handlers are never called, in whatever
  order the peers push and the workers run: the state of the application stays as it was.
\<close>

theorem unauthentic_never_handled:
  assumes "dispatch_run M E (dispatch_init d st) es s" and "codec_documented M" and "ingressChan d = []"
    and "\<forall>env i m. EvPush env i \<in> set es \<longrightarrow> \<not> authentic M E env m"
  shows "app s = st"
  using run_app [OF assms(1,2)] assms(3,4) by (simp add: dispatch_init_def)

theorem unauthentic_never_handled_witness:
  "\<exists>s env. dispatch_run msg_codec demo_ed (dispatch_init (demo_dispatcher 4) 0)
      [EvStart, EvPush env [], EvTake, EvFinish \<lparr>ip_Envelope = env, ip_PeerID = []\<rparr>] s \<and>
    length (finished s) = 1 \<and> app s = 0"
proof -
  let ?env = "\<lparr>env_Data = [], env_Signature = [], env_PubKey = replicate 32 0\<rparr>"
  have bad: "\<not> authentic msg_codec demo_ed ?env m" for m
    by (simp add: authentic_def VerifySignature_def SignatureSize_def)
  have "processPacket msg_codec demo_ed (demo_dispatcher 4) \<lparr>ip_Envelope = ?env, ip_PeerID = []\<rparr> 0 = (None, 0)"
    by (rule processPacket_ignored [OF msg_codec_documented]) (simp_all add: bad)
  then obtain s where s: "dispatch_run msg_codec demo_ed (dispatch_init (demo_dispatcher 4) 0)
      [EvStart, EvPush ?env [], EvTake, EvFinish \<lparr>ip_Envelope = ?env, ip_PeerID = []\<rparr>] s"
    "finished s = [\<lparr>ip_Envelope = ?env, ip_PeerID = []\<rparr>]"
    using delivery_run [of "demo_dispatcher 4" _ ?env "[]" msg_codec demo_ed 0 0]
    by (auto simp: demo_dispatcher_def Registry_def NewDispatcher_def)
  have "app s = 0"
    by (rule unauthentic_never_handled [OF s(1) msg_codec_documented])
      (auto simp: bad demo_dispatcher_def Registry_def NewDispatcher_def)
  with s show ?thesis by auto
qed

end
