(* ===== verification/Storage.thy ===== *)
theory Storage
  imports Types "HOL-Library.List_Lexorder" "HOL-Library.Sublist"
begin

text \<open>
  The storage layer: the Go interface \<^verbatim>\<open>storage.Storage\<close>
  (\<^verbatim>\<open>internal/storage/storage.go\<close>) as a record of operations, its implementation
  \<^verbatim>\<open>BadgerStorage\<close> (\<^verbatim>\<open>internal/storage/badger_storage.go\<close>) on top of the Badger
  database, which is a parameter, and the contract that the clients of the interface rely
  on, as the locale \<open>kv_storage\<close>. \<open>badger_db\<close> collects what the documentation of
  Badger promises; the sublocale shows that \<^verbatim>\<open>BadgerStorage\<close> then keeps the contract.
\<close>

section \<open>The Badger database as a parameter\<close>

text \<open>
  A handle on an item of a read transaction: reading its value can fail.
\<close>

type_synonym item = "bytes result"

record 'db badger =
  txn_Get :: "bytes \<Rightarrow> 'db \<Rightarrow> item result"
  txn_Set :: "bytes \<Rightarrow> bytes \<Rightarrow> 'db \<Rightarrow> unit result \<times> 'db"
  txn_SetEntryTTL :: "bytes \<Rightarrow> bytes \<Rightarrow> int \<Rightarrow> 'db \<Rightarrow> unit result \<times> 'db"
  txn_Delete :: "bytes \<Rightarrow> 'db \<Rightarrow> unit result \<times> 'db"
  txn_items :: "'db \<Rightarrow> (bytes \<times> item) list"

text \<open>
  What a value of type \<^verbatim>\<open>interface{}\<close> holds where the code handles one: a byte slice,
  or what the JSON decoder produces for an \<^verbatim>\<open>interface{}\<close> target.
\<close>

datatype gojson =
    JNull
  | JBool bool
  | JNumber bytes
  | JString bytes
  | JArray "gojson list"
  | JObject "(bytes \<times> gojson) list"

datatype iface = IfaceBytes bytes | IfaceJSON gojson

text \<open>The type assertion \<^verbatim>\<open>v.([]byte)\<close>.\<close>

fun assert_bytes :: "iface \<Rightarrow> bytes result" where
  "assert_bytes (IfaceBytes b) = Inr b"
| "assert_bytes (IfaceJSON j) = Inl (Panic TypeAssertionFailed)"

section \<open>The interface Storage\<close>

record 'db Storage =
  st_Set :: "bytes \<Rightarrow> bytes \<Rightarrow> 'db \<Rightarrow> unit result \<times> 'db"
  st_Get :: "bytes \<Rightarrow> 'db \<Rightarrow> bytes result"
  st_Delete :: "bytes \<Rightarrow> 'db \<Rightarrow> unit result \<times> 'db"
  st_FindValues :: "bytes \<Rightarrow> 'db \<Rightarrow> iface list \<times> exn option"
  st_Exists :: "bytes \<Rightarrow> 'db \<Rightarrow> bool"

section \<open>BadgerStorage\<close>

definition Update :: "'db badger \<Rightarrow> bytes \<Rightarrow> bytes \<Rightarrow> 'db \<Rightarrow> unit result \<times> 'db" where
  "Update B key value db = txn_Set B key value db"

definition UpdateTTL :: "'db badger \<Rightarrow> bytes \<Rightarrow> bytes \<Rightarrow> int \<Rightarrow> 'db \<Rightarrow> unit result \<times> 'db" where
  "UpdateTTL B key value ttl db = txn_SetEntryTTL B key value ttl db"

definition Read :: "'db badger \<Rightarrow> bytes \<Rightarrow> 'db \<Rightarrow> bytes result" where
  "Read B key db =
     (case txn_Get B key db of
        Inl e \<Rightarrow> Inl e
      | Inr it \<Rightarrow>
        (case it of
           Inl e \<Rightarrow> Inl e
         | Inr val \<Rightarrow> Inr (copy (replicate (length val) 0) val)))"

definition Delete :: "'db badger \<Rightarrow> bytes \<Rightarrow> 'db \<Rightarrow> unit result \<times> 'db" where
  "Delete B key db = txn_Delete B key db"

definition Set :: "'db badger \<Rightarrow> bytes \<Rightarrow> bytes \<Rightarrow> 'db \<Rightarrow> unit result \<times> 'db" where
  "Set B key value db = Update B key value db"

definition Get :: "'db badger \<Rightarrow> bytes \<Rightarrow> 'db \<Rightarrow> bytes result" where
  "Get B key db = Read B key db"

text \<open>
  The body of the iteration: \<^verbatim>\<open>it.ValidForPrefix(prefix)\<close> ends it; a value that
  cannot be read or is not JSON ends it with that error; the values decoded so far are
  returned in either case.
\<close>

fun find_loop ::
  "(bytes \<Rightarrow> gojson result) \<Rightarrow> bytes \<Rightarrow> (bytes \<times> item) list \<Rightarrow> iface list \<Rightarrow> iface list \<times> exn option"
where
  "find_loop json pre [] values = (values, None)"
| "find_loop json pre ((k, it) # rest) values =
     (if prefix pre k then
        (case it of
           Inl e \<Rightarrow> (values, Some e)
         | Inr v \<Rightarrow>
           (case json v of
              Inl e \<Rightarrow> (values, Some e)
            | Inr j \<Rightarrow> find_loop json pre rest (values @ [IfaceJSON j])))
      else (values, None))"

text \<open>\<^verbatim>\<open>it.Seek(prefix)\<close> moves to the first key that is not smaller than the prefix.\<close>

definition FindValues ::
  "'db badger \<Rightarrow> (bytes \<Rightarrow> gojson result) \<Rightarrow> bytes \<Rightarrow> 'db \<Rightarrow> iface list \<times> exn option" where
  "FindValues B json pre db =
     find_loop json pre (dropWhile (\<lambda>(k, _). k < pre) (txn_items B db)) []"

definition Exists :: "'db badger \<Rightarrow> bytes \<Rightarrow> 'db \<Rightarrow> bool" where
  "Exists B key db =
     (case txn_Get B key db of
        Inl e \<Rightarrow> False
      | Inr _ \<Rightarrow> True)"

definition BadgerStorage :: "'db badger \<Rightarrow> (bytes \<Rightarrow> gojson result) \<Rightarrow> 'db Storage" where
  "BadgerStorage B json =
     \<lparr>st_Set = Set B, st_Get = Get B, st_Delete = Delete B,
      st_FindValues = FindValues B json, st_Exists = Exists B\<rparr>"

section \<open>The contract of the interface\<close>

text \<open>
  \<open>view db\<close> is the finite map the store holds and \<open>ok db\<close> says that the database is open
  and readable. A write that reports an error leaves the map as it was. Keys are not empty:
  the store refuses the empty key.
\<close>

locale kv_storage =
  fixes S :: "'db Storage"
    and view :: "'db \<Rightarrow> bytes \<rightharpoonup> bytes"
    and ok :: "'db \<Rightarrow> bool"
  assumes Get_view: "ok db \<Longrightarrow> k \<noteq> [] \<Longrightarrow>
      st_Get S k db = (case view db k of None \<Rightarrow> Inl (Err ErrKeyNotFound) | Some v \<Rightarrow> Inr v)"
    and Exists_view: "ok db \<Longrightarrow> k \<noteq> [] \<Longrightarrow> st_Exists S k db \<longleftrightarrow> view db k \<noteq> None"
    and Set_done: "ok db \<Longrightarrow> st_Set S k v db = (Inr u, db') \<Longrightarrow> ok db' \<and> view db' = (view db)(k \<mapsto> v)"
    and Set_failed: "ok db \<Longrightarrow> st_Set S k v db = (Inl e, db') \<Longrightarrow>
      ok db' \<and> view db' = view db \<and> (\<exists>x. e = Err x)"
    and Delete_done: "ok db \<Longrightarrow> st_Delete S k db = (Inr u, db') \<Longrightarrow> ok db' \<and> view db' = (view db)(k := None)"
    and Delete_failed: "ok db \<Longrightarrow> st_Delete S k db = (Inl e, db') \<Longrightarrow>
      ok db' \<and> view db' = view db \<and> (\<exists>x. e = Err x)"
begin

lemma Get_found: "ok db \<Longrightarrow> k \<noteq> [] \<Longrightarrow> st_Get S k db = Inr v \<longleftrightarrow> view db k = Some v"
  by (simp add: Get_view split: option.split)

lemma Get_missing: "ok db \<Longrightarrow> k \<noteq> [] \<Longrightarrow> st_Get S k db = Inl e \<longleftrightarrow> view db k = None \<and> e = Err ErrKeyNotFound"
  by (auto simp: Get_view split: option.split)

lemma Set_keeps_ok: "ok db \<Longrightarrow> st_Set S k v db = (r, db') \<Longrightarrow> ok db'"
  by (cases r) (auto dest: Set_done Set_failed)

lemma Delete_keeps_ok: "ok db \<Longrightarrow> st_Delete S k db = (r, db') \<Longrightarrow> ok db'"
  by (cases r) (auto dest: Delete_done Delete_failed)

lemma Set_frame: "ok db \<Longrightarrow> st_Set S k v db = (r, db') \<Longrightarrow> k' \<noteq> k \<Longrightarrow> view db' k' = view db k'"
  by (cases r) (auto dest: Set_done Set_failed)

lemma Get_after_Set:
  "ok db \<Longrightarrow> k \<noteq> [] \<Longrightarrow> st_Set S k v db = (Inr u, db') \<Longrightarrow> st_Get S k db' = Inr v"
  by (frule (1) Set_done) (simp add: Get_view)

lemma Get_after_Delete:
  "ok db \<Longrightarrow> k \<noteq> [] \<Longrightarrow> st_Delete S k db = (Inr u, db') \<Longrightarrow> st_Get S k db' = Inl (Err ErrKeyNotFound)"
  by (frule (1) Delete_done) (simp add: Get_view)

end

section \<open>BadgerStorage keeps the contract\<close>

text \<open>
  The documented behaviour of Badger on an open database: a committed transaction's writes
  are visible to later ones, \<^verbatim>\<open>ErrKeyNotFound\<close> is returned exactly for absent keys, a
  transaction that fails leaves no trace, and iteration visits the keys in byte order.
\<close>

locale badger_db =
  fixes B :: "'db badger"
    and json :: "bytes \<Rightarrow> gojson result"
    and view :: "'db \<Rightarrow> bytes \<rightharpoonup> bytes"
    and ok :: "'db \<Rightarrow> bool"
  assumes txn_Get_view: "ok db \<Longrightarrow> k \<noteq> [] \<Longrightarrow>
      txn_Get B k db = (case view db k of None \<Rightarrow> Inl (Err ErrKeyNotFound) | Some v \<Rightarrow> Inr (Inr v))"
    and txn_Set_done: "ok db \<Longrightarrow> txn_Set B k v db = (Inr u, db') \<Longrightarrow> ok db' \<and> view db' = (view db)(k \<mapsto> v)"
    and txn_Set_failed: "ok db \<Longrightarrow> txn_Set B k v db = (Inl e, db') \<Longrightarrow>
      ok db' \<and> view db' = view db \<and> (\<exists>x. e = Err x)"
    and txn_Delete_done: "ok db \<Longrightarrow> txn_Delete B k db = (Inr u, db') \<Longrightarrow>
      ok db' \<and> view db' = (view db)(k := None)"
    and txn_Delete_failed: "ok db \<Longrightarrow> txn_Delete B k db = (Inl e, db') \<Longrightarrow>
      ok db' \<and> view db' = view db \<and> (\<exists>x. e = Err x)"
    and txn_items_sorted: "ok db \<Longrightarrow> sorted_wrt (<) (map fst (txn_items B db))"
    and txn_items_view: "ok db \<Longrightarrow> (k, it) \<in> set (txn_items B db) \<longleftrightarrow> (\<exists>v. view db k = Some v \<and> it = Inr v)"
    and json_no_panic: "\<not> is_panic (json v)"
begin

lemma Get_eq:
  "ok db \<Longrightarrow> k \<noteq> [] \<Longrightarrow>
    Get B k db = (case view db k of None \<Rightarrow> Inl (Err ErrKeyNotFound) | Some v \<Rightarrow> Inr v)"
  by (simp add: Get_def Read_def txn_Get_view copy_same_length split: option.split)

lemma Exists_eq: "ok db \<Longrightarrow> k \<noteq> [] \<Longrightarrow> Exists B k db \<longleftrightarrow> view db k \<noteq> None"
  by (simp add: Exists_def txn_Get_view split: option.split)

end

sublocale badger_db \<subseteq> kv: kv_storage "BadgerStorage B json" view ok
proof
  fix db :: 'db and k v u db' e
  assume ok: "ok db"
  show "k \<noteq> [] \<Longrightarrow> st_Get (BadgerStorage B json) k db =
      (case view db k of None \<Rightarrow> Inl (Err ErrKeyNotFound) | Some v \<Rightarrow> Inr v)"
    using ok by (simp add: BadgerStorage_def Get_eq)
  show "k \<noteq> [] \<Longrightarrow> st_Exists (BadgerStorage B json) k db = (view db k \<noteq> None)"
    using ok by (simp add: BadgerStorage_def Exists_eq)
  show "st_Set (BadgerStorage B json) k v db = (Inr u, db') \<Longrightarrow> ok db' \<and> view db' = (view db)(k \<mapsto> v)"
    using ok by (simp add: BadgerStorage_def Set_def Update_def txn_Set_done)
  show "st_Set (BadgerStorage B json) k v db = (Inl e, db') \<Longrightarrow>
      ok db' \<and> view db' = view db \<and> (\<exists>x. e = Err x)"
    using ok by (simp add: BadgerStorage_def Set_def Update_def txn_Set_failed)
  show "st_Delete (BadgerStorage B json) k db = (Inr u, db') \<Longrightarrow> ok db' \<and> view db' = (view db)(k := None)"
    using ok by (simp add: BadgerStorage_def Delete_def txn_Delete_done)
  show "st_Delete (BadgerStorage B json) k db = (Inl e, db') \<Longrightarrow>
      ok db' \<and> view db' = view db \<and> (\<exists>x. e = Err x)"
    using ok by (simp add: BadgerStorage_def Delete_def txn_Delete_failed)
qed

context badger_db
begin

lemma kv_axioms: "kv_storage (BadgerStorage B json) view ok"
  by unfold_locales

end

lemma badger_kv: "badger_db B json view ok \<Longrightarrow> kv_storage (BadgerStorage B json) view ok"
  by (rule badger_db.kv_axioms)

section \<open>FindValues finds exactly the values under a prefix\<close>

lemma prefix_not_less: "prefix p k \<Longrightarrow> \<not> k < (p :: bytes)"
proof (induction p arbitrary: k)
  case (Cons a p)
  then obtain k' where "k = a # k'" "prefix p k'" by (cases k) auto
  with Cons.IH show ?case by simp
qed simp

text \<open>Above the prefix, the keys that start with it come before all the others.\<close>

lemma prefix_block:
  "\<not> k < p \<Longrightarrow> \<not> prefix p k \<Longrightarrow> k < k' \<Longrightarrow> \<not> prefix p (k' :: bytes)"
proof (induction p arbitrary: k k')
  case (Cons a p)
  show ?case
  proof (cases k)
    case Nil
    with Cons.prems(1) show ?thesis by simp
  next
    case (Cons b m)
    note k = this
    show ?thesis
    proof (cases "a = b")
      case True
      with Cons.prems k have "\<not> m < p" "\<not> prefix p m" by auto
      show ?thesis
      proof
        assume "prefix (a # p) k'"
        then obtain m' where k': "k' = a # m'" "prefix p m'" by (cases k') auto
        with Cons.prems(3) k True have "m < m'" by simp
        with Cons.IH [OF \<open>\<not> m < p\<close> \<open>\<not> prefix p m\<close>] k'(2) show False by blast
      qed
    next
      case False
      with Cons.prems(1) k have "a < b" by auto
      with Cons.prems(3) k show ?thesis by (cases k') auto
    qed
  qed
qed simp

definition prefix_items :: "bytes \<Rightarrow> (bytes \<times> item) list \<Rightarrow> (bytes \<times> item) list" where
  "prefix_items p xs = takeWhile (\<lambda>(k, _). prefix p k) (dropWhile (\<lambda>(k, _). k < p) xs)"

lemma takeWhile_prefix_eq_filter:
  fixes p :: bytes
  shows "sorted_wrt (<) (map fst xs) \<Longrightarrow> \<forall>(k, _) \<in> set xs. \<not> k < p \<Longrightarrow>
    takeWhile (\<lambda>(k, _). prefix p k) xs = filter (\<lambda>(k, _). prefix p k) xs"
proof (induction xs)
  case (Cons x xs)
  obtain k it where x: "x = (k, it)" by force
  show ?case
  proof (cases "prefix p k")
    case True
    with Cons x show ?thesis by auto
  next
    case False
    with Cons.prems x have "\<forall>(k', _) \<in> set xs. \<not> prefix p k'"
      using prefix_block [of k p] by (auto simp: split_beta)
    then have "filter (\<lambda>(k, _). prefix p k) xs = []" by (auto simp: filter_empty_conv)
    with False x show ?thesis by simp
  qed
qed simp

lemma prefix_items_eq_filter:
  assumes "sorted_wrt (<) (map fst xs)"
  shows "prefix_items p xs = filter (\<lambda>(k, _). prefix p k) xs"
  using assms
proof (induction xs)
  case (Cons x xs)
  obtain k it where x: "x = (k, it)" by force
  show ?case
  proof (cases "k < p")
    case True
    then have "\<not> prefix p k" using prefix_not_less by blast
    with True Cons x show ?thesis by (simp add: prefix_items_def)
  next
    case False
    have "\<forall>(k', _) \<in> set (x # xs). \<not> k' < p"
      using False Cons.prems x by (fastforce dest: less_trans)
    with False x show ?thesis
      using takeWhile_prefix_eq_filter [OF Cons.prems, of p] by (simp add: prefix_items_def)
  qed
qed (simp add: prefix_items_def)

lemma find_loop_takeWhile:
  "find_loop json p xs vs = find_loop json p (takeWhile (\<lambda>(k, _). prefix p k) xs) vs"
  by (induction json p xs vs rule: find_loop.induct) (auto split: sum.split)

lemma find_loop_all_json:
  "(\<forall>(k, it) \<in> set xs. prefix p k \<and> (\<exists>v. it = Inr v \<and> json v = Inr (f v))) \<Longrightarrow>
    find_loop json p xs vs = (vs @ map (\<lambda>(k, it). IfaceJSON (f (projr it))) xs, None)"
  by (induction json p xs vs rule: find_loop.induct) auto

text \<open>A value that is not JSON ends the iteration with an error.\<close>

lemma find_loop_error:
  "(k, Inr v) \<in> set xs \<Longrightarrow> json v = Inl e \<Longrightarrow> \<forall>(k, it) \<in> set xs. prefix p k \<Longrightarrow>
    snd (find_loop json p xs vs) \<noteq> None"
  by (induction json p xs vs rule: find_loop.induct) (auto split: sum.split)

lemma find_loop_values:
  "set vs \<subseteq> range IfaceJSON \<Longrightarrow> set (fst (find_loop json p xs vs)) \<subseteq> range IfaceJSON"
  by (induction json p xs vs rule: find_loop.induct) (auto split: sum.split)

lemma FindValues_json: "set (fst (FindValues B json p db)) \<subseteq> range IfaceJSON"
  by (simp add: FindValues_def find_loop_values)

context badger_db
begin

lemma FindValues_eq:
  "ok db \<Longrightarrow> FindValues B json p db =
    find_loop json p (filter (\<lambda>(k, _). prefix p k) (txn_items B db)) []"
  using prefix_items_eq_filter [OF txn_items_sorted, of db p]
    find_loop_takeWhile [of json p "dropWhile (\<lambda>(k, _). k < p) (txn_items B db)"]
  by (simp add: FindValues_def prefix_items_def)

lemma FindValues_not_json:
  assumes ok: "ok db" and v: "view db k = Some v" and k: "prefix p k" and bad: "json v = Inl e"
  shows "snd (FindValues B json p db) \<noteq> None"
proof -
  have "(k, Inr v) \<in> set (filter (\<lambda>(k, _). prefix p k) (txn_items B db))"
    using ok v k by (simp add: txn_items_view)
  then have "snd (find_loop json p (filter (\<lambda>(k, _). prefix p k) (txn_items B db)) []) \<noteq> None"
    by (rule find_loop_error) (auto simp: bad)
  with ok show ?thesis by (simp add: FindValues_eq)
qed

text \<open>An iteration that fails ends with an ordinary error.\<close>

lemma find_loop_no_panic:
  "\<forall>(k, it) \<in> set xs. \<exists>v. it = Inr v \<Longrightarrow> snd (find_loop json p xs vs) = Some x \<Longrightarrow> \<exists>e. x = Err e"
proof (induction xs arbitrary: vs)
  case (Cons y xs)
  obtain k v where y: "y = (k, Inr v)" using Cons.prems(1) by (cases y) auto
  with Cons json_no_panic [of v] show ?case
    by (auto split: if_splits sum.splits) (metis exn.exhaust is_panic.simps(1))
qed simp

lemma FindValues_error:
  assumes "ok db" and "snd (FindValues B json p db) = Some x"
  shows "\<exists>e. x = Err e"
  using assms(2) unfolding FindValues_eq [OF assms(1)]
  by (rule find_loop_no_panic [rotated]) (auto simp: txn_items_view [OF assms(1)])

lemma FindValues_none:
  assumes "ok db" and "\<forall>k. prefix p k \<longrightarrow> view db k = None"
  shows "FindValues B json p db = ([], None)"
proof -
  have "filter (\<lambda>(k, _). prefix p k) (txn_items B db) = []"
    using assms by (auto simp: filter_empty_conv txn_items_view)
  with assms(1) show ?thesis by (simp add: FindValues_eq)
qed

end

section \<open>A database in memory\<close>

text \<open>
  A sorted association list with the documented behaviour of Badger, the empty key refused:
  the instance of \<open>badger_db\<close> on which concrete runs are evaluated.
\<close>

type_synonym memdb = "(bytes \<times> bytes) list"

fun mem_put :: "bytes \<Rightarrow> bytes \<Rightarrow> memdb \<Rightarrow> memdb" where
  "mem_put k v [] = [(k, v)]"
| "mem_put k v ((k', v') # db) =
     (if k < k' then (k, v) # (k', v') # db
      else if k = k' then (k, v) # db
      else (k', v') # mem_put k v db)"

definition empty_key_error :: exn where
  "empty_key_error = Err (ErrLib ''Key cannot be empty'')"

definition mem_badger :: "memdb badger" where
  "mem_badger =
     \<lparr>txn_Get = (\<lambda>k db. if k = [] then Inl empty_key_error
        else case map_of db k of None \<Rightarrow> Inl (Err ErrKeyNotFound) | Some v \<Rightarrow> Inr (Inr v)),
      txn_Set = (\<lambda>k v db. if k = [] then (Inl empty_key_error, db) else (Inr (), mem_put k v db)),
      txn_SetEntryTTL = (\<lambda>k v ttl db. if k = [] then (Inl empty_key_error, db) else (Inr (), mem_put k v db)),
      txn_Delete = (\<lambda>k db. if k = [] then (Inl empty_key_error, db)
        else (Inr (), filter (\<lambda>(k', _). k' \<noteq> k) db)),
      txn_items = (\<lambda>db. map (\<lambda>(k, v). (k, Inr v)) db)\<rparr>"

definition mem_ok :: "memdb \<Rightarrow> bool" where
  "mem_ok db \<longleftrightarrow> sorted_wrt (<) (map fst db)"

text \<open>A decoder that accepts the literal \<^verbatim>\<open>null\<close> only.\<close>

definition null_json :: "bytes \<Rightarrow> gojson result" where
  "null_json v = (if v = bytes_of_string ''null'' then Inr JNull else Inl (Err (ErrLib ''json'')))"

lemma map_of_mem_put: "mem_ok db \<Longrightarrow> map_of (mem_put k v db) = (map_of db)(k \<mapsto> v)"
proof (induction k v db rule: mem_put.induct)
  case (2 k v k' v' db)
  have "k < k' \<Longrightarrow> map_of db k = None"
    using 2(2) by (fastforce simp: mem_ok_def map_of_eq_None_iff dest: less_trans)
  with 2 show ?case by (auto simp: mem_ok_def)
qed simp

lemma fst_mem_put: "fst ` set (mem_put k v db) = insert k (fst ` set db)"
  by (induction k v db rule: mem_put.induct) auto

lemma mem_ok_put: "mem_ok db \<Longrightarrow> mem_ok (mem_put k v db)"
proof (induction k v db rule: mem_put.induct)
  case (2 k v k' v' db)
  then show ?case
    by (auto simp: mem_ok_def fst_mem_put dest: less_trans simp del: image_iff)
qed (simp add: mem_ok_def)

lemma map_of_filter_key: "map_of (filter (\<lambda>(k', _). k' \<noteq> k) db) = (map_of db)(k := None)"
  by (induction db) auto

lemma mem_ok_filter: "mem_ok db \<Longrightarrow> mem_ok (filter P db)"
  by (induction db) (auto simp: mem_ok_def)

lemma mem_ok_distinct: "mem_ok db \<Longrightarrow> distinct (map fst db)"
  unfolding mem_ok_def by (rule strict_sorted_iff [THEN iffD1, THEN conjunct2])

lemma mem_badger_db:
  assumes "\<And>v. \<not> is_panic (json v)"
  shows "badger_db mem_badger json map_of mem_ok"
proof
  fix db :: memdb and k it
  show "mem_ok db \<Longrightarrow> (k, it) \<in> set (txn_items mem_badger db) \<longleftrightarrow> (\<exists>v. map_of db k = Some v \<and> it = Inr v)"
    by (auto simp: mem_badger_def map_of_eq_Some_iff mem_ok_distinct)
qed (auto simp: mem_badger_def map_of_mem_put mem_ok_put map_of_filter_key mem_ok_filter
    empty_key_error_def mem_ok_def [symmetric] comp_def case_prod_beta assms
    split: if_splits option.split)

interpretation mem: badger_db mem_badger null_json map_of mem_ok
  by (rule mem_badger_db) (simp add: null_json_def)

end
