(* ===== verification/Swarm.thy ===== *)
theory Swarm
  imports Streams Sessions Dispatcher Storage
begin

text \<open>
  \<^verbatim>\<open>internal/p2p/swarm.go\<close> and \<^verbatim>\<open>internal/p2p/peer.go\<close>: the peers of a node, the records the
  swarm keeps of them in the store, and the signing and sending of messages.

  Peers are shared by pointer: \<open>activePeers\<close> holds addresses of \<open>peer_heap\<close>, in which a peer
  stays after it was replaced or removed. The store is a value of a type variable, changed through
  the \<^verbatim>\<open>Storage\<close> interface.
\<close>

section \<open>Peers\<close>

text \<open>
  The context of a peer is whether it was cancelled; \<^verbatim>\<open>sendChan\<close> and \<^verbatim>\<open>isReady\<close>, which nothing
  uses, and the dispatcher, which is an argument of \<open>OnData_handler\<close>, are left out.
\<close>

record 'c Peer =
  p_transport :: "'c PeerWrapper option"
  p_id :: PeerID
  p_pubKey :: PeerPublicKey
  p_addr :: bytes
  p_isOut :: bool
  p_closed :: bool

definition NewPeer :: "PeerPublicKey \<Rightarrow> bytes \<Rightarrow> bool \<Rightarrow> 'c Peer" where
  "NewPeer peerPubKey addr isOut =
     \<lparr>p_transport = None, p_id = sha256 peerPubKey, p_pubKey = peerPubKey, p_addr = addr,
      p_isOut = isOut, p_closed = False\<rparr>"

text \<open>\<^verbatim>\<open>Peer.Close\<close> cancels the context; the connection itself is not closed.\<close>

definition Peer_Close :: "'c Peer \<Rightarrow> 'c Peer" where
  "Peer_Close p = p\<lparr>p_closed := True\<rparr>"

definition SetTransport :: "('c \<Rightarrow> bytes) \<Rightarrow> 'c PeerWrapper \<Rightarrow> 'c Peer \<Rightarrow> 'c Peer" where
  "SetTransport remoteAddr transport p =
     p\<lparr>p_transport := Some transport, p_addr := PeerWrapper_RemoteAddr remoteAddr transport\<rparr>"

definition Peer_ID :: "'c Peer \<Rightarrow> PeerID" where "Peer_ID p = p_id p"
definition Peer_PubKey :: "'c Peer \<Rightarrow> PeerPublicKey" where "Peer_PubKey p = p_pubKey p"
definition Peer_Addr :: "'c Peer \<Rightarrow> bytes" where "Peer_Addr p = p_addr p"

text \<open>\<open>opened\<close> and \<open>closed\<close> as for \<^verbatim>\<open>SendGossipMessage\<close>.\<close>

definition Peer_Send ::
  "Envelope codec \<Rightarrow> MessageType \<Rightarrow> Envelope \<Rightarrow> qstream result \<Rightarrow> unit result \<Rightarrow>
   unit result \<times> qstream option" where
  "Peer_Send V msgType msgData opened closed =
     (case marshal V msgData of
        Inl e \<Rightarrow> (Inl e, None)
      | Inr data \<Rightarrow> SendGossipMessage msgType data opened closed)"

section \<open>The swarm\<close>

record ('db, 'c) Swarm =
  activePeers :: "PeerID \<rightharpoonup> nat"
  peer_heap :: "'c Peer list"
  sw_db :: 'db
  selfID :: PeerID
  myPrivKey :: PeerPrivateKey
  netTransport :: QuicTransport
  MaxConnections :: int
  sessionManager :: SessionManager
  pending_saves :: "(PeerPublicKey \<times> bytes \<times> u32) list"
  rlocks :: nat

text \<open>
  The struct literal leaves \<^verbatim>\<open>netTransport\<close> zero: its \<^verbatim>\<open>*quic.Transport\<close> is nil. \<open>pending_saves\<close> are the goroutines started by \<^verbatim>\<open>go s.SavePeer(...)\<close> that have
  not run yet, \<open>rlocks\<close> the read locks of \<^verbatim>\<open>mu\<close> that are held. Of the configuration the swarm
  reads \<^verbatim>\<open>MaxConnections\<close>; the dispatcher is an argument where it is used.
\<close>

definition NewSwarm :: "PeerID \<Rightarrow> PeerPrivateKey \<Rightarrow> 'db \<Rightarrow> int \<Rightarrow> ('db, 'c) Swarm" where
  "NewSwarm self priv db maxConnections =
     \<lparr>activePeers = Map.empty, peer_heap = [], sw_db = db, selfID = self, myPrivKey = priv,
      netTransport = zero_transport, MaxConnections = maxConnections, sessionManager = NewSessionManager,
      pending_saves = [], rlocks = 0\<rparr>"

definition GetSessionManager :: "('db, 'c) Swarm \<Rightarrow> SessionManager" where
  "GetSessionManager s = sessionManager s"

definition close_at :: "nat \<Rightarrow> ('db, 'c) Swarm \<Rightarrow> ('db, 'c) Swarm" where
  "close_at a s = s\<lparr>peer_heap := (peer_heap s)[a := Peer_Close (peer_heap s ! a)]\<rparr>"

text \<open>
  \<^verbatim>\<open>AddPeer\<close>, in the order of its statements: close the old peer of that identifier, make the
  new one, start the goroutine that saves it, set the callbacks of its transport, give it the
  transport, put it into the map. The result is the new peer's address.
\<close>

definition AddPeer ::
  "('c \<Rightarrow> bytes) \<Rightarrow> PeerPublicKey \<Rightarrow> PeerID \<Rightarrow> 'c \<Rightarrow> bytes \<Rightarrow> bool \<Rightarrow> ('db, 'c) Swarm \<Rightarrow>
   nat \<times> ('db, 'c) Swarm" where
  "AddPeer remoteAddr peerPubKey peerID conn addr isOut s =
     (let s = (case activePeers s peerID of None \<Rightarrow> s | Some old \<Rightarrow> close_at old s);
          p = NewPeer peerPubKey addr isOut;
          pw = NewPeerWrapper conn;
          s = s\<lparr>pending_saves := pending_saves s @ [(peerPubKey, p_addr p, 100)]\<rparr>;
          pw = OnData pw;
          pw = OnNewStream pw;
          p = SetTransport remoteAddr pw p;
          a = length (peer_heap s);
          s = s\<lparr>peer_heap := peer_heap s @ [p], activePeers := (activePeers s)(peerID \<mapsto> a)\<rparr>
      in (a, s))"

definition start_loops_at :: "nat \<Rightarrow> ('db, 'c) Swarm \<Rightarrow> ('db, 'c) Swarm" where
  "start_loops_at a s =
     (let p = peer_heap s ! a
      in s\<lparr>peer_heap := (peer_heap s)[a := p\<lparr>p_transport := map_option StartLoops (p_transport p)\<rparr>]\<rparr>)"

text \<open>One round of \<^verbatim>\<open>registrationLoop\<close>: the peer is added and its loops are started.\<close>

definition registration_step :: "('c \<Rightarrow> bytes) \<Rightarrow> 'c NewConnEvent \<Rightarrow> ('db, 'c) Swarm \<Rightarrow> ('db, 'c) Swarm" where
  "registration_step remoteAddr ev s =
     (let (a, s) = AddPeer remoteAddr (ev_PeerPubKey ev) (ev_PeerID ev) (ev_Conn ev) (ev_Addr ev) (ev_IsOut ev) s
      in start_loops_at a s)"

text \<open>What \<^verbatim>\<open>OnData\<close> does with the payload of a gossip frame.\<close>

definition OnData_handler ::
  "Envelope codec \<Rightarrow> MessageType \<Rightarrow> bytes \<Rightarrow> PeerID \<Rightarrow> 'st Dispatcher \<Rightarrow> panic option \<times> 'st Dispatcher" where
  "OnData_handler V msgType payload peerID d =
     (case unmarshal V payload of
        Inl e \<Rightarrow> (exn_panic e, d)
      | Inr data \<Rightarrow> (None, fst (PushMessage data peerID d)))"

definition RemovePeer :: "PeerID \<Rightarrow> ('db, 'c) Swarm \<Rightarrow> ('db, 'c) Swarm" where
  "RemovePeer peerID s =
     (case activePeers s peerID of
        None \<Rightarrow> s
      | Some a \<Rightarrow> (close_at a s)\<lparr>activePeers := (activePeers s)(peerID := None)\<rparr>)"

definition GetPeer :: "PeerID \<Rightarrow> ('db, 'c) Swarm \<Rightarrow> 'c Peer option" where
  "GetPeer peerID s = map_option (\<lambda>a. peer_heap s ! a) (activePeers s peerID)"

definition ThisIsActivePeer :: "PeerID \<Rightarrow> ('db, 'c) Swarm \<Rightarrow> bool" where
  "ThisIsActivePeer peerID s = (activePeers s peerID \<noteq> None)"

text \<open>
  Iterating over a map visits its keys in an order the language leaves open: \<open>order\<close> is that
  order.
\<close>

definition visits :: "PeerID list \<Rightarrow> ('db, 'c) Swarm \<Rightarrow> bool" where
  "visits order s \<longleftrightarrow> distinct order \<and> set order = dom (activePeers s)"

definition GetAllPeers :: "PeerID list \<Rightarrow> ('db, 'c) Swarm \<Rightarrow> 'c Peer list" where
  "GetAllPeers order s = map (\<lambda>i. peer_heap s ! the (activePeers s i)) order"

fun take_peers :: "nat \<Rightarrow> nat \<Rightarrow> 'c Peer list \<Rightarrow> 'c Peer list \<Rightarrow> 'c Peer list" where
  "take_peers cnt mapCount [] res = res"
| "take_peers cnt mapCount (p # ps) res =
     (if cnt \<le> mapCount then res else take_peers cnt (Suc mapCount) ps (res @ [p]))"

definition GetMyRandomPeers :: "nat \<Rightarrow> PeerID list \<Rightarrow> ('db, 'c) Swarm \<Rightarrow> 'c Peer list" where
  "GetMyRandomPeers cnt order s = take_peers cnt 0 (GetAllPeers order s) []"

section \<open>Bans and the history of peers\<close>

definition ban_key :: "PeerID \<Rightarrow> bytes" where
  "ban_key peerID = bytes_of_string ''bans:peer:'' @ peerID"

definition BanPeer :: "'db Storage \<Rightarrow> PeerID \<Rightarrow> ('db, 'c) Swarm \<Rightarrow> ('db, 'c) Swarm" where
  "BanPeer S peerID s =
     (let key = ban_key peerID;
          s = s\<lparr>sw_db := snd (st_Set S key (bytes_of_string ''true'') (sw_db s))\<rparr>
      in (case activePeers s peerID of
            None \<Rightarrow> s
          | Some a \<Rightarrow> close_at a s))"

definition UnBanPeer :: "'db Storage \<Rightarrow> PeerID \<Rightarrow> ('db, 'c) Swarm \<Rightarrow> ('db, 'c) Swarm" where
  "UnBanPeer S peerID s = s\<lparr>sw_db := snd (st_Delete S (ban_key peerID) (sw_db s))\<rparr>"

definition CheckOnBan :: "'db Storage \<Rightarrow> PeerID \<Rightarrow> ('db, 'c) Swarm \<Rightarrow> bool" where
  "CheckOnBan S peerID s =
     (case st_Get S (ban_key peerID) (sw_db s) of
        Inl e \<Rightarrow> True
      | Inr _ \<Rightarrow> False)"

definition saved_prefix :: bytes where
  "saved_prefix = bytes_of_string ''saved:peers:''"

text \<open>\<open>now\<close> is \<^verbatim>\<open>time.Now().UnixNano()\<close>.\<close>

definition Swarm_SavePeer ::
  "'db Storage \<Rightarrow> PeerStoreEntry codec \<Rightarrow> u64 \<Rightarrow> PeerPublicKey \<Rightarrow> bytes \<Rightarrow> u32 \<Rightarrow>
   ('db, 'c) Swarm \<Rightarrow> ('db, 'c) Swarm" where
  "Swarm_SavePeer S C now peerPubKey addr trustScore s =
     (case marshal C \<lparr>pse_PubKey = peerPubKey, pse_LastKnownAddr = addr, pse_LastSeen = now,
         pse_TrustScore = trustScore\<rparr> of
        Inl e \<Rightarrow> s
      | Inr protoData \<Rightarrow>
          (let key = saved_prefix @ sha256 peerPubKey
           in s\<lparr>sw_db := snd (st_Set S key protoData (sw_db s))\<rparr>))"

text \<open>The loop over the values found, with the peers and the count so far.\<close>

fun history_loop ::
  "PeerStoreEntry codec \<Rightarrow> nat \<Rightarrow> iface list \<Rightarrow> nat \<Rightarrow> PeerStoreEntry list \<Rightarrow> PeerStoreEntry list result" where
  "history_loop C cnt [] peerCount peers = Inr peers"
| "history_loop C cnt (v # vs) peerCount peers =
     (if cnt \<noteq> 0 \<and> cnt \<le> peerCount then Inr peers
      else
        (case assert_bytes v of
           Inl e \<Rightarrow> Inl e
         | Inr b \<Rightarrow>
           (case unmarshal C b of
              Inl (Panic p) \<Rightarrow> Inl (Panic p)
            | Inl (Err e) \<Rightarrow> history_loop C cnt vs peerCount peers
            | Inr peer \<Rightarrow>
                history_loop C cnt vs (if cnt \<noteq> 0 then Suc peerCount else peerCount) (peers @ [peer]))))"

definition GetHistoryConnected ::
  "'db Storage \<Rightarrow> PeerStoreEntry codec \<Rightarrow> nat \<Rightarrow> ('db, 'c) Swarm \<Rightarrow> PeerStoreEntry list result" where
  "GetHistoryConnected S C cnt s =
     (case st_FindValues S saved_prefix (sw_db s) of
        (findValues, Some e) \<Rightarrow> (case e of Err _ \<Rightarrow> Inr [] | Panic p \<Rightarrow> Inl (Panic p))
      | (findValues, None) \<Rightarrow> history_loop C cnt findValues 0 [])"

section \<open>Signing and sending\<close>

definition signMessageData ::
  "MessageData codec \<Rightarrow> ed25519_lib \<Rightarrow> MessageData \<Rightarrow> ('db, 'c) Swarm \<Rightarrow> Envelope result" where
  "signMessageData M E mesData s =
     (case marshal M mesData of
        Inl e \<Rightarrow> Inl e
      | Inr Data \<Rightarrow>
        (let pubKey = PeerPrivateKeyToPublic (myPrivKey s)
         in (case CreateSignature E Data (myPrivKey s) of
               Inl e \<Rightarrow> Inl e
             | Inr signature \<Rightarrow> Inr \<lparr>env_Data = Data, env_Signature = signature, env_PubKey = pubKey\<rparr>)))"

definition SendDataForPeer ::
  "MessageData codec \<Rightarrow> Envelope codec \<Rightarrow> ed25519_lib \<Rightarrow> PeerID \<Rightarrow> MessageType \<Rightarrow> MessageData \<Rightarrow>
   qstream result \<Rightarrow> unit result \<Rightarrow> ('db, 'c) Swarm \<Rightarrow> unit result \<times> qstream option" where
  "SendDataForPeer M V E peerID msgType data opened closed s =
     (case GetPeer peerID s of
        None \<Rightarrow> (Inl (Err (ErrNew ''this peer is not connected'')), None)
      | Some peer \<Rightarrow>
        (case signMessageData M E data s of
           Inl e \<Rightarrow> (Inl e, None)
         | Inr env \<Rightarrow> Peer_Send V msgType env opened closed))"

text \<open>
  \<open>outcomes\<close> are the results of the \<^verbatim>\<open>count\<close> attempts to open a stream, in the order in which the
  goroutines finish.
\<close>

definition OpenNewStreams ::
  "PeerID \<Rightarrow> nat result list \<Rightarrow> ('db, 'c) Swarm \<Rightarrow> nat list result" where
  "OpenNewStreams peerID outcomes s =
     (case activePeers s peerID of
        None \<Rightarrow> Inl (Err (ErrNew ''this peer is inactive''))
      | Some a \<Rightarrow>
          (let streams = [st. Inr st \<leftarrow> outcomes]
           in if length streams = 0 then Inl (Err (ErrNew ''failed to open any streams'')) else Inr streams))"

section \<open>Dialling\<close>

text \<open>
  What dialling depends on: the outcomes of resolving an address, dialling it and opening the
  first stream, and the nonce that is drawn.
\<close>

record 'c dial_env =
  de_nonce :: bytes
  de_resolve :: "bytes \<Rightarrow> unit result"
  de_dial :: "bytes \<Rightarrow> ('c \<times> bytes) result"
  de_open :: "bytes \<Rightarrow> qstream result"

text \<open>\<^verbatim>\<open>s.netTransport.DialEarly(ctx, addr)\<close>, and its error.\<close>

definition swarm_dial ::
  "MessageData codec \<Rightarrow> ed25519_lib \<Rightarrow> 'c dial_env \<Rightarrow> bytes \<Rightarrow> ('db, 'c) Swarm \<Rightarrow> unit result" where
  "swarm_dial M E D addr s =
     fst (DialEarly M E (netTransport s) (de_nonce D) (de_resolve D addr) (de_dial D addr) (de_open D addr))"

text \<open>The goroutine's dial, if one is started; its error is only logged.\<close>

definition AddPotentialPeer ::
  "MessageData codec \<Rightarrow> ed25519_lib \<Rightarrow> 'c dial_env \<Rightarrow> PeerID \<Rightarrow> bytes \<Rightarrow> ('db, 'c) Swarm \<Rightarrow> panic option" where
  "AddPotentialPeer M E D i addr s =
     (if activePeers s i \<noteq> None then None
      else (case swarm_dial M E D addr s of
              Inl e \<Rightarrow> exn_panic e
            | Inr _ \<Rightarrow> None))"

text \<open>\<^verbatim>\<open>connect\<close>, in a goroutine of its own; the result of the dial is dropped.\<close>

definition connect ::
  "MessageData codec \<Rightarrow> ed25519_lib \<Rightarrow> 'c dial_env \<Rightarrow> bytes \<Rightarrow> ('db, 'c) Swarm \<Rightarrow> panic option" where
  "connect M E D addr s =
     (case swarm_dial M E D addr s of
        Inl e \<Rightarrow> exn_panic e
      | Inr _ \<Rightarrow> None)"

text \<open>
  \<^verbatim>\<open>findAndConnectToPeers\<close> for the peers of the history: the addresses for which a dial is
  started, and the read locks that are still held when the goroutine ends. The \<^verbatim>\<open>break\<close> and the
  \<^verbatim>\<open>return\<close> leave without unlocking.
\<close>

fun connect_loop :: "PeerStoreEntry list \<Rightarrow> bytes list \<Rightarrow> ('db, 'c) Swarm \<Rightarrow> bytes list \<times> ('db, 'c) Swarm" where
  "connect_loop [] dials s = (dials, s)"
| "connect_loop (peer # peers) dials s =
     (let s1 = s\<lparr>rlocks := Suc (rlocks s)\<rparr>
      in if MaxConnections s1 < int (card (dom (activePeers s1))) then (dials, s1)
         else
           (let known = (activePeers s1 (sha256 (pse_PubKey peer)) \<noteq> None);
                s2 = s1\<lparr>rlocks := rlocks s1 - 1\<rparr>
            in if known then connect_loop peers dials s2
               else connect_loop peers (dials @ [pse_LastKnownAddr peer]) s2))"

definition findAndConnectToPeers ::
  "'db Storage \<Rightarrow> PeerStoreEntry codec \<Rightarrow> ('db, 'c) Swarm \<Rightarrow> (bytes list \<times> ('db, 'c) Swarm) result" where
  "findAndConnectToPeers S C s =
     (case GetHistoryConnected S C 0 s of
        Inl e \<Rightarrow> Inl e
      | Inr peers \<Rightarrow>
        (let (dials, s1) = connect_loop peers [] s;
             s2 = s1\<lparr>rlocks := Suc (rlocks s1)\<rparr>
         in if MaxConnections s2 < int (card (dom (activePeers s2))) then Inr (dials, s2)
            else Inr (dials, s2\<lparr>rlocks := rlocks s2 - 1\<rparr>)))"

section \<open>Lemmas\<close>

lemma close_at_simps [simp]:
  "activePeers (close_at a s) = activePeers s" "length (peer_heap (close_at a s)) = length (peer_heap s)"
  "sw_db (close_at a s) = sw_db s" "netTransport (close_at a s) = netTransport s"
  "pending_saves (close_at a s) = pending_saves s" "myPrivKey (close_at a s) = myPrivKey s"
  "b \<noteq> a \<Longrightarrow> peer_heap (close_at a s) ! b = peer_heap s ! b"
  "a < length (peer_heap s) \<Longrightarrow> peer_heap (close_at a s) ! a = Peer_Close (peer_heap s ! a)"
  by (simp_all add: close_at_def)

lemma Peer_Close_simps [simp]: "p_id (Peer_Close p) = p_id p" "p_closed (Peer_Close p)"
  by (simp_all add: Peer_Close_def)

lemma new_peer_simps [simp]:
  "p_id (SetTransport r w (NewPeer k a d)) = sha256 k" "p_closed (SetTransport r w (NewPeer k a d)) = False"
  by (simp_all add: SetTransport_def NewPeer_def)

text \<open>
  \<open>swarm_ok\<close>: every identifier in the map leads to a peer of the heap with that identifier, and
  every peer that is not closed is the one in the map under its identifier.
\<close>

definition swarm_ok :: "('db, 'c) Swarm \<Rightarrow> bool" where
  "swarm_ok s \<longleftrightarrow>
     (\<forall>i a. activePeers s i = Some a \<longrightarrow> a < length (peer_heap s) \<and> p_id (peer_heap s ! a) = i) \<and>
     (\<forall>a < length (peer_heap s). \<not> p_closed (peer_heap s ! a) \<longrightarrow>
        activePeers s (p_id (peer_heap s ! a)) = Some a)"

lemma swarm_okD:
  "swarm_ok s \<Longrightarrow> activePeers s i = Some a \<Longrightarrow> a < length (peer_heap s) \<and> p_id (peer_heap s ! a) = i"
  "swarm_ok s \<Longrightarrow> a < length (peer_heap s) \<Longrightarrow> \<not> p_closed (peer_heap s ! a) \<Longrightarrow>
    activePeers s (p_id (peer_heap s ! a)) = Some a"
  by (auto simp: swarm_ok_def)

lemma swarm_ok_New: "swarm_ok (NewSwarm i k db n)"
  by (simp add: swarm_ok_def NewSwarm_def)

lemma swarm_ok_close:
  assumes "swarm_ok s" and "activePeers s i = Some a"
  shows "swarm_ok (close_at a s)"
proof -
  have a: "a < length (peer_heap s)" using swarm_okD(1) [OF assms] by simp
  have "p_id (peer_heap (close_at a s) ! b) = p_id (peer_heap s ! b)" for b
    using a by (cases "b = a") simp_all
  moreover have "p_closed (peer_heap s ! b)" if "p_closed (peer_heap s ! b)" for b using that .
  moreover have "\<not> p_closed (peer_heap (close_at a s) ! b) \<Longrightarrow> \<not> p_closed (peer_heap s ! b)" for b
    using a by (cases "b = a") simp_all
  ultimately show ?thesis using assms(1) by (simp add: swarm_ok_def)
qed

lemma swarm_ok_remove:
  assumes ok: "swarm_ok s"
  shows "swarm_ok (RemovePeer i s)"
proof (cases "activePeers s i")
  case (Some a)
  let ?s = "close_at a s"
  have ok': "swarm_ok ?s" by (rule swarm_ok_close [OF ok Some])
  have a: "a < length (peer_heap s)" "p_id (peer_heap s ! a) = i" using swarm_okD(1) [OF ok Some] by auto
  have "activePeers s (p_id (peer_heap ?s ! b)) = Some b \<and> p_id (peer_heap ?s ! b) \<noteq> i"
    if "b < length (peer_heap s)" "\<not> p_closed (peer_heap ?s ! b)" for b
    using that swarm_okD(2) [OF ok', of b] a Some by (cases "b = a") auto
  then show ?thesis
    using Some swarm_okD(1) [OF ok'] by (auto simp: RemovePeer_def swarm_ok_def)
qed (use ok in \<open>simp add: RemovePeer_def\<close>)

text \<open>Adding a peer whose old connection, if any, is closed.\<close>

lemma swarm_ok_add:
  assumes ok: "swarm_ok s"
    and closed: "\<And>a. activePeers s (sha256 k) = Some a \<Longrightarrow> p_closed (peer_heap s ! a)"
    and p: "p_id p = sha256 k"
  shows "swarm_ok (s\<lparr>pending_saves := ps, peer_heap := peer_heap s @ [p],
    activePeers := (activePeers s)(sha256 k \<mapsto> length (peer_heap s))\<rparr>)"
proof -
  have "activePeers s (p_id (peer_heap s ! b)) = Some b \<and> p_id (peer_heap s ! b) \<noteq> sha256 k"
    if "b < length (peer_heap s)" "\<not> p_closed (peer_heap s ! b)" for b
    using that swarm_okD(2) [OF ok that] closed [of b] by auto
  with swarm_okD(1) [OF ok] p show ?thesis
    unfolding swarm_ok_def by (auto simp: nth_append less_Suc_eq)
qed

lemma start_loops_at_simps [simp]:
  "activePeers (start_loops_at a s) = activePeers s" "length (peer_heap (start_loops_at a s)) = length (peer_heap s)"
  "sw_db (start_loops_at a s) = sw_db s" "netTransport (start_loops_at a s) = netTransport s"
  "myPrivKey (start_loops_at a s) = myPrivKey s" "pending_saves (start_loops_at a s) = pending_saves s"
  "MaxConnections (start_loops_at a s) = MaxConnections s" "rlocks (start_loops_at a s) = rlocks s"
  "selfID (start_loops_at a s) = selfID s" "sessionManager (start_loops_at a s) = sessionManager s"
  by (simp_all add: start_loops_at_def Let_def)

lemma start_loops_at_peer [simp]:
  "b < length (peer_heap s) \<Longrightarrow> p_id (peer_heap (start_loops_at a s) ! b) = p_id (peer_heap s ! b)"
  "b < length (peer_heap s) \<Longrightarrow> p_pubKey (peer_heap (start_loops_at a s) ! b) = p_pubKey (peer_heap s ! b)"
  "b < length (peer_heap s) \<Longrightarrow> p_closed (peer_heap (start_loops_at a s) ! b) = p_closed (peer_heap s ! b)"
  "b < length (peer_heap s) \<Longrightarrow> p_addr (peer_heap (start_loops_at a s) ! b) = p_addr (peer_heap s ! b)"
  by (cases "a = b"; simp add: start_loops_at_def Let_def)+

lemma start_loops_at_heap:
  "(\<forall>p \<in> set (peer_heap (start_loops_at a s)). p_id p = f (p_pubKey p) \<and> P (p_pubKey p)) \<longleftrightarrow>
   (\<forall>p \<in> set (peer_heap s). p_id p = f (p_pubKey p) \<and> P (p_pubKey p))"
  by (auto simp: all_set_conv_all_nth)

lemma swarm_ok_start_loops [simp]: "swarm_ok s \<Longrightarrow> swarm_ok (start_loops_at a s)"
  by (auto simp: swarm_ok_def)

lemma AddPeer_eq:
  "AddPeer r k i c a d s =
    (let s1 = (case activePeers s i of None \<Rightarrow> s | Some old \<Rightarrow> close_at old s)
     in (length (peer_heap s1), s1\<lparr>pending_saves := pending_saves s1 @ [(k, a, 100)],
          peer_heap := peer_heap s1 @ [SetTransport r (OnNewStream (OnData (NewPeerWrapper c))) (NewPeer k a d)],
          activePeers := (activePeers s1)(i \<mapsto> length (peer_heap s1))\<rparr>))"
  by (simp add: AddPeer_def Let_def NewPeer_def)

lemma swarm_ok_AddPeer:
  assumes ok: "swarm_ok s"
  shows "swarm_ok (snd (AddPeer r k (sha256 k) c a d s))"
proof (cases "activePeers s (sha256 k)")
  case None
  then show ?thesis
    unfolding AddPeer_eq Let_def using ok by (simp, intro swarm_ok_add) simp_all
next
  case (Some old)
  then have "swarm_ok (close_at old s)" "old < length (peer_heap s)"
    using swarm_ok_close [OF ok] swarm_okD(1) [OF ok] by auto
  with Some show ?thesis
    unfolding AddPeer_eq Let_def
    by (simp, intro swarm_ok_add [of "close_at old s", simplified]) simp_all
qed

lemma swarm_ok_registration:
  "swarm_ok s \<Longrightarrow> ev_PeerID ev = sha256 (ev_PeerPubKey ev) \<Longrightarrow> swarm_ok (registration_step r ev s)"
  using swarm_ok_AddPeer [of s r "ev_PeerPubKey ev"] by (simp add: registration_step_def case_prod_beta)

section \<open>Histories of the swarm\<close>

text \<open>
  \<open>SwConn\<close> is a round of the registration loop, \<open>SwSave n now\<close> the run of the \<open>n\<close>-th goroutine
  that saves a peer.
\<close>

datatype 'c swarm_op =
    SwConn "'c NewConnEvent"
  | SwRemove PeerID
  | SwBan PeerID
  | SwUnBan PeerID
  | SwSave nat u64

definition swarm_step ::
  "'db Storage \<Rightarrow> PeerStoreEntry codec \<Rightarrow> ('c \<Rightarrow> bytes) \<Rightarrow> 'c swarm_op \<Rightarrow> ('db, 'c) Swarm \<Rightarrow> ('db, 'c) Swarm" where
  "swarm_step S C r x s =
     (case x of
        SwConn ev \<Rightarrow> registration_step r ev s
      | SwRemove i \<Rightarrow> RemovePeer i s
      | SwBan i \<Rightarrow> BanPeer S i s
      | SwUnBan i \<Rightarrow> UnBanPeer S i s
      | SwSave n now \<Rightarrow>
          if n < length (pending_saves s)
          then (case pending_saves s ! n of (k, a, t) \<Rightarrow>
                  Swarm_SavePeer S C now k a t
                    (s\<lparr>pending_saves := take n (pending_saves s) @ drop (Suc n) (pending_saves s)\<rparr>))
          else s)"

text \<open>The transport announces connections with the hash of the public key as identifier.\<close>

fun swarm_op_ok :: "'c swarm_op \<Rightarrow> bool" where
  "swarm_op_ok (SwConn ev) = (ev_PeerID ev = sha256 (ev_PeerPubKey ev))"
| "swarm_op_ok _ = True"

lemma swarm_ok_db [simp]: "swarm_ok (s\<lparr>sw_db := db\<rparr>) = swarm_ok s"
  "swarm_ok (s\<lparr>pending_saves := ps\<rparr>) = swarm_ok s"
  by (simp_all add: swarm_ok_def)

lemma swarm_ok_BanPeer: "swarm_ok s \<Longrightarrow> swarm_ok (BanPeer S i s)"
  by (auto simp: BanPeer_def Let_def swarm_ok_close split: option.split)

lemma swarm_ok_SavePeer: "swarm_ok s \<Longrightarrow> swarm_ok (Swarm_SavePeer S C now k a t s)"
  by (simp add: Swarm_SavePeer_def Let_def split: sum.split)

lemma swarm_step_ok: "swarm_ok s \<Longrightarrow> swarm_op_ok x \<Longrightarrow> swarm_ok (swarm_step S C r x s)"
  by (cases x) (auto simp: swarm_step_def swarm_ok_registration swarm_ok_remove
      swarm_ok_BanPeer swarm_ok_SavePeer UnBanPeer_def split: prod.split)

lemma swarm_run_ok:
  "swarm_ok s \<Longrightarrow> \<forall>x \<in> set xs. swarm_op_ok x \<Longrightarrow> swarm_ok (fold (swarm_step S C r) xs s)"
  by (induction xs arbitrary: s) (simp_all add: swarm_step_ok)

text \<open>No operation sets the transport.\<close>

lemma swarm_step_transport [simp]: "netTransport (swarm_step S C r x s) = netTransport s"
  by (cases x)
    (auto simp: swarm_step_def registration_step_def AddPeer_eq RemovePeer_def BanPeer_def UnBanPeer_def
      Swarm_SavePeer_def Let_def split: option.split sum.split prod.split)

lemma swarm_run_transport: "netTransport (fold (swarm_step S C r) xs s) = netTransport s"
  by (induction xs arbitrary: s) simp_all

text \<open>Every peer comes from a connection, and has the hash of its key as identifier.\<close>

lemma close_at_heap:
  "p \<in> set (peer_heap (close_at a s)) \<Longrightarrow> p \<in> set (peer_heap s) \<or> (\<exists>p' \<in> set (peer_heap s). p = Peer_Close p')"
proof (cases "a < length (peer_heap s)")
  case True
  assume "p \<in> set (peer_heap (close_at a s))"
  then have "p \<in> insert (Peer_Close (peer_heap s ! a)) (set (peer_heap s))"
    using set_update_subset_insert by (fastforce simp: close_at_def)
  then show ?thesis using True by auto
qed (simp_all add: close_at_def list_update_beyond)

lemma swarm_step_peers:
  fixes s :: "('db, 'c) Swarm"
  assumes "\<forall>p \<in> set (peer_heap s). p_id p = sha256 (p_pubKey p) \<and> P (p_pubKey p)"
    and "\<And>ev. x = SwConn ev \<Longrightarrow> P (ev_PeerPubKey ev)"
  shows "\<forall>p \<in> set (peer_heap (swarm_step S C r x s)). p_id p = sha256 (p_pubKey p) \<and> P (p_pubKey p)"
proof -
  have close: "\<forall>p \<in> set (peer_heap (close_at a s)). p_id p = sha256 (p_pubKey p) \<and> P (p_pubKey p)" for a
    using assms(1) by (auto dest!: close_at_heap simp: Peer_Close_def)
  have new: "p_pubKey (SetTransport r w (NewPeer k a d)) = k" for w :: "'c PeerWrapper" and k a d
    by (simp add: SetTransport_def NewPeer_def)
  show ?thesis
  proof (cases x)
    case (SwConn ev)
    then show ?thesis
      using assms close new
      by (auto simp: swarm_step_def registration_step_def AddPeer_eq Let_def start_loops_at_heap split: option.split)
  next
    case (SwBan i)
    then have "peer_heap (swarm_step S C r x s) =
        (case activePeers s i of None \<Rightarrow> peer_heap s | Some a \<Rightarrow> peer_heap (close_at a s))"
      by (simp add: swarm_step_def BanPeer_def Let_def close_at_def split: option.split)
    then show ?thesis using assms(1) close by (simp split: option.split)
  qed (use assms(1) close in \<open>auto simp: swarm_step_def RemovePeer_def UnBanPeer_def Swarm_SavePeer_def Let_def
      split: option.split sum.split prod.split\<close>)
qed

lemma swarm_run_peers:
  "\<forall>p \<in> set (peer_heap s). p_id p = sha256 (p_pubKey p) \<and> P (p_pubKey p) \<Longrightarrow>
    (\<And>ev. SwConn ev \<in> set xs \<Longrightarrow> P (ev_PeerPubKey ev)) \<Longrightarrow>
    \<forall>p \<in> set (peer_heap (fold (swarm_step S C r) xs s)). p_id p = sha256 (p_pubKey p) \<and> P (p_pubKey p)"
proof (induction xs arbitrary: s)
  case (Cons x xs)
  show ?case
    using Cons.IH [OF swarm_step_peers [OF Cons.prems(1), of x]] Cons.prems(2) by simp
qed simp

section \<open>The records of the swarm in the store\<close>

definition swarm_key :: "bytes \<Rightarrow> bool" where
  "swarm_key k \<longleftrightarrow> prefix (bytes_of_string ''bans:peer:'') k \<or> prefix saved_prefix k"

lemma ban_key_simps [key_simps, simp]:
  "ban_key i \<noteq> []" "ban_key i = ban_key j \<longleftrightarrow> i = j" "swarm_key (ban_key i)" "swarm_key (saved_prefix @ h)"
  "saved_prefix @ h \<noteq> []" "saved_prefix @ h \<noteq> ban_key i"
  by (simp_all add: ban_key_def swarm_key_def saved_prefix_def bytes_of_string_def)

context kv_storage
begin

lemma Delete_frame: "ok db \<Longrightarrow> st_Delete S k db = (r, db') \<Longrightarrow> k' \<noteq> k \<Longrightarrow> view db' k' = view db k'"
  by (cases r) (auto dest: Delete_done Delete_failed)

lemma swarm_step_db:
  assumes "ok (sw_db s)"
  shows "ok (sw_db (swarm_step S C r x s)) \<and>
    (\<forall>k. \<not> swarm_key k \<longrightarrow> view (sw_db (swarm_step S C r x s)) k = view (sw_db s) k)"
proof (cases x)
  case (SwConn ev)
  then show ?thesis
    using assms by (auto simp: swarm_step_def registration_step_def AddPeer_eq Let_def split: option.split)
next
  case (SwRemove i)
  then show ?thesis using assms by (auto simp: swarm_step_def RemovePeer_def split: option.split)
next
  case (SwBan i)
  obtain res db' where w: "st_Set S (ban_key i) (bytes_of_string ''true'') (sw_db s) = (res, db')" by force
  then have "sw_db (swarm_step S C r x s) = db'"
    using SwBan by (auto simp: swarm_step_def BanPeer_def Let_def split: option.split)
  with w assms show ?thesis by (metis Set_frame Set_keeps_ok ban_key_simps(3))
next
  case (SwUnBan i)
  obtain res db' where w: "st_Delete S (ban_key i) (sw_db s) = (res, db')" by force
  with SwUnBan assms have "sw_db (swarm_step S C r x s) = db'"
    by (simp add: swarm_step_def UnBanPeer_def)
  with w assms show ?thesis by (metis Delete_frame Delete_keeps_ok ban_key_simps(3))
next
  case (SwSave n now)
  show ?thesis
  proof (cases "n < length (pending_saves s)")
    case True
    obtain k a t where p: "pending_saves s ! n = (k, a, t)" by (cases "pending_saves s ! n") auto
    show ?thesis
    proof (cases "marshal C \<lparr>pse_PubKey = k, pse_LastKnownAddr = a, pse_LastSeen = now, pse_TrustScore = t\<rparr>")
      case (Inr b)
      obtain res db' where w: "st_Set S (saved_prefix @ sha256 k) b (sw_db s) = (res, db')" by force
      with SwSave True p Inr have "sw_db (swarm_step S C r x s) = db'"
        by (simp add: swarm_step_def Swarm_SavePeer_def)
      with w assms show ?thesis by (metis Set_frame Set_keeps_ok ban_key_simps(4))
    qed (use SwSave True p assms in \<open>simp add: swarm_step_def Swarm_SavePeer_def\<close>)
  qed (use SwSave assms in \<open>simp add: swarm_step_def\<close>)
qed

lemma swarm_run_db:
  "ok (sw_db s) \<Longrightarrow> ok (sw_db (fold (swarm_step S C r) xs s)) \<and>
    (\<forall>k. \<not> swarm_key k \<longrightarrow> view (sw_db (fold (swarm_step S C r) xs s)) k = view (sw_db s) k)"
proof (induction xs arbitrary: s)
  case (Cons x xs)
  show ?case using swarm_step_db [OF Cons.prems, of C r x] Cons.IH by simp
qed simp

lemma CheckOnBan_view:
  "ok (sw_db s) \<Longrightarrow> CheckOnBan S i s \<longleftrightarrow> view (sw_db s) (ban_key i) = None"
  by (simp add: CheckOnBan_def Get_view split: option.split)

lemma BanPeer_db: "sw_db (BanPeer S i s) = snd (st_Set S (ban_key i) (bytes_of_string ''true'') (sw_db s))"
  by (simp add: BanPeer_def Let_def split: option.split)

lemma CheckOnBan_BanPeer:
  assumes "ok (sw_db s)" and "fst (st_Set S (ban_key i) (bytes_of_string ''true'') (sw_db s)) = Inr u"
  shows "CheckOnBan S j (BanPeer S i s) \<longleftrightarrow> j \<noteq> i \<and> CheckOnBan S j s"
proof -
  obtain db' where w: "st_Set S (ban_key i) (bytes_of_string ''true'') (sw_db s) = (Inr u, db')"
    using assms(2) by (cases "st_Set S (ban_key i) (bytes_of_string ''true'') (sw_db s)") auto
  with Set_done [OF assms(1) w] assms(1) show ?thesis by (simp add: CheckOnBan_view BanPeer_db)
qed

lemma CheckOnBan_UnBanPeer:
  assumes "ok (sw_db s)" and "fst (st_Delete S (ban_key i) (sw_db s)) = Inr u"
  shows "CheckOnBan S j (UnBanPeer S i s) \<longleftrightarrow> j = i \<or> CheckOnBan S j s"
proof -
  obtain db' where w: "st_Delete S (ban_key i) (sw_db s) = (Inr u, db')"
    using assms(2) by (cases "st_Delete S (ban_key i) (sw_db s)") auto
  with Delete_done [OF assms(1) w] assms(1) show ?thesis by (simp add: CheckOnBan_view UnBanPeer_def)
qed

end

section \<open>Sending\<close>

text \<open>What the swarm signs is authentic for every dispatcher, under the swarm's own key.\<close>

lemma signMessageData_authentic:
  assumes "codec_documented M" and "ed_documented E keypair" and "keypair (myPrivKey s)"
    and "signMessageData M E m s = Inr env"
  shows "authentic M E env m \<and> env_PubKey env = PeerPrivateKeyToPublic (myPrivKey s)"
proof -
  let ?pub = "PeerPrivateKeyToPublic (myPrivKey s)"
  obtain b sig where b: "marshal M m = Inr b" "CreateSignature E b (myPrivKey s) = Inr sig"
    "env = \<lparr>env_Data = b, env_Signature = sig, env_PubKey = ?pub\<rparr>"
    using assms(4) by (auto simp: signMessageData_def Let_def split: sum.splits)
  moreover from signature_verifies [OF assms(2,3), of b] b(2) have "VerifySignature E ?pub b sig" by auto
  ultimately show ?thesis using codec_roundtrip [OF assms(1) b(1)] by (simp add: authentic_def)
qed

lemma SendDataForPeer_writes:
  assumes "SendDataForPeer M V E i t m (Inr q) (Inr ()) s = (Inr (), Some q')" and "wlimit q = None"
  obtains env b where "signMessageData M E m s = Inr env" "marshal V env = Inr b"
    "q' = q\<lparr>wbuf := wbuf q @ frame t b\<rparr>" "activePeers s i \<noteq> None"
  using assms that
  by (auto simp: SendDataForPeer_def Peer_Send_def GetPeer_def SendGossipMessage_ok
      split: option.splits sum.splits)

text \<open>The loop that looks for peers to dial, above and below the limit of connections.\<close>

lemma connect_loop_over:
  "MaxConnections s < int (card (dom (activePeers s))) \<Longrightarrow>
    connect_loop ps dials s = (dials, if ps = [] then s else s\<lparr>rlocks := Suc (rlocks s)\<rparr>)"
  by (cases ps) simp_all

lemma connect_loop_under:
  "\<not> MaxConnections s < int (card (dom (activePeers s))) \<Longrightarrow> snd (connect_loop ps dials s) = s"
proof (induction ps arbitrary: dials)
  case (Cons p ps)
  have "s\<lparr>rlocks := rlocks s\<rparr> = s" by simp
  with Cons show ?case by simp
qed simp

lemma findAndConnect_locks:
  assumes "findAndConnectToPeers S C s = Inr (dials, s')"
  shows "if MaxConnections s < int (card (dom (activePeers s))) then rlocks s < rlocks s' else s' = s"
proof -
  from assms obtain ps where h: "GetHistoryConnected S C 0 s = Inr ps"
    by (auto simp: findAndConnectToPeers_def split: sum.splits)
  show ?thesis
  proof (cases "MaxConnections s < int (card (dom (activePeers s)))")
    case True
    with assms h show ?thesis
      by (auto simp: findAndConnectToPeers_def Let_def connect_loop_over split: if_splits)
  next
    case False
    obtain ds s1 where l: "connect_loop ps [] s = (ds, s1)" by force
    with connect_loop_under [OF False, of ps "[]"] have "s1 = s" by simp
    with False assms h l show ?thesis by (auto simp: findAndConnectToPeers_def Let_def)
  qed
qed

section \<open>Properties\<close>

text \<open>
  C15. One open connection per peer: after any sequence of connections, removals, bans, lifted
  bans and runs of the saving goroutines, every identifier in the map leads to a peer with that
  identifier, and of all the peers ever added at most one with a given identifier has not been
  closed, the one the map holds: a peer that connects again replaces its old connection.
\<close>

theorem swarm_one_open_peer:
  assumes "\<forall>x \<in> set xs. swarm_op_ok x" and "s = fold (swarm_step S C r) xs (NewSwarm self priv db n)"
  shows "(\<forall>i a. activePeers s i = Some a \<longrightarrow> a < length (peer_heap s) \<and> p_id (peer_heap s ! a) = i) \<and>
    (\<forall>a < length (peer_heap s). \<not> p_closed (peer_heap s ! a) \<longrightarrow>
       activePeers s (p_id (peer_heap s ! a)) = Some a) \<and>
    (\<forall>a < length (peer_heap s). \<forall>b < length (peer_heap s).
       \<not> p_closed (peer_heap s ! a) \<and> \<not> p_closed (peer_heap s ! b) \<and>
       p_id (peer_heap s ! a) = p_id (peer_heap s ! b) \<longrightarrow> a = b)"
proof -
  have ok: "swarm_ok s" using swarm_run_ok [OF swarm_ok_New assms(1)] assms(2) by simp
  have u: "a = b"
    if "a < length (peer_heap s)" "b < length (peer_heap s)" "\<not> p_closed (peer_heap s ! a)"
      "\<not> p_closed (peer_heap s ! b)" "p_id (peer_heap s ! a) = p_id (peer_heap s ! b)" for a b
    using swarm_okD(2) [OF ok that(1,3)] swarm_okD(2) [OF ok that(2,4)] unfolding that(5) by simp
  show ?thesis
  proof (intro conjI)
    show "\<forall>i a. activePeers s i = Some a \<longrightarrow> a < length (peer_heap s) \<and> p_id (peer_heap s ! a) = i"
      using ok unfolding swarm_ok_def by (rule conjunct1)
    show "\<forall>a < length (peer_heap s). \<not> p_closed (peer_heap s ! a) \<longrightarrow>
        activePeers s (p_id (peer_heap s ! a)) = Some a"
      using ok unfolding swarm_ok_def by (rule conjunct2)
  qed (intro allI impI, elim conjE, rule u)
qed

definition demo_event :: "nat \<Rightarrow> nat NewConnEvent" where
  "demo_event c = \<lparr>ev_Conn = c, ev_IsOut = True, ev_PeerID = sha256 [1], ev_PeerPubKey = [1], ev_Addr = []\<rparr>"

definition mem_storage :: "memdb Storage" where
  "mem_storage = BadgerStorage mem_badger null_json"

definition demo_swarm :: "(memdb, nat) Swarm" where
  "demo_swarm = fold (swarm_step mem_storage pse_codec (\<lambda>c. [])) [SwConn (demo_event 0), SwConn (demo_event 1)]
     (NewSwarm [] (demo_key 1) [] 1)"

lemma demo_swarm_eq:
  "activePeers demo_swarm = [sha256 [1] \<mapsto> 1]" "map p_closed (peer_heap demo_swarm) = [True, False]"
  "sw_db demo_swarm = []" "netTransport demo_swarm = zero_transport" "MaxConnections demo_swarm = 1" "rlocks demo_swarm = 0"
  "myPrivKey demo_swarm = demo_key 1"
  by (simp_all add: demo_swarm_def swarm_step_def registration_step_def AddPeer_eq NewSwarm_def demo_event_def
      Let_def close_at_def start_loops_at_def)

theorem swarm_one_open_peer_witness:
  "length (peer_heap demo_swarm) = 2 \<and> activePeers demo_swarm (sha256 [1]) = Some 1 \<and>
   \<not> p_closed (peer_heap demo_swarm ! 1) \<and>
   activePeers demo_swarm (p_id (peer_heap demo_swarm ! 1)) = Some 1"
proof -
  have len: "length (peer_heap demo_swarm) = 2" using demo_swarm_eq(2) by (simp flip: length_map [of p_closed])
  have "\<forall>x \<in> set [SwConn (demo_event 0), SwConn (demo_event 1)]. swarm_op_ok x"
    by (simp add: demo_event_def)
  moreover have "\<not> p_closed (peer_heap demo_swarm ! 1)"
    using arg_cong [OF demo_swarm_eq(2), of "\<lambda>l. l ! 1"] len by simp
  ultimately show ?thesis using swarm_one_open_peer [OF _ demo_swarm_def] len demo_swarm_eq(1) by simp
qed

text \<open>
  C32. What a ban does: once the ban is stored, \<^verbatim>\<open>CheckOnBan\<close> of exactly that peer changes, to
  false, which is its answer for a banned peer (and true its answer for all others); lifting the
  ban changes it back. The peer is closed but stays in the map of active peers, and the ban is
  not consulted when it connects again: it is registered with an open connection.
\<close>

theorem ban_effect:
  assumes "badger_db B json view ok" and "ok (sw_db s)" and "S = BadgerStorage B json"
    and "fst (st_Set S (ban_key i) (bytes_of_string ''true'') (sw_db s)) = Inr u"
    and "fst (st_Delete S (ban_key i) (sw_db (BanPeer S i s))) = Inr v"
    and "ev_PeerID ev = i"
  shows "(\<forall>j. CheckOnBan S j (BanPeer S i s) \<longleftrightarrow> j \<noteq> i \<and> CheckOnBan S j s) \<and>
    CheckOnBan S i (UnBanPeer S i (BanPeer S i s)) \<and>
    ThisIsActivePeer i (BanPeer S i s) = ThisIsActivePeer i s \<and>
    (\<exists>a p. activePeers (registration_step r ev (BanPeer S i s)) i = Some a \<and>
       peer_heap (registration_step r ev (BanPeer S i s)) ! a = p \<and> \<not> p_closed p \<and>
       p_pubKey p = ev_PeerPubKey ev)"
proof -
  have kv: "kv_storage S view ok" using badger_kv [OF assms(1)] assms(3) by simp
  have ok: "ok (sw_db (BanPeer S i s))"
    using kv_storage.Set_keeps_ok [OF kv assms(2)] kv_storage.BanPeer_db [OF kv, of i s] by (metis prod.collapse)
  have "activePeers (BanPeer S i s) i = activePeers s i"
    by (simp add: BanPeer_def Let_def split: option.split)
  moreover have "\<exists>a p. activePeers (registration_step r ev s') i = Some a \<and>
       peer_heap (registration_step r ev s') ! a = p \<and> \<not> p_closed p \<and> p_pubKey p = ev_PeerPubKey ev" for s'
    using assms(6)
    by (auto simp: registration_step_def AddPeer_eq Let_def SetTransport_def NewPeer_def split: option.split)
  ultimately show ?thesis
    using kv_storage.CheckOnBan_BanPeer [OF kv assms(2,4)] kv_storage.CheckOnBan_UnBanPeer [OF kv ok assms(5)]
    by (auto simp: ThisIsActivePeer_def)
qed

lemma mem_storage_writes:
  "k \<noteq> [] \<Longrightarrow> fst (st_Set mem_storage k v db) = Inr ()" "k \<noteq> [] \<Longrightarrow> fst (st_Delete mem_storage k db) = Inr ()"
  by (simp_all add: mem_storage_def BadgerStorage_def Set_def Update_def Delete_def mem_badger_def)

theorem ban_effect_witness:
  "\<not> CheckOnBan mem_storage (sha256 [1]) (BanPeer mem_storage (sha256 [1]) demo_swarm) \<and>
   ThisIsActivePeer (sha256 [1]) (BanPeer mem_storage (sha256 [1]) demo_swarm)"
proof -
  have "mem_ok (sw_db demo_swarm)" by (simp add: demo_swarm_eq mem_ok_def)
  moreover have "ev_PeerID (demo_event 2) = sha256 [1]" by (simp add: demo_event_def)
  moreover have "ThisIsActivePeer (sha256 [1]) demo_swarm" by (simp add: ThisIsActivePeer_def demo_swarm_eq)
  ultimately show ?thesis
    using ban_effect [OF mem.badger_db_axioms _ mem_storage_def mem_storage_writes(1) mem_storage_writes(2)]
    by (metis ban_key_simps(1))
qed

text \<open>
  C33. The history of peers is never found: \<^verbatim>\<open>SavePeer\<close> stores a protobuf record, while
  \<^verbatim>\<open>FindValues\<close> decodes every value as JSON. After a peer whose record is not also JSON was
  saved, the record is in the store, but \<^verbatim>\<open>GetHistoryConnected\<close> returns no peers; and with
  whatever store content it never returns one, because a decoded value is never a byte slice.
\<close>

theorem saved_peer_not_in_history:
  assumes "badger_db B json view ok" and "ok (sw_db s)" and "S = BadgerStorage B json"
    and "marshal C \<lparr>pse_PubKey = k, pse_LastKnownAddr = a, pse_LastSeen = now, pse_TrustScore = t\<rparr> = Inr b"
    and "json b = Inl e" and "fst (st_Set S (saved_prefix @ sha256 k) b (sw_db s)) = Inr u"
  shows "view (sw_db (Swarm_SavePeer S C now k a t s)) (saved_prefix @ sha256 k) = Some b \<and>
    GetHistoryConnected S C cnt (Swarm_SavePeer S C now k a t s) = Inr [] \<and>
    (\<forall>s' p ps. GetHistoryConnected S C cnt (s' :: ('db, 'c) Swarm) \<noteq> Inr (p # ps))"
proof -
  let ?s = "Swarm_SavePeer S C now k a t s"
  have kv: "kv_storage S view ok" using badger_kv [OF assms(1)] assms(3) by simp
  obtain db' where w: "st_Set S (saved_prefix @ sha256 k) b (sw_db s) = (Inr u, db')"
    using assms(6) by (cases "st_Set S (saved_prefix @ sha256 k) b (sw_db s)") auto
  then have db: "sw_db ?s = db'" using assms(4) by (simp add: Swarm_SavePeer_def)
  from kv_storage.Set_done [OF kv assms(2) w] db
  have v: "ok (sw_db ?s)" "view (sw_db ?s) (saved_prefix @ sha256 k) = Some b" by auto
  have "snd (FindValues B json saved_prefix (sw_db ?s)) \<noteq> None"
    by (rule badger_db.FindValues_not_json [OF assms(1) v _ assms(5)]) simp
  moreover have "\<exists>e. x = Err e" if "snd (FindValues B json saved_prefix (sw_db ?s)) = Some x" for x
    using badger_db.FindValues_error [OF assms(1) v(1) that] .
  ultimately have "GetHistoryConnected S C cnt ?s = Inr []"
    by (auto simp: GetHistoryConnected_def assms(3) BadgerStorage_def split: prod.splits exn.splits)
  moreover have "GetHistoryConnected S C cnt s' \<noteq> Inr (p # ps)" for s' p ps
  proof -
    obtain vs x where f: "FindValues B json saved_prefix (sw_db s') = (vs, x)" by force
    with FindValues_json [of B json saved_prefix "sw_db s'"] have "set vs \<subseteq> range IfaceJSON" by simp
    with f show ?thesis
      by (cases vs) (auto simp: GetHistoryConnected_def assms(3) BadgerStorage_def split: option.split exn.split)
  qed
  ultimately show ?thesis using v(2) by blast
qed

lemma pse_not_null:
  "\<exists>b e. marshal pse_codec \<lparr>pse_PubKey = k, pse_LastKnownAddr = a, pse_LastSeen = now, pse_TrustScore = t\<rparr> = Inr b \<and>
    null_json b = Inl e"
proof -
  obtain b where b: "marshal pse_codec \<lparr>pse_PubKey = k, pse_LastKnownAddr = a, pse_LastSeen = now,
      pse_TrustScore = t\<rparr> = Inr b" "4 < length b"
    by (simp add: pse_codec_def wire_codec_def rep_pse_def enc_pair_def)
  then have "b \<noteq> bytes_of_string ''null''" by auto
  with b show ?thesis by (simp add: null_json_def)
qed

theorem saved_peer_not_in_history_witness:
  "GetHistoryConnected mem_storage pse_codec 0 (Swarm_SavePeer mem_storage pse_codec 7 [1] [97] 100 demo_swarm) = Inr []"
proof -
  obtain b e where b: "marshal pse_codec \<lparr>pse_PubKey = [1], pse_LastKnownAddr = [97], pse_LastSeen = 7,
      pse_TrustScore = 100\<rparr> = Inr b" "null_json b = Inl e"
    using pse_not_null by blast
  have "mem_ok (sw_db demo_swarm)" by (simp add: demo_swarm_eq mem_ok_def)
  from saved_peer_not_in_history [OF mem.badger_db_axioms this mem_storage_def b mem_storage_writes(1)]
  show ?thesis by (metis ban_key_simps(5))
qed

text \<open>
  C34. A discovered peer crashes the node: nothing sets the swarm's transport, so in every history
  of the swarm, announcing an address that resolves, for a peer that is not connected, makes the
  dialling goroutine dereference a nil pointer; and so does connecting to a peer of the history.
\<close>

theorem potential_peer_panics:
  assumes "s = fold (swarm_step S C r) xs (NewSwarm self priv db n)"
    and "activePeers s i = None" and "de_resolve D addr = Inr u"
  shows "AddPotentialPeer M E D i addr s = Some NilDereference \<and> connect M E D addr s = Some NilDereference"
  using assms swarm_run_transport [of S C r xs "NewSwarm self priv db n"]
  by (simp add: AddPotentialPeer_def connect_def swarm_dial_def DialEarly_def NewSwarm_def zero_transport_def)

definition demo_dial :: "nat dial_env" where
  "demo_dial =
     \<lparr>de_nonce = [1], de_resolve = (\<lambda>a. Inr ()), de_dial = (\<lambda>a. Inr (7, a)), de_open = (\<lambda>a. Inr demo_stream)\<rparr>"

theorem potential_peer_panics_witness:
  "AddPotentialPeer msg_codec demo_ed demo_dial (replicate 31 0) [49] demo_swarm = Some NilDereference"
proof -
  have "replicate 31 0 \<noteq> sha256 [1]" by (metis length_replicate length_sha256 numeral_eq_iff semiring_norm(89))
  then have "activePeers demo_swarm (replicate 31 0) = None" by (simp add: demo_swarm_eq)
  from potential_peer_panics [OF demo_swarm_def this, of demo_dial "[49]" "()"] show ?thesis by (simp add: demo_dial_def)
qed

text \<open>
  The search for peers to connect to keeps the swarm's read lock: when it ends, the locks are
  as before and nothing has changed if the number of active peers does not exceed the limit, and
  if it does at least one read lock is never released, so that every later writer blocks for
  ever.
\<close>

theorem search_leaks_lock:
  assumes "findAndConnectToPeers S C s = Inr (dials, s')"
  shows "rlocks s < rlocks s' \<longleftrightarrow> MaxConnections s < int (card (dom (activePeers s)))"
  using findAndConnect_locks [OF assms] by (auto split: if_splits)

lemma demo_search:
  "\<exists>s'. findAndConnectToPeers mem_storage pse_codec (demo_swarm\<lparr>MaxConnections := 0\<rparr>) = Inr ([], s')"
proof -
  let ?s = "demo_swarm\<lparr>MaxConnections := 0\<rparr>"
  have "FindValues mem_badger null_json saved_prefix [] = ([], None)"
    by (simp add: FindValues_def mem_badger_def)
  then have "GetHistoryConnected mem_storage pse_codec 0 ?s = Inr []"
    by (simp add: GetHistoryConnected_def mem_storage_def BadgerStorage_def demo_swarm_eq)
  then show ?thesis by (simp add: findAndConnectToPeers_def Let_def demo_swarm_eq)
qed

theorem search_leaks_lock_witness:
  "\<exists>s'. findAndConnectToPeers mem_storage pse_codec (demo_swarm\<lparr>MaxConnections := 0\<rparr>) = Inr ([], s') \<and> 0 < rlocks s'"
proof -
  obtain s' where f: "findAndConnectToPeers mem_storage pse_codec (demo_swarm\<lparr>MaxConnections := 0\<rparr>) = Inr ([], s')"
    using demo_search by blast
  from search_leaks_lock [OF f] have "rlocks (demo_swarm\<lparr>MaxConnections := 0\<rparr>) < rlocks s'" by (simp add: demo_swarm_eq)
  with f show ?thesis by (auto simp: demo_swarm_eq)
qed

end
