(* ===== verification/Connections.thy ===== *)
theory Connections
  imports Swarm
begin

text \<open>
  The loops of \<^verbatim>\<open>PeerWrapper\<close> and of the listener in \<^verbatim>\<open>internal/network/quic.go\<close>, which accept
  connections, streams and datagrams, and what becomes of the gossip frames that they accept: the
  goroutines of \<^verbatim>\<open>handleGossipStream\<close> together with the \<^verbatim>\<open>OnData\<close> callback that the swarm
  installs.

  What the QUIC library gives is a list of outcomes, one for each call that has returned; a loop
  that has consumed its list is blocked in the next call. A loop's result has what it did, and
  whether it has returned.
\<close>

section \<open>The loops\<close>

text \<open>
  One round of \<^verbatim>\<open>AcceptUniLoop\<close>: whether the context was found cancelled at its head, and the
  outcome of accepting a stream. The result has the streams that goroutines were started for.
\<close>

fun AcceptUniLoop :: "(bool \<times> qstream result) list \<Rightarrow> qstream list \<Rightarrow> qstream list \<times> bool" where
  "AcceptUniLoop [] started = (started, False)"
| "AcceptUniLoop ((cancelled, outcome) # rounds) started =
     (if cancelled then (started, True)
      else
        (case outcome of
           Inl err \<Rightarrow> (started, True)
         | Inr stream \<Rightarrow> AcceptUniLoop rounds (started @ [stream])))"

text \<open>The datagrams are printed.\<close>

fun AcceptDatagramLoop :: "(bool \<times> bytes result) list \<Rightarrow> bytes list \<Rightarrow> bytes list \<times> bool" where
  "AcceptDatagramLoop [] printed = (printed, False)"
| "AcceptDatagramLoop ((cancelled, outcome) # rounds) printed =
     (if cancelled then (printed, True)
      else
        (case outcome of
           Inl err \<Rightarrow> (printed, True)
         | Inr msg \<Rightarrow> AcceptDatagramLoop rounds (printed @ [msg])))"

text \<open>
  \<^verbatim>\<open>AcceptStream\<close>: a stream comes with its number. The last component of the result lists the
  streams that \<^verbatim>\<open>onNewStream\<close> was started for, if it is set.
\<close>

definition AcceptStream ::
  "(nat \<times> qstream) result \<Rightarrow> 'c PeerWrapper \<Rightarrow> nat result \<times> 'c PeerWrapper \<times> nat list" where
  "AcceptStream outcome p =
     (case outcome of
        Inl err \<Rightarrow> (Inl err, p, [])
      | Inr (i, q) \<Rightarrow> (Inr i, wrapAndRegister i q p, if pw_onNewStream p then [i] else []))"

fun AcceptStreamLoop ::
  "(nat \<times> qstream) result list \<Rightarrow> 'c PeerWrapper \<Rightarrow> nat list \<Rightarrow> 'c PeerWrapper \<times> nat list \<times> bool" where
  "AcceptStreamLoop [] p started = (p, started, False)"
| "AcceptStreamLoop (outcome # rounds) p started =
     (case outcome of
        Inl err \<Rightarrow> (p, started, True)
      | Inr (i, q) \<Rightarrow>
          (let p' = wrapAndRegister i q p
           in AcceptStreamLoop rounds p' (if pw_onNewStream p then started @ [i] else started)))"

definition OpenBidirectionalStream ::
  "(nat \<times> qstream) result \<Rightarrow> 'c PeerWrapper \<Rightarrow> nat result \<times> 'c PeerWrapper" where
  "OpenBidirectionalStream opened p =
     (case opened of
        Inl err \<Rightarrow> (Inl err, p)
      | Inr (i, q) \<Rightarrow> (Inr i, wrapAndRegister i q p))"

text \<open>
  The loop of \<^verbatim>\<open>AcceptConn\<close>: an error is printed and the loop goes on. The result has the
  connections that goroutines were started for and the errors that were printed.
\<close>

fun AcceptConn :: "'c result list \<Rightarrow> 'c list \<Rightarrow> exn list \<Rightarrow> 'c list \<times> exn list \<times> bool" where
  "AcceptConn [] conns printed = (conns, printed, False)"
| "AcceptConn (outcome # rounds) conns printed =
     (case outcome of
        Inl err \<Rightarrow> AcceptConn rounds conns (printed @ [err])
      | Inr conn \<Rightarrow> AcceptConn rounds (conns @ [conn]) printed)"

section \<open>Gossip from the stream to the dispatcher\<close>

text \<open>The goroutines of a list of accepted streams, one after the other.\<close>

fun run_gossip ::
  "Envelope codec \<Rightarrow> 'c PeerWrapper \<Rightarrow> qstream list \<Rightarrow> 'st Dispatcher \<Rightarrow> panic option \<times> 'st Dispatcher" where
  "run_gossip V p [] d = (None, d)"
| "run_gossip V p (q # qs) d =
     (case handleGossipStream p q of
        (Some x, _) \<Rightarrow> (Some x, d)
      | (None, None) \<Rightarrow> run_gossip V p qs d
      | (None, Some (msgType, payload, peerID)) \<Rightarrow>
          (case OnData_handler V msgType payload peerID d of
             (Some x, d') \<Rightarrow> (Some x, d')
           | (None, d') \<Rightarrow> run_gossip V p qs d'))"

text \<open>
  The specification: a queue of bounded capacity, to which the envelopes that were received are
  appended in order as long as there is room.
\<close>

definition received_env :: "Envelope codec \<Rightarrow> qstream \<Rightarrow> Envelope option" where
  "received_env V q =
     (case fst (readFrame q) of
        Inl _ \<Rightarrow> None
      | Inr (msgType, payload) \<Rightarrow> (case unmarshal V payload of Inl _ \<Rightarrow> None | Inr env \<Rightarrow> Some env))"

definition bounded_append :: "nat \<Rightarrow> 'a list \<Rightarrow> 'a list \<Rightarrow> 'a list" where
  "bounded_append cap xs ys = xs @ take (cap - length xs) ys"

lemma bounded_append_simps [simp]:
  "bounded_append cap xs [] = xs" "cap \<le> length xs \<Longrightarrow> bounded_append cap xs ys = xs"
  "length xs < cap \<Longrightarrow> bounded_append cap xs (y # ys) = bounded_append cap (xs @ [y]) ys"
  by (simp_all add: bounded_append_def Suc_diff_Suc [symmetric] take_Cons')

lemma bounded_append_full:
  "cap \<le> length xs \<Longrightarrow> bounded_append cap xs ys = bounded_append cap xs zs"
  by simp

lemma handleGossipStream_panic: "fst (handleGossipStream p q) \<noteq> None \<longleftrightarrow> is_panic (fst (readFrame q))"
  by (auto simp: handleGossipStream_def is_panic_Inl split: prod.split sum.split)

lemma OnData_received:
  assumes "codec_documented V"
  shows "OnData_handler V t b i d =
    (None, case unmarshal V b of Inl _ \<Rightarrow> d | Inr env \<Rightarrow> fst (PushMessage env i d))"
  using codec_no_panic(2) [OF assms, of b]
  by (auto simp: OnData_handler_def split: sum.split) (metis exn.exhaust exn_panic.simps(1))

text \<open>One goroutine: what it does to the queue.\<close>

lemma run_gossip_Cons:
  assumes "codec_documented V" and "\<not> is_panic (fst (readFrame q))" and "pw_onData p"
  shows "run_gossip V p (q # qs) d = run_gossip V p qs
    (case received_env V q of None \<Rightarrow> d | Some env \<Rightarrow> fst (PushMessage env (pw_peerID p) d))"
proof -
  have "fst (handleGossipStream p q) = None" using assms(2) handleGossipStream_panic [of p q] by auto
  then show ?thesis
    using assms(3) by (auto simp: OnData_received [OF assms(1)] handleGossipStream_def received_env_def
        split: prod.splits sum.splits)
qed

lemma PushMessage_ingress:
  "handlers (fst (PushMessage env i d)) = handlers d \<and>
   ingressChan (fst (PushMessage env i d)) =
     bounded_append ingress_capacity (ingressChan d) [\<lparr>ip_Envelope = env, ip_PeerID = i\<rparr>]"
  by (simp add: PushMessage_def)

lemma bounded_append_append:
  "bounded_append cap (bounded_append cap xs [y]) ys = bounded_append cap xs (y # ys)"
  by (cases "length xs < cap") simp_all

lemma run_gossip_queue:
  assumes V: "codec_documented V" and p: "pw_onData p"
  shows "\<forall>q \<in> set qs. \<not> is_panic (fst (readFrame q)) \<Longrightarrow>
    fst (run_gossip V p qs d) = None \<and> handlers (snd (run_gossip V p qs d)) = handlers d \<and>
    ingressChan (snd (run_gossip V p qs d)) =
      bounded_append ingress_capacity (ingressChan d)
        (map (\<lambda>env. \<lparr>ip_Envelope = env, ip_PeerID = pw_peerID p\<rparr>) (List.map_filter (received_env V) qs))"
proof (induction qs arbitrary: d)
  case (Cons q qs)
  then have "\<not> is_panic (fst (readFrame q))" by simp
  from run_gossip_Cons [OF V this p, of qs d] Cons show ?case
    by (cases "received_env V q")
      (simp_all add: PushMessage_ingress bounded_append_append List.map_filter_simps)
qed (simp add: List.map_filter_simps)

lemma run_gossip_crash:
  assumes V: "codec_documented V" and "q \<in> set qs" and "is_panic (fst (readFrame q))" and p: "pw_onData p"
  shows "fst (run_gossip V p qs d) \<noteq> None"
  using assms(2)
proof (induction qs arbitrary: d)
  case (Cons q' qs)
  show ?case
  proof (cases "is_panic (fst (readFrame q'))")
    case True
    then show ?thesis using handleGossipStream_panic [of p q'] by (auto split: prod.split)
  next
    case False
    with Cons assms(3) have "q \<in> set qs" by auto
    then show ?thesis unfolding run_gossip_Cons [OF V False p] by (rule Cons.IH)
  qed
qed simp

section \<open>What the loops accept\<close>

lemma AcceptUniLoop_accepts:
  "AcceptUniLoop rounds started =
    (let ok = takeWhile (\<lambda>(c, r). \<not> c \<and> \<not> isl r) rounds
     in (started @ map (projr \<circ> snd) ok, length ok < length rounds))"
  by (induction rounds started rule: AcceptUniLoop.induct) (auto simp: Let_def split: sum.split)

lemma AcceptConn_accepts:
  "AcceptConn rounds conns printed =
    (conns @ [c. Inr c \<leftarrow> rounds], printed @ [e. Inl e \<leftarrow> rounds], False)"
  by (induction rounds conns printed rule: AcceptConn.induct) (auto split: sum.split)

lemma AcceptStreamLoop_accepts:
  "AcceptStreamLoop rounds p started =
    (let ok = map projr (takeWhile (\<lambda>r. \<not> isl r) rounds)
     in (p\<lparr>streams := foldl (\<lambda>m (i, q). m(i \<mapsto> NewStream q)) (streams p) ok\<rparr>,
         if pw_onNewStream p then started @ map fst ok else started, length ok < length rounds))"
  by (induction rounds p started rule: AcceptStreamLoop.induct)
    (auto simp: Let_def wrapAndRegister_def split: sum.split)

text \<open>The map that registering a list of streams gives.\<close>

lemma register_streams: "foldl (\<lambda>m (i, q). m(i \<mapsto> f q)) m ok = m ++ map_of (rev (map (\<lambda>(i, q). (i, f q)) ok))"
  by (induction ok arbitrary: m) (auto simp: map_add_assoc [symmetric] map_add_upd_left fun_eq_iff map_add_def split: option.split)

section \<open>Properties\<close>

text \<open>
  C13. Gossip refines a bounded queue: whatever streams the loop accepted, and in whatever order
  its goroutines run, either one of the streams carries a frame of zero bytes and the process
  panics, or the dispatcher's queue afterwards is the old one followed by the envelopes that were
  received, in the order of the goroutines, as many as there was room for. The streams are those
  accepted before the first error or the cancellation.
\<close>

theorem gossip_refines_queue:
  assumes "codec_documented V" and "AcceptUniLoop rounds [] = (started, stopped)" and "mset qs = mset started"
    and "pw_onData p"
  shows "started = map (projr \<circ> snd) (takeWhile (\<lambda>(c, r). \<not> c \<and> \<not> isl r) rounds) \<and>
    (if \<exists>q \<in> set started. is_panic (fst (readFrame q)) then fst (run_gossip V p qs d) \<noteq> None
     else fst (run_gossip V p qs d) = None \<and> handlers (snd (run_gossip V p qs d)) = handlers d \<and>
       ingressChan (snd (run_gossip V p qs d)) = bounded_append ingress_capacity (ingressChan d)
         (map (\<lambda>env. \<lparr>ip_Envelope = env, ip_PeerID = pw_peerID p\<rparr>) (List.map_filter (received_env V) qs)))"
proof -
  have "set qs = set started" using assms(3) by (rule mset_eq_setD)
  then show ?thesis
    using assms(2) run_gossip_queue [OF assms(1,4), of qs d] run_gossip_crash [OF assms(1) _ _ assms(4), of _ qs d]
    by (auto simp: AcceptUniLoop_accepts Let_def)
qed

theorem gossip_refines_queue_witness:
  "\<exists>b. ingressChan (snd (run_gossip env_codec (OnData (NewPeerWrapper 0))
      [demo_stream, demo_stream\<lparr>rbuf := frame TypeGossip b\<rparr>] (demo_dispatcher 4))) =
    [\<lparr>ip_Envelope = \<lparr>env_Data = [1], env_Signature = [2], env_PubKey = [3]\<rparr>, ip_PeerID = zero32\<rparr>]"
proof -
  let ?e = "\<lparr>env_Data = [1], env_Signature = [2], env_PubKey = [3]\<rparr>"
  obtain b where b: "marshal env_codec ?e = Inr b" "length b < 100"
    by (simp add: env_codec_def wire_codec_def rep_env_def enc_pair_def)
  let ?q = "demo_stream\<lparr>rbuf := frame TypeGossip b\<rparr>"
  have "readFrame ?q = (Inr (TypeGossip, b), ?q\<lparr>rbuf := []\<rparr>)"
    using b(2) by (intro readFrame_frame) (simp_all add: framable_def msgtype_defs)
  moreover have "readFrame demo_stream = (Inl (Err (rend demo_stream)), demo_stream)"
    by (simp add: readFrame_def readLengthPrefix_def ReadFull_def demo_stream_def)
  ultimately have "received_env env_codec demo_stream = None" "received_env env_codec ?q = Some ?e"
    "\<not> is_panic (fst (readFrame demo_stream))" "\<not> is_panic (fst (readFrame ?q))"
    using codec_roundtrip [OF env_codec_documented b(1)] by (simp_all add: received_env_def)
  moreover have "ingressChan (demo_dispatcher 4) = []"
    by (simp add: demo_dispatcher_def Registry_def NewDispatcher_def Let_def)
  ultimately show ?thesis
    using gossip_refines_queue [OF env_codec_documented, of "[(False, Inr ?q), (False, Inr demo_stream), (True, Inr ?q)]"
        "[?q, demo_stream]" True "[demo_stream, ?q]" "OnData (NewPeerWrapper 0)" "demo_dispatcher 4"]
    by (auto simp: List.map_filter_simps ingress_capacity_def simp del: run_gossip.simps intro!: exI [of _ b])
qed

text \<open>
  What the accepting loops do: the loop for streams registers, under its number, every stream
  accepted before the first error (the last one of a number stays), calls the handler for each of
  them in order if one is set, and returns at the first error. The loop for connections goes on
  after an error: it starts a goroutine for every connection, however many errors came before,
  and never returns, also when the listener fails for good because the context was cancelled.
\<close>

theorem accept_loops:
  assumes "AcceptStreamLoop rounds p0 [] = (p, started, stopped)" and "streams p0 = Map.empty"
  shows "(let ok = map projr (takeWhile (\<lambda>r. \<not> isl r) rounds) in
      streams p = map_of (rev (map (\<lambda>(i, q). (i, NewStream q)) ok)) \<and>
      started = (if pw_onNewStream p0 then map fst ok else []) \<and> stopped = (\<exists>err. Inl err \<in> set rounds)) \<and>
    AcceptConn crounds [] [] = ([c. Inr c \<leftarrow> crounds], [e. Inl e \<leftarrow> crounds], False)"
proof -
  have "length (takeWhile P xs) < length xs \<longleftrightarrow> (\<exists>x \<in> set xs. \<not> P x)" for P and xs :: "(nat \<times> qstream) result list"
    by (metis length_takeWhile_le less_le takeWhile_eq_all_conv takeWhile_eq_take take_all_iff order_refl)
  then show ?thesis
    using assms by (auto simp: AcceptStreamLoop_accepts AcceptConn_accepts register_streams NewPeerWrapper_def Let_def isl_def)
qed

theorem accept_loops_witness:
  "\<exists>p. AcceptStreamLoop [Inr (4, demo_stream), Inl (Err ErrEOF), Inr (8, demo_stream)] (OnNewStream (NewPeerWrapper (0 :: nat))) [] =
      (p, [4], True) \<and> streams p 8 = None \<and> streams p 4 = Some (NewStream demo_stream) \<and>
    AcceptConn [Inl (Err ErrEOF), Inr (1 :: nat)] [] [] = ([1], [Err ErrEOF], False)"
proof -
  obtain p where p: "AcceptStreamLoop [Inr (4, demo_stream), Inl (Err ErrEOF), Inr (8, demo_stream)] (OnNewStream (NewPeerWrapper (0 :: nat))) [] =
      (p, [4], True)" by simp
  have "streams (OnNewStream (NewPeerWrapper (0 :: nat))) = Map.empty" by (simp add: OnNewStream_def NewPeerWrapper_def)
  from accept_loops [OF p this, of "[Inl (Err ErrEOF), Inr (1 :: nat)]"]
  have "streams p = [4 \<mapsto> NewStream demo_stream]"
    "AcceptConn [Inl (Err ErrEOF), Inr (1 :: nat)] [] [] = ([1], [Err ErrEOF], False)" by (simp_all add: Let_def)
  then have "streams p 8 = None" "streams p 4 = Some (NewStream demo_stream)"
    "AcceptConn [Inl (Err ErrEOF), Inr (1 :: nat)] [] [] = ([1], [Err ErrEOF], False)" by simp_all
  with p show ?thesis by blast
qed

end
