(* ===== verification/Kademlia.thy ===== *)
theory Kademlia
  imports Types
begin

text \<open>
  \<^verbatim>\<open>internal/p2p/dht/kademlia.go\<close>: the bucket of a peer, from the first bit in which its
  identifier differs from the local one, and what that says about the distance of the two
  identifiers in Kademlia's metric (their exclusive or, read as a number).
\<close>

definition IDLength :: nat where "IDLength = 32"

text \<open>\<^verbatim>\<open>bits.Len8\<close> and \<^verbatim>\<open>bits.LeadingZeros8\<close>.\<close>

fun bit_length :: "nat \<Rightarrow> nat" where
  "bit_length n = (if n = 0 then 0 else Suc (bit_length (n div 2)))"

declare bit_length.simps [simp del]

definition LeadingZeros8 :: "byte \<Rightarrow> nat" where
  "LeadingZeros8 x = 8 - bit_length (unat x)"

text \<open>The loop of \<^verbatim>\<open>getBucketIndex\<close> from index \<open>i\<close>.\<close>

function bucket_from :: "nat \<Rightarrow> PeerID \<Rightarrow> PeerID \<Rightarrow> nat" where
  "bucket_from i localID remoteID =
     (if i < IDLength then
        (let x = localID ! i XOR remoteID ! i
         in if x \<noteq> 0 then i * 8 + LeadingZeros8 x else bucket_from (Suc i) localID remoteID)
      else IDLength * 8 - 1)"
  by pat_completeness auto
termination
  by (relation "measure (\<lambda>(i, _, _). IDLength - i)") auto

declare bucket_from.simps [simp del]

definition getBucketIndex :: "PeerID \<Rightarrow> PeerID \<Rightarrow> nat" where
  "getBucketIndex localID remoteID = bucket_from 0 localID remoteID"

section \<open>Lemmas\<close>

lemma bit_length_bounds: "0 < n \<Longrightarrow> 0 < bit_length n \<and> 2 ^ (bit_length n - 1) \<le> n \<and> n < 2 ^ bit_length n"
proof (induction n rule: bit_length.induct)
  case (1 n)
  show ?case
  proof (cases "n div 2 = 0")
    case True
    with 1 have "n = 1" by auto
    then show ?thesis by (simp add: bit_length.simps)
  next
    case False
    then have IH: "0 < bit_length (n div 2)" "2 ^ (bit_length (n div 2) - 1) \<le> n div 2"
      "n div 2 < 2 ^ bit_length (n div 2)"
      using 1 by auto
    have len: "bit_length n = Suc (bit_length (n div 2))" using 1 by (subst bit_length.simps) simp
    obtain m where m: "bit_length (n div 2) = Suc m" using IH(1) by (cases "bit_length (n div 2)") auto
    show ?thesis using IH len m by auto
  qed
qed

lemma LeadingZeros8_bounds:
  assumes "x \<noteq> 0"
  shows "LeadingZeros8 x < 8 \<and> 2 ^ (7 - LeadingZeros8 x) \<le> unat x \<and> unat x < 2 ^ (8 - LeadingZeros8 x)"
proof -
  have pos: "0 < unat x" using assms by (simp add: unat_gt_0)
  have "2 ^ (bit_length (unat x) - 1) < (2 :: nat) ^ 8"
    using bit_length_bounds [OF pos] unat_byte_less [of x] by simp
  then have "bit_length (unat x) - 1 < 8" by (rule power_less_imp_less_exp [rotated]) simp
  then show ?thesis
    using bit_length_bounds [OF pos] by (auto simp: LeadingZeros8_def)
qed

text \<open>Kademlia's metric: identifiers as big-endian numbers, their exclusive or as the distance.\<close>

fun big_endian :: "bytes \<Rightarrow> nat" where
  "big_endian [] = 0"
| "big_endian (b # bs) = unat b * 256 ^ length bs + big_endian bs"

definition xor_distance :: "PeerID \<Rightarrow> PeerID \<Rightarrow> nat" where
  "xor_distance a b = big_endian (map2 (XOR) a b)"

lemma big_endian_less: "big_endian bs < 256 ^ length bs"
proof (induction bs)
  case (Cons b bs)
  have "unat b * 256 ^ length bs + big_endian bs < (unat b + 1) * 256 ^ length bs"
    using Cons by simp
  also have "\<dots> \<le> 256 * 256 ^ length bs"
    using unat_byte_less [of b] by (intro mult_le_mono1) simp
  finally show ?case by simp
qed simp

lemma big_endian_zeros: "\<forall>b \<in> set xs. b = 0 \<Longrightarrow> big_endian (xs @ ys) = big_endian ys"
  by (induction xs) auto

lemma xor_eq_0_iff_eq: "x XOR y = 0 \<longleftrightarrow> x = (y :: byte)"
  by (metis xor.assoc xor_self_eq xor.left_neutral xor.right_neutral)

text \<open>The loop finds the first byte that differs.\<close>

lemma bucket_from_first:
  "i \<le> j \<Longrightarrow> j < IDLength \<Longrightarrow> \<forall>k. i \<le> k \<and> k < j \<longrightarrow> a ! k = b ! k \<Longrightarrow> a ! j \<noteq> b ! j \<Longrightarrow>
    bucket_from i a b = j * 8 + LeadingZeros8 (a ! j XOR b ! j)"
proof (induction i a b rule: bucket_from.induct)
  case (1 i a b)
  show ?case
  proof (cases "i = j")
    case True
    with 1 show ?thesis by (subst bucket_from.simps) (simp add: xor_eq_0_iff_eq)
  next
    case False
    with "1.prems" have "a ! i = b ! i" "Suc i \<le> j" "i < IDLength" by auto
    moreover have "\<forall>k. Suc i \<le> k \<and> k < j \<longrightarrow> a ! k = b ! k" using "1.prems"(3) by auto
    ultimately show ?thesis
      using "1.IH" "1.prems"(2,4) by (subst bucket_from.simps) simp
  qed
qed

lemma bucket_from_same: "\<forall>k < IDLength. a ! k = b ! k \<Longrightarrow> bucket_from i a b = 255"
proof (induction i a b rule: bucket_from.induct)
  case (1 i a b)
  then show ?case by (subst bucket_from.simps) (simp add: IDLength_def)
qed

lemma getBucketIndex_same: "getBucketIndex a a = 255"
  by (simp add: getBucketIndex_def bucket_from_same)

lemma first_difference:
  assumes "length a = IDLength" and "length b = IDLength" and "a \<noteq> b"
  obtains j where "j < IDLength" "\<forall>k < j. a ! k = b ! k" "a ! j \<noteq> b ! j"
proof -
  have "\<exists>j. j < IDLength \<and> a ! j \<noteq> b ! j" using assms by (metis nth_equalityI)
  then obtain j where "j < IDLength \<and> a ! j \<noteq> b ! j" "\<forall>k < j. \<not> (k < IDLength \<and> a ! k \<noteq> b ! k)"
    using exists_least_iff [of "\<lambda>j. j < IDLength \<and> a ! j \<noteq> b ! j"] by blast
  with that show thesis by (metis less_trans)
qed

lemma getBucketIndex_symmetric: "getBucketIndex a b = getBucketIndex b a"
proof -
  have "bucket_from i a b = bucket_from i b a" for i
    by (induction i a b rule: bucket_from.induct)
      (subst bucket_from.simps, subst (2) bucket_from.simps, simp add: Let_def xor.commute)
  then show ?thesis by (simp add: getBucketIndex_def)
qed

lemma xor_distance_first:
  assumes len: "length a = IDLength" "length b = IDLength" and j: "j < IDLength"
    and same: "\<forall>k < j. a ! k = b ! k"
  shows "\<exists>r. xor_distance a b = unat (a ! j XOR b ! j) * 256 ^ (31 - j) + r \<and> r < 256 ^ (31 - j)"
proof -
  let ?d = "map2 (XOR) a b"
  have d: "length ?d = 32" "\<And>k. k < 32 \<Longrightarrow> ?d ! k = a ! k XOR b ! k"
    using len by (simp_all add: IDLength_def)
  have "?d = take j ?d @ ?d ! j # drop (Suc j) ?d"
    using j d(1) by (intro id_take_nth_drop) (simp add: IDLength_def)
  moreover have "\<forall>x \<in> set (take j ?d). x = 0"
    using same d j by (auto simp: in_set_conv_nth IDLength_def)
  ultimately have "big_endian ?d = big_endian (?d ! j # drop (Suc j) ?d)"
    by (metis big_endian_zeros)
  moreover have "length (drop (Suc j) ?d) = 31 - j" using d(1) by simp
  ultimately show ?thesis
    using big_endian_less [of "drop (Suc j) ?d"] d(2) [of j] j
    by (auto simp: xor_distance_def IDLength_def)
qed

text \<open>The index fixes the distance up to a factor of two.\<close>

lemma bucket_bounds:
  assumes "length a = 32" and "length b = 32" and "a \<noteq> b"
  shows "getBucketIndex a b < 256" and "2 ^ (255 - getBucketIndex a b) \<le> xor_distance a b"
    and "xor_distance a b < 2 ^ (256 - getBucketIndex a b)"
proof -
  have len: "length a = IDLength" "length b = IDLength" using assms by (simp_all add: IDLength_def)
  obtain j where j: "j < IDLength" "\<forall>k < j. a ! k = b ! k" "a ! j \<noteq> b ! j"
    using first_difference [OF len assms(3)] by blast
  let ?x = "a ! j XOR b ! j" and ?i = "getBucketIndex a b"
  define z where "z = LeadingZeros8 ?x"
  have i: "?i = j * 8 + z"
    using bucket_from_first [of 0 j a b] j by (simp add: getBucketIndex_def z_def)
  have x: "z < 8" "2 ^ (7 - z) \<le> unat ?x" "unat ?x < 2 ^ (8 - z)"
    using LeadingZeros8_bounds [of ?x] j(3) by (simp_all add: xor_eq_0_iff_eq z_def)
  have j32: "j < 32" using j(1) by (simp add: IDLength_def)
  obtain r where r: "xor_distance a b = unat ?x * 256 ^ (31 - j) + r" "r < 256 ^ (31 - j)"
    using xor_distance_first [OF len j(1,2)] by blast
  have pow: "(256 :: nat) ^ (31 - j) = 2 ^ (8 * (31 - j))" by (simp add: power_mult)
  have "2 ^ (255 - ?i) = (2 :: nat) ^ (7 - z) * 256 ^ (31 - j)"
    unfolding pow i power_add [symmetric] using x(1) j32 by (intro arg_cong [where f = "\<lambda>n. 2 ^ n"]) auto
  also have "\<dots> \<le> unat ?x * 256 ^ (31 - j)" using x(2) by (rule mult_le_mono1)
  also have "\<dots> \<le> xor_distance a b" using r(1) by simp
  finally have lower: "2 ^ (255 - ?i) \<le> xor_distance a b" .
  have "xor_distance a b < (unat ?x + 1) * 256 ^ (31 - j)" using r by simp
  also have "\<dots> \<le> 2 ^ (8 - z) * 256 ^ (31 - j)" using x(3) by (intro mult_le_mono1) simp
  also have "\<dots> = 2 ^ (256 - ?i)"
    unfolding pow i power_add [symmetric] using x(1) j32 by (intro arg_cong [where f = "\<lambda>n. 2 ^ n"]) auto
  finally have upper: "xor_distance a b < 2 ^ (256 - ?i)" .
  show "?i < 256" using i x(1) j32 by simp
  show "2 ^ (255 - ?i) \<le> xor_distance a b" by (fact lower)
  show "xor_distance a b < 2 ^ (256 - ?i)" by (fact upper)
qed

section \<open>Properties\<close>

text \<open>
  C29. The bucket index is the order of magnitude of Kademlia's distance: for two different
  32-byte identifiers the index \<open>i\<close> is below 256, the exclusive or of the identifiers, read
  as a 256-bit number, lies between \<open>2 ^ (255 - i)\<close> and \<open>2 ^ (256 - i)\<close>, the index does not
  depend on which of the two is the local one, and an identifier that is farther away never
  gets a larger index. (Equal identifiers share the last bucket.)
\<close>

theorem getBucketIndex_distance:
  assumes "length a = 32" and "length b = 32" and "length c = 32" and "a \<noteq> b" and "a \<noteq> c"
  shows "getBucketIndex a b < 256 \<and>
    2 ^ (255 - getBucketIndex a b) \<le> xor_distance a b \<and>
    xor_distance a b < 2 ^ (256 - getBucketIndex a b) \<and>
    getBucketIndex b a = getBucketIndex a b \<and>
    (xor_distance a b \<le> xor_distance a c \<longrightarrow> getBucketIndex a c \<le> getBucketIndex a b)"
proof -
  note b = bucket_bounds [OF assms(1,2,4)] and c = bucket_bounds [OF assms(1,3,5)]
  have "getBucketIndex a c \<le> getBucketIndex a b" if closer: "xor_distance a b \<le> xor_distance a c"
  proof (rule ccontr)
    assume "\<not> ?thesis"
    then have "(2 :: nat) ^ (256 - getBucketIndex a c) \<le> 2 ^ (255 - getBucketIndex a b)"
      by (intro power_increasing) auto
    with b(2) c(3) closer show False by linarith
  qed
  with b getBucketIndex_symmetric [of a b] show ?thesis by simp
qed

theorem getBucketIndex_distance_witness:
  "let a = replicate 32 0; b = 0 # replicate 31 1; c = 1 # replicate 31 0 in
   2 ^ (255 - getBucketIndex a b) \<le> xor_distance a b \<and> xor_distance a b < 2 ^ (256 - getBucketIndex a b)"
proof -
  have "replicate 32 (0 :: byte) \<noteq> 0 # replicate 31 1" "replicate 32 (0 :: byte) \<noteq> 1 # replicate 31 0"
    by (auto simp: numeral_eq_Suc)
  then show ?thesis
    using getBucketIndex_distance [of "replicate 32 0" "0 # replicate 31 1" "1 # replicate 31 0"]
    by (simp add: Let_def)
qed

end
