(* ===== verification/Routing_Table.thy ===== *)
theory Routing_Table
  imports Kademlia Storage Messages Wire_Instance
begin

text \<open>
  \<^verbatim>\<open>internal/p2p/dht/routing_table.go\<close>: the k-buckets, one record of the store per bucket,
  each holding at most \<^verbatim>\<open>MaxBucketSize\<close> peers.
\<close>

definition MaxBucketSize :: nat where "MaxBucketSize = 20"

record RoutingTable =
  rt_myPubKey :: PeerPublicKey
  rt_myID :: PeerID

definition NewRoutingTable :: "PeerPublicKey \<Rightarrow> RoutingTable" where
  "NewRoutingTable myPubKey = \<lparr>rt_myPubKey = myPubKey, rt_myID = sha256 myPubKey\<rparr>"

text \<open>An \<^verbatim>\<open>int\<close> index is converted to \<^verbatim>\<open>uint64\<close> and back as a two's complement word.\<close>

definition intToKey :: "bytes \<Rightarrow> int \<Rightarrow> bytes" where
  "intToKey pre index = pre @ put_uint64 (word_of_int index)"

definition keyToInt :: "bytes \<Rightarrow> nat \<Rightarrow> int result" where
  "keyToInt key prefixLen =
     (if length key < prefixLen then Inl (Panic IndexOutOfRange)
      else (case get_uint64 (drop prefixLen key) of
              Inl e \<Rightarrow> Inl e
            | Inr w \<Rightarrow> Inr (sint w)))"

definition routing_prefix :: bytes where
  "routing_prefix = bytes_of_string ''routing_table:''"

definition setInStorage :: "'db Storage \<Rightarrow> int \<Rightarrow> bytes \<Rightarrow> 'db \<Rightarrow> unit result \<times> 'db" where
  "setInStorage S index data db = st_Set S (intToKey routing_prefix index) data db"

definition getFromStorage :: "'db Storage \<Rightarrow> int \<Rightarrow> 'db \<Rightarrow> bytes result" where
  "getFromStorage S index db = st_Get S (intToKey routing_prefix index) db"

definition GetPeers :: "'db Storage \<Rightarrow> KBucket codec \<Rightarrow> int \<Rightarrow> 'db \<Rightarrow> dht_PeerStoreEntry list result" where
  "GetPeers S C index db =
     (case getFromStorage S index db of
        Inl e \<Rightarrow> Inl e
      | Inr fromStorage \<Rightarrow>
        (case unmarshal C fromStorage of
           Inl e \<Rightarrow> Inl e
         | Inr bucket \<Rightarrow> Inr (kb_Peers bucket)))"

definition saveInKBucket ::
  "'db Storage \<Rightarrow> KBucket codec \<Rightarrow> int \<Rightarrow> dht_PeerStoreEntry \<Rightarrow> 'db \<Rightarrow> unit result \<times> 'db" where
  "saveInKBucket S C index peer db =
     (case getFromStorage S index db of
        Inl (Err e) \<Rightarrow>
          if errors_Is e ErrKeyNotFound then
            (case marshal C \<lparr>kb_Index = word_of_int index, kb_Peers = [peer]\<rparr> of
               Inl x \<Rightarrow> (Inl x, db)
             | Inr data \<Rightarrow> setInStorage S index data db)
          else (Inl (Err e), db)
      | Inl (Panic p) \<Rightarrow> (Inl (Panic p), db)
      | Inr bucket \<Rightarrow>
        (case unmarshal C bucket of
           Inl x \<Rightarrow> (Inl x, db)
         | Inr kb \<Rightarrow>
             if MaxBucketSize \<le> length (kb_Peers kb) then (Inl (Err (ErrNew ''bucket cap'')), db)
             else
               (case marshal C (kb\<lparr>kb_Peers := kb_Peers kb @ [peer]\<rparr>) of
                  Inl x \<Rightarrow> (Inl x, db)
                | Inr data \<Rightarrow> setInStorage S index data db)))"

section \<open>Keys\<close>

lemma keyToInt_intToKey:
  assumes "- (2 ^ 63) \<le> i" and "i < 2 ^ 63"
  shows "keyToInt (intToKey p i) (length p) = Inr i"
proof -
  have "sint (word_of_int i :: u64) = i"
    using assms by (simp add: sint_sbintrunc' signed_take_bit_int_eq_self)
  then show ?thesis
    using get_put_uint64 [of "word_of_int i" "[]"] by (simp add: keyToInt_def intToKey_def)
qed

lemma intToKey_inject:
  assumes "0 \<le> i" "i < 2 ^ 63" "0 \<le> j" "j < 2 ^ 63"
  shows "intToKey p i = intToKey p j \<longleftrightarrow> i = j"
proof
  assume "intToKey p i = intToKey p j"
  then have "keyToInt (intToKey p i) (length p) = keyToInt (intToKey p j) (length p)" by simp
  with assms show "i = j" by (simp add: keyToInt_intToKey)
qed simp

lemma intToKey_nonempty [simp]: "intToKey p i \<noteq> []"
  by (simp add: intToKey_def put_uint64_def)

section \<open>The table as a family of lists\<close>

text \<open>
  The abstract view: the peers of a bucket. A bucket that was never written is empty; a record
  that does not decode has no abstract value.
\<close>

definition bucket_of :: "('db \<Rightarrow> bytes \<rightharpoonup> bytes) \<Rightarrow> KBucket codec \<Rightarrow> int \<Rightarrow> 'db \<Rightarrow> dht_PeerStoreEntry list option" where
  "bucket_of view C index db =
     (case view db (intToKey routing_prefix index) of
        None \<Rightarrow> Some []
      | Some b \<Rightarrow> (case unmarshal C b of Inl _ \<Rightarrow> None | Inr kb \<Rightarrow> Some (kb_Peers kb)))"

definition buckets_bounded :: "('db \<Rightarrow> bytes \<rightharpoonup> bytes) \<Rightarrow> KBucket codec \<Rightarrow> 'db \<Rightarrow> bool" where
  "buckets_bounded view C db \<longleftrightarrow>
     (\<forall>i \<in> {0..<256}. \<exists>ps. bucket_of view C i db = Some ps \<and> length ps \<le> MaxBucketSize)"

context kv_storage
begin

lemma GetPeers_bucket:
  assumes "ok db"
  shows "GetPeers S C i db =
    (case view db (intToKey routing_prefix i) of
       None \<Rightarrow> Inl (Err ErrKeyNotFound)
     | Some b \<Rightarrow> (case unmarshal C b of Inl e \<Rightarrow> Inl e | Inr kb \<Rightarrow> Inr (kb_Peers kb)))"
  using assms by (simp add: GetPeers_def getFromStorage_def Get_view split: option.split)

text \<open>A save that succeeds appends to its bucket, which had room, and touches nothing else.\<close>

lemma saveInKBucket_done:
  assumes C: "codec_documented C" and ok: "ok db"
    and save: "saveInKBucket S C i peer db = (Inr u, db')"
  shows "\<exists>ps. bucket_of view C i db = Some ps \<and> length ps < MaxBucketSize \<and>
    bucket_of view C i db' = Some (ps @ [peer]) \<and> GetPeers S C i db' = Inr (ps @ [peer]) \<and> ok db' \<and>
    (\<forall>k. k \<noteq> intToKey routing_prefix i \<longrightarrow> view db' k = view db k)"
proof -
  let ?k = "intToKey routing_prefix i"
  obtain kb data where ps: "bucket_of view C i db = Some (kb_Peers kb)" "length (kb_Peers kb) < MaxBucketSize"
    and data: "marshal C (kb\<lparr>kb_Peers := kb_Peers kb @ [peer]\<rparr>) = Inr data"
    and set: "st_Set S ?k data db = (Inr u, db')"
  proof (cases "view db ?k")
    case None
    then have "marshal C \<lparr>kb_Index = word_of_int i, kb_Peers = [peer]\<rparr> = Inr data \<Longrightarrow>
        st_Set S ?k data db = (Inr u, db') \<Longrightarrow> thesis" for data
      using that [of "\<lparr>kb_Index = word_of_int i, kb_Peers = []\<rparr>" data]
      by (simp add: bucket_of_def MaxBucketSize_def)
    then show thesis
      using save None ok
      by (auto simp: saveInKBucket_def getFromStorage_def setInStorage_def Get_view split: sum.splits)
  next
    case (Some b)
    then show thesis
      using save ok that
      by (auto simp: saveInKBucket_def getFromStorage_def setInStorage_def Get_view bucket_of_def
          not_le split: sum.splits if_splits)
  qed
  have un: "unmarshal C data = Inr (kb\<lparr>kb_Peers := kb_Peers kb @ [peer]\<rparr>)"
    using codec_roundtrip [OF C data] .
  have view: "view db' = (view db)(?k \<mapsto> data)" and ok': "ok db'" using Set_done [OF ok set] by auto
  show ?thesis
    using ps un view ok' by (intro exI [of _ "kb_Peers kb"]) (simp add: bucket_of_def GetPeers_bucket)
qed

lemma saveInKBucket_failed:
  assumes C: "codec_documented C" and ok: "ok db" and save: "saveInKBucket S C i peer db = (Inl e, db')"
  shows "view db' = view db \<and> ok db' \<and> (\<exists>x. e = Err x)"
proof -
  have err: "\<exists>x. y = Err x" if "r = Inl y" "\<not> is_panic r" for r :: "'x result" and y
    using that by (cases y) auto
  note C_err = err [OF _ C [unfolded codec_documented_def, THEN conjunct2, THEN conjunct1, rule_format]]
    err [OF _ C [unfolded codec_documented_def, THEN conjunct2, THEN conjunct2, rule_format]]
  show ?thesis
  proof (cases "view db (intToKey routing_prefix i)")
    case None
    with save ok show ?thesis
      by (auto simp: saveInKBucket_def getFromStorage_def setInStorage_def Get_view
          split: sum.splits dest: Set_failed C_err)
  next
    case (Some b)
    with save ok show ?thesis
      by (auto simp: saveInKBucket_def getFromStorage_def setInStorage_def Get_view
          split: sum.splits if_splits dest: Set_failed C_err)
  qed
qed

lemma saveInKBucket_full:
  assumes ok: "ok db" and "bucket_of view C i db = Some ps" and "MaxBucketSize \<le> length ps"
  shows "saveInKBucket S C i peer db = (Inl (Err (ErrNew ''bucket cap'')), db)"
  using assms
  by (auto simp: saveInKBucket_def getFromStorage_def Get_view bucket_of_def MaxBucketSize_def
      split: option.splits sum.splits)

lemma saveInKBucket_bounded:
  assumes C: "codec_documented C" and ok: "ok db" and i: "i \<in> {0..<256}"
    and inv: "buckets_bounded view C db" and save: "saveInKBucket S C i peer db = (r, db')"
  shows "buckets_bounded view C db'"
proof (cases r)
  case (Inl e)
  then show ?thesis
    using saveInKBucket_failed [OF C ok] save inv by (simp add: buckets_bounded_def bucket_of_def)
next
  case (Inr u)
  then obtain ps where ps: "length ps < MaxBucketSize" "bucket_of view C i db' = Some (ps @ [peer])"
    and frame: "\<forall>k. k \<noteq> intToKey routing_prefix i \<longrightarrow> view db' k = view db k"
    using saveInKBucket_done [OF C ok] save by blast
  have "bucket_of view C j db' = bucket_of view C j db" if "j \<in> {0..<256}" "j \<noteq> i" for j
    using that i frame by (simp add: bucket_of_def intToKey_inject)
  with ps inv show ?thesis
    unfolding buckets_bounded_def by (metis Suc_leI length_append_singleton)
qed

end

end
