(* ===== verification/Merkle_Dag.thy ===== *)
theory Merkle_Dag
  imports Storage Messages Wire_Instance
begin

text \<open>
  \<^verbatim>\<open>internal/p2p/dht/merkle_dag.go\<close>: files cut into chunks, each encoded as a node and
  stored under the hash of its encoding, and a root node with the hashes of the chunks.
\<close>

definition ChunkSize :: nat where "ChunkSize = 1024 * 256"

definition dagStorageKey :: bytes where
  "dagStorageKey = bytes_of_string ''dag_storage:''"

definition dag_key :: "bytes \<Rightarrow> bytes" where
  "dag_key h = dagStorageKey @ h"

definition saveAndHashData :: "'db Storage \<Rightarrow> bytes \<Rightarrow> 'db \<Rightarrow> bytes result \<times> 'db" where
  "saveAndHashData S data db =
     (let hashKey = sha256 data; key = dag_key hashKey
      in (case st_Set S key data db of
            (Inl e, db') \<Rightarrow> (Inl e, db')
          | (Inr _, db') \<Rightarrow> (Inr hashKey, db')))"

definition getDataByHash :: "'db Storage \<Rightarrow> bytes \<Rightarrow> 'db \<Rightarrow> bytes result" where
  "getDataByHash S hashedID db = st_Get S (dag_key hashedID) db"

definition createMetaLink :: "MerkleNode codec \<Rightarrow> bytes \<Rightarrow> bytes list \<Rightarrow> u64 \<Rightarrow> bytes result" where
  "createMetaLink C data links sz =
     marshal C \<lparr>mn_Type = MerkleNode_META_LINK, mn_Data = data, mn_Links = links, mn_Size = sz\<rparr>"

definition createFileChunk :: "MerkleNode codec \<Rightarrow> bytes \<Rightarrow> u64 \<Rightarrow> bytes result" where
  "createFileChunk C data sz =
     marshal C \<lparr>mn_Type = MerkleNode_FILE_CHUNK, mn_Data = data, mn_Links = [], mn_Size = sz\<rparr>"

text \<open>The loop over the chunks, from offset \<open>i\<close>, with the keys collected so far.\<close>

function chunk_loop ::
  "'db Storage \<Rightarrow> MerkleNode codec \<Rightarrow> bytes \<Rightarrow> nat \<Rightarrow> bytes list \<Rightarrow> 'db \<Rightarrow> bytes list result \<times> 'db" where
  "chunk_loop S C file i keys db =
     (if i < length file then
        (let e = (if length file < i + ChunkSize then length file else i + ChunkSize);
             part = take (e - i) (drop i file)
         in (case createFileChunk C part (word_of_nat (length part)) of
               Inl x \<Rightarrow> (Inl x, db)
             | Inr chunk \<Rightarrow>
               (case saveAndHashData S chunk db of
                  (Inl x, db') \<Rightarrow> (Inl x, db')
                | (Inr key, db') \<Rightarrow> chunk_loop S C file (i + ChunkSize) (keys @ [key]) db')))
      else (Inr keys, db))"
  by pat_completeness auto
termination
  by (relation "measure (\<lambda>(S, C, file, i, keys, db). length file - i)") (auto simp: ChunkSize_def)

declare chunk_loop.simps [simp del]

definition calculateFileChunk :: "'db Storage \<Rightarrow> MerkleNode codec \<Rightarrow> bytes \<Rightarrow> 'db \<Rightarrow> bytes result \<times> 'db" where
  "calculateFileChunk S C file db =
     (if length file \<le> ChunkSize then
        (case createMetaLink C file [] (word_of_nat (length file)) of
           Inl e \<Rightarrow> (Inl e, db)
         | Inr metaLink \<Rightarrow> saveAndHashData S metaLink db)
      else
        (case chunk_loop S C file 0 [] db of
           (Inl e, db') \<Rightarrow> (Inl e, db')
         | (Inr fileChunksKeys, db') \<Rightarrow>
           (case createMetaLink C [] fileChunksKeys (word_of_nat (length file)) of
              Inl e \<Rightarrow> (Inl e, db')
            | Inr metaLink \<Rightarrow> saveAndHashData S metaLink db')))"

text \<open>
  The error of decoding a child is dropped: what the target struct holds after a failed
  \<^verbatim>\<open>Unmarshal\<close> is up to the library and is the argument \<open>leftover\<close>.
\<close>

fun child_loop ::
  "'db Storage \<Rightarrow> MerkleNode codec \<Rightarrow> (bytes \<Rightarrow> MerkleNode) \<Rightarrow> bytes list \<Rightarrow> bytes \<Rightarrow> 'db \<Rightarrow> bytes result" where
  "child_loop S C leftover [] fullFile db = Inr fullFile"
| "child_loop S C leftover (childKey # ks) fullFile db =
     (case getDataByHash S childKey db of
        Inl e \<Rightarrow> Inl e
      | Inr childBytes \<Rightarrow>
          (let childNode = (case unmarshal C childBytes of Inl _ \<Rightarrow> leftover childBytes | Inr n \<Rightarrow> n)
           in child_loop S C leftover ks (fullFile @ mn_Data childNode) db))"

text \<open>
  The capacity of \<^verbatim>\<open>fullFile\<close> is the size that the stored root claims, a \<^verbatim>\<open>uint64\<close>: one that is no
  \<^verbatim>\<open>int\<close> makes \<^verbatim>\<open>make\<close> panic. (Whether there is memory for a smaller one is not modelled.)
\<close>

definition findFileByID ::
  "'db Storage \<Rightarrow> MerkleNode codec \<Rightarrow> (bytes \<Rightarrow> MerkleNode) \<Rightarrow> bytes \<Rightarrow> 'db \<Rightarrow> bytes result" where
  "findFileByID S C leftover i db =
     (case getDataByHash S i db of
        Inl e \<Rightarrow> Inl e
      | Inr nodeBytes \<Rightarrow>
        (case unmarshal C nodeBytes of
           Inl e \<Rightarrow> Inl e
         | Inr node \<Rightarrow>
             if mn_Type node = MerkleNode_META_LINK then
               if 0 < length (mn_Data node) then Inr (mn_Data node)
               else if 2 ^ 63 \<le> unat (mn_Size node)
                 then Inl (Panic (ExplicitPanic ''makeslice: cap out of range''))
               else child_loop S C leftover (mn_Links node) [] db
             else Inr (mn_Data node)))"

definition hashExists :: "'db Storage \<Rightarrow> bytes \<Rightarrow> 'db \<Rightarrow> bool" where
  "hashExists S hash db = st_Exists S (dag_key hash) db"

section \<open>The nodes of a file\<close>

text \<open>The pieces of a file from offset \<open>i\<close>, independently of any store.\<close>

function pieces :: "bytes \<Rightarrow> nat \<Rightarrow> bytes list" where
  "pieces data i =
     (if i < length data then take ChunkSize (drop i data) # pieces data (i + ChunkSize) else [])"
  by pat_completeness auto
termination
  by (relation "measure (\<lambda>(data, i). length data - i)") (auto simp: ChunkSize_def)

declare pieces.simps [simp del]

lemma concat_pieces: "concat (pieces data i) = drop i data"
proof (induction data i rule: pieces.induct)
  case (1 data i)
  show ?case
  proof (cases "i < length data")
    case True
    with 1 have "concat (pieces data (i + ChunkSize)) = drop (i + ChunkSize) data" by simp
    then have "concat (pieces data i) = take ChunkSize (drop i data) @ drop ChunkSize (drop i data)"
      using True by (subst pieces.simps) (simp add: add.commute)
    then show ?thesis by (simp only: append_take_drop_id)
  qed (simp add: pieces.simps)
qed

lemma pieces_size: "p \<in> set (pieces data i) \<Longrightarrow> 0 < length p \<and> length p \<le> ChunkSize"
proof (induction data i rule: pieces.induct)
  case (1 data i)
  then show ?case
    by (subst (asm) (2) pieces.simps) (auto simp: ChunkSize_def split: if_splits)
qed

definition chunk_node :: "bytes \<Rightarrow> MerkleNode" where
  "chunk_node p =
     \<lparr>mn_Type = MerkleNode_FILE_CHUNK, mn_Data = p, mn_Links = [], mn_Size = word_of_nat (length p)\<rparr>"

definition root_node :: "MerkleNode codec \<Rightarrow> bytes \<Rightarrow> MerkleNode" where
  "root_node C file =
     (if length file \<le> ChunkSize
      then \<lparr>mn_Type = MerkleNode_META_LINK, mn_Data = file, mn_Links = [], mn_Size = word_of_nat (length file)\<rparr>
      else \<lparr>mn_Type = MerkleNode_META_LINK, mn_Data = [],
        mn_Links = map (\<lambda>p. sha256 (projr (marshal C (chunk_node p)))) (pieces file 0),
        mn_Size = word_of_nat (length file)\<rparr>)"

definition file_nodes :: "MerkleNode codec \<Rightarrow> bytes \<Rightarrow> MerkleNode set" where
  "file_nodes C file =
     insert (root_node C file) (if length file \<le> ChunkSize then {} else chunk_node ` set (pieces file 0))"

text \<open>The encodings that saving a file stores.\<close>

definition node_encodings :: "MerkleNode codec \<Rightarrow> bytes \<Rightarrow> bytes set" where
  "node_encodings C file = {b. \<exists>n \<in> file_nodes C file. marshal C n = Inr b}"

lemma createFileChunk_node: "createFileChunk C p (word_of_nat (length p)) = marshal C (chunk_node p)"
  by (simp add: createFileChunk_def chunk_node_def)

lemma chunk_part: "take ((if n < i + c then n else i + c) - i) (drop i file) = take c (drop i file)"
  if "n = length file"
  using that by (simp add: min_def)

lemma chunk_loop_step:
  "i < length file \<Longrightarrow> chunk_loop S C file i keys db =
     (let p = take ChunkSize (drop i file) in
      (case marshal C (chunk_node p) of
         Inl x \<Rightarrow> (Inl x, db)
       | Inr chunk \<Rightarrow>
         (case saveAndHashData S chunk db of
            (Inl x, db') \<Rightarrow> (Inl x, db')
          | (Inr key, db') \<Rightarrow> chunk_loop S C file (i + ChunkSize) (keys @ [key]) db')))"
  by (subst chunk_loop.simps)
    (simp only: Let_def if_True chunk_part [OF refl] createFileChunk_node)

section \<open>Saving and reading back\<close>

definition saved :: "(bytes \<rightharpoonup> bytes) \<Rightarrow> bytes set \<Rightarrow> bool" where
  "saved m B \<longleftrightarrow> (\<forall>b \<in> B. m (dag_key (sha256 b)) = Some b)"

definition piece_key :: "MerkleNode codec \<Rightarrow> bytes \<Rightarrow> bytes" where
  "piece_key C p = sha256 (projr (marshal C (chunk_node p)))"

text \<open>The store outside the namespace of the DAG.\<close>

definition same_elsewhere :: "(bytes \<rightharpoonup> bytes) \<Rightarrow> (bytes \<rightharpoonup> bytes) \<Rightarrow> bool" where
  "same_elsewhere m m' \<longleftrightarrow> (\<forall>k. \<not> prefix dagStorageKey k \<longrightarrow> m' k = m k)"

lemma dag_key_nonempty [simp]: "dag_key h \<noteq> []"
  by (simp add: dag_key_def dagStorageKey_def bytes_of_string_def)

lemma dag_key_inject [simp]: "dag_key h = dag_key h' \<longleftrightarrow> h = h'"
  by (simp add: dag_key_def)

lemma same_elsewhere_refl [simp]: "same_elsewhere m m"
  by (simp add: same_elsewhere_def)

lemma same_elsewhere_trans: "same_elsewhere m m' \<Longrightarrow> same_elsewhere m' m'' \<Longrightarrow> same_elsewhere m m''"
  by (simp add: same_elsewhere_def)

lemma saved_insert:
  assumes "inj_on sha256 N" and "B \<subseteq> N" and "b \<in> N" and "saved m B"
  shows "saved (m(dag_key (sha256 b) \<mapsto> b)) (insert b B)"
  using assms unfolding saved_def by (auto dest: inj_onD)

lemma node_encodingsI:
  "marshal C (root_node C data) = Inr b \<Longrightarrow> b \<in> node_encodings C data"
  "ChunkSize < length data \<Longrightarrow> p \<in> set (pieces data 0) \<Longrightarrow> marshal C (chunk_node p) = Inr b \<Longrightarrow>
    b \<in> node_encodings C data"
  by (auto simp: node_encodings_def file_nodes_def)

lemma createMetaLink_root:
  "length data \<le> ChunkSize \<Longrightarrow>
    createMetaLink C data [] (word_of_nat (length data)) = marshal C (root_node C data)"
  "ChunkSize < length data \<Longrightarrow>
    createMetaLink C [] (map (piece_key C) (pieces data 0)) (word_of_nat (length data)) = marshal C (root_node C data)"
  by (simp_all add: createMetaLink_def root_node_def piece_key_def [abs_def])

text \<open>What it means that a file is stored under a key.\<close>

definition stored :: "MerkleNode codec \<Rightarrow> (bytes \<rightharpoonup> bytes) \<Rightarrow> bytes \<Rightarrow> bytes \<Rightarrow> bool" where
  "stored C m key data \<longleftrightarrow>
     (\<exists>b. marshal C (root_node C data) = Inr b \<and> key = sha256 b) \<and>
     (\<forall>n \<in> file_nodes C data. \<exists>b. marshal C n = Inr b) \<and> saved m (node_encodings C data)"

lemma unat_length [simp]: "length (data :: bytes) < 2 ^ 63 \<Longrightarrow> unat (word_of_nat (length data) :: 64 word) = length data"
  by (simp add: unat_of_nat take_bit_nat_eq_self)

context kv_storage
begin

lemma saveAndHashData_done:
  assumes "ok db" and "saveAndHashData S b db = (Inr key, db')"
  shows "key = sha256 b \<and> ok db' \<and> view db' = (view db)(dag_key (sha256 b) \<mapsto> b)"
  using assms Set_done [of db "dag_key (sha256 b)" b]
  by (auto simp: saveAndHashData_def Let_def split: sum.splits prod.splits)

lemma saveAndHashData_failed:
  assumes "ok db" and "saveAndHashData S b db = (Inl e, db')"
  shows "ok db' \<and> view db' = view db \<and> (\<exists>x. e = Err x)"
  using assms Set_failed [of db "dag_key (sha256 b)" b]
  by (auto simp: saveAndHashData_def Let_def split: sum.splits prod.splits)

lemma saveAndHashData_elsewhere:
  assumes "ok db" and "saveAndHashData S b db = (r, db')"
  shows "ok db' \<and> same_elsewhere (view db) (view db')"
proof (cases r)
  case (Inl e)
  with assms show ?thesis by (simp add: saveAndHashData_failed)
next
  case (Inr key)
  with assms saveAndHashData_done [of db b key db'] show ?thesis
    by (simp add: same_elsewhere_def dag_key_def)
qed

text \<open>
  The loop stores the encoding of every piece under its hash and returns the hashes in order;
  no encoding displaces another as long as the hash does not collide on them.
\<close>

lemma chunk_loop_done:
  assumes inj: "inj_on sha256 N"
  shows "ok db \<Longrightarrow> B \<subseteq> N \<Longrightarrow> saved (view db) B \<Longrightarrow>
    (\<forall>p \<in> set (pieces data i). \<forall>b. marshal C (chunk_node p) = Inr b \<longrightarrow> b \<in> N) \<Longrightarrow>
    chunk_loop S C data i keys db = (Inr ks, db') \<Longrightarrow>
    ok db' \<and> ks = keys @ map (piece_key C) (pieces data i) \<and> saved (view db') B \<and>
    (\<forall>p \<in> set (pieces data i). \<exists>b. marshal C (chunk_node p) = Inr b \<and> b \<in> N \<and> saved (view db') {b})"
proof (induction data i arbitrary: B keys db rule: pieces.induct)
  case (1 data i)
  show ?case
  proof (cases "i < length data")
    case False
    then show ?thesis using "1.prems" by (auto simp: chunk_loop.simps pieces.simps)
  next
    case True
    let ?p = "take ChunkSize (drop i data)"
    have pieces: "pieces data i = ?p # pieces data (i + ChunkSize)"
      using True by (subst pieces.simps) simp
    obtain b key db1 where b: "marshal C (chunk_node ?p) = Inr b"
      and save: "saveAndHashData S b db = (Inr key, db1)"
      and rest: "chunk_loop S C data (i + ChunkSize) (keys @ [key]) db1 = (Inr ks, db')"
      using "1.prems"(5) True by (auto simp: chunk_loop_step Let_def split: sum.splits prod.splits)
    have post: "key = sha256 b" "ok db1" "view db1 = (view db)(dag_key (sha256 b) \<mapsto> b)"
      using saveAndHashData_done [OF "1.prems"(1) save] by auto
    have bN: "b \<in> N" using "1.prems"(4) pieces b by simp
    have "saved (view db1) (insert b B)"
      unfolding post(3) by (rule saved_insert [OF inj "1.prems"(2) bN "1.prems"(3)])
    then have "ok db' \<and> ks = (keys @ [key]) @ map (piece_key C) (pieces data (i + ChunkSize)) \<and>
      saved (view db') (insert b B) \<and>
      (\<forall>p \<in> set (pieces data (i + ChunkSize)).
        \<exists>b. marshal C (chunk_node p) = Inr b \<and> b \<in> N \<and> saved (view db') {b})"
      using "1.prems" bN pieces by (intro "1.IH" [OF True post(2) _ _ _ rest]) auto
    then show ?thesis
      unfolding pieces using b bN post(1) by (auto simp: piece_key_def saved_def)
  qed
qed

lemma chunk_loop_elsewhere:
  "ok db \<Longrightarrow> chunk_loop S C data i keys db = (r, db') \<Longrightarrow> ok db' \<and> same_elsewhere (view db) (view db')"
proof (induction data i arbitrary: keys db rule: pieces.induct)
  case (1 data i)
  show ?case
  proof (cases "i < length data")
    case False
    then show ?thesis using "1.prems" by (auto simp: chunk_loop.simps)
  next
    case True
    then show ?thesis
      using "1.prems" "1.IH"
      by (fastforce simp: chunk_loop_step Let_def split: sum.splits prod.splits
          dest: saveAndHashData_elsewhere same_elsewhere_trans)
  qed
qed

lemma child_loop_pieces:
  assumes ok: "ok db" and C: "codec_documented C"
  shows "\<forall>p \<in> set ps. \<exists>b. marshal C (chunk_node p) = Inr b \<and> saved (view db) {b} \<Longrightarrow>
    child_loop S C leftover (map (piece_key C) ps) acc db = Inr (acc @ concat ps)"
proof (induction ps arbitrary: acc)
  case (Cons p ps)
  then obtain b where b: "marshal C (chunk_node p) = Inr b" "saved (view db) {b}" by auto
  then have "getDataByHash S (piece_key C p) db = Inr b"
    using ok by (simp add: getDataByHash_def Get_view piece_key_def saved_def)
  moreover have "unmarshal C b = Inr (chunk_node p)" using codec_roundtrip [OF C b(1)] .
  ultimately show ?case using Cons by (simp add: chunk_node_def)
qed simp

text \<open>
  Whatever becomes of a save, no encoding of the collision-free set \<open>N\<close> that was stored before is
  lost.
\<close>

lemma saveAndHashData_keeps:
  assumes "inj_on sha256 N" and "b \<in> N" and "B \<subseteq> N" and "ok db" and "saved (view db) B"
    and "saveAndHashData S b db = (r, db')"
  shows "ok db' \<and> saved (view db') B"
proof (cases r)
  case (Inl e)
  with assms saveAndHashData_failed [of db b e db'] show ?thesis by simp
next
  case (Inr key)
  with assms saveAndHashData_done [of db b key db'] saved_insert [OF assms(1,3,2,5)] show ?thesis
    by (auto simp: saved_def)
qed

lemma chunk_loop_keeps:
  assumes inj: "inj_on sha256 N" and B: "B \<subseteq> N"
  shows "ok db \<Longrightarrow> saved (view db) B \<Longrightarrow>
    (\<forall>p \<in> set (pieces data i). \<forall>b. marshal C (chunk_node p) = Inr b \<longrightarrow> b \<in> N) \<Longrightarrow>
    chunk_loop S C data i keys db = (r, db') \<Longrightarrow> ok db' \<and> saved (view db') B"
proof (induction data i arbitrary: keys db rule: pieces.induct)
  case (1 data i)
  show ?case
  proof (cases "i < length data")
    case False
    then show ?thesis using "1.prems" by (auto simp: chunk_loop.simps)
  next
    case True
    let ?p = "take ChunkSize (drop i data)"
    have pieces: "pieces data i = ?p # pieces data (i + ChunkSize)"
      using True by (subst pieces.simps) simp
    show ?thesis
    proof (cases "marshal C (chunk_node ?p)")
      case (Inl e)
      then show ?thesis using "1.prems" True by (auto simp: chunk_loop_step Let_def)
    next
      case (Inr b)
      obtain r1 db1 where save: "saveAndHashData S b db = (r1, db1)" by force
      have "b \<in> N" using "1.prems"(3) pieces Inr by simp
      from saveAndHashData_keeps [OF inj this B "1.prems"(1,2) save]
      have "ok db1" "saved (view db1) B" by simp_all
      then show ?thesis
        using "1.prems"(3,4) "1.IH" [OF True] True Inr save pieces
        by (auto simp: chunk_loop_step Let_def split: sum.splits)
    qed
  qed
qed

lemma calculateFileChunk_done:
  assumes inj: "inj_on sha256 N" and N: "node_encodings C data \<subseteq> N" and ok: "ok db"
    and calc: "calculateFileChunk S C data db = (Inr key, db')"
  shows "ok db' \<and> stored C (view db') key data"
proof -
  obtain b B db1 where root: "marshal C (root_node C data) = Inr b"
    and save: "saveAndHashData S b db1 = (Inr key, db')" and ok1: "ok db1"
    and B: "B \<subseteq> N" "saved (view db1) B" "node_encodings C data = insert b B"
    and all: "\<forall>n \<in> file_nodes C data. \<exists>b. marshal C n = Inr b"
  proof (cases "length data \<le> ChunkSize")
    case True
    with calc ok that [of _ db "{}"] show thesis
      by (auto simp: calculateFileChunk_def createMetaLink_root saved_def file_nodes_def node_encodings_def
          split: sum.splits)
  next
    case False
    then obtain ks db1 where loop: "chunk_loop S C data 0 [] db = (Inr ks, db1)"
      using calc by (auto simp: calculateFileChunk_def split: sum.splits prod.splits)
    let ?P = "set (pieces data 0)"
    have "\<forall>p \<in> ?P. \<forall>b. marshal C (chunk_node p) = Inr b \<longrightarrow> b \<in> N"
      using N False node_encodingsI(2) [of data] by auto
    then have l: "ok db1" "ks = map (piece_key C) (pieces data 0)"
      and s: "\<forall>p \<in> ?P. \<exists>b. marshal C (chunk_node p) = Inr b \<and> b \<in> N \<and> saved (view db1) {b}"
      using chunk_loop_done [OF inj ok _ _ _ loop, of "{}"] by (simp_all add: saved_def)
    let ?B = "{b. \<exists>p \<in> ?P. marshal C (chunk_node p) = Inr b}"
    have "?B \<subseteq> N" "saved (view db1) ?B" using s by (fastforce simp: saved_def)+
    with calc loop False l s that [of _ db1 ?B] show thesis
      by (auto simp: calculateFileChunk_def createMetaLink_root file_nodes_def node_encodings_def
          split: sum.splits)
  qed
  have post: "key = sha256 b" "ok db'" "view db' = (view db1)(dag_key (sha256 b) \<mapsto> b)"
    using saveAndHashData_done [OF ok1 save] by auto
  have "saved (view db') (insert b B)"
    unfolding post(3) using N B(1,3) by (intro saved_insert [OF inj B(1) _ B(2)]) auto
  with post root all B(3) show ?thesis by (simp add: stored_def)
qed

lemma calculateFileChunk_keeps:
  assumes inj: "inj_on sha256 N" and N: "node_encodings C data \<subseteq> N" "B \<subseteq> N" and ok: "ok db"
    and B: "saved (view db) B" and calc: "calculateFileChunk S C data db = (r, db')"
  shows "ok db' \<and> saved (view db') B"
proof -
  have root: "ok db' \<and> saved (view db') B"
    if k: "ok db1" "saved (view db1) B"
      and rest: "(case marshal C (root_node C data) of Inl e \<Rightarrow> (Inl e, db1) | Inr b \<Rightarrow> saveAndHashData S b db1) = (r, db')"
    for db1
  proof (cases "marshal C (root_node C data)")
    case (Inl e)
    with k rest show ?thesis by simp
  next
    case (Inr b)
    with N(1) node_encodingsI(1) have b: "b \<in> N" by blast
    from rest Inr have "saveAndHashData S b db1 = (r, db')" by simp
    then show ?thesis by (rule saveAndHashData_keeps [OF inj b N(2) k])
  qed
  show ?thesis
  proof (cases "length data \<le> ChunkSize")
    case True
    with calc show ?thesis by (intro root [OF ok B]) (simp add: calculateFileChunk_def createMetaLink_root)
  next
    case False
    obtain r1 db1 where loop: "chunk_loop S C data 0 [] db = (r1, db1)" by force
    have all: "\<forall>p \<in> set (pieces data 0). \<forall>b. marshal C (chunk_node p) = Inr b \<longrightarrow> b \<in> N"
      using N(1) False node_encodingsI(2) [of data] by auto
    have k: "ok db1" "saved (view db1) B" using chunk_loop_keeps [OF inj N(2) ok B all loop] by simp_all
    show ?thesis
    proof (cases r1)
      case (Inl e)
      with calc loop False k show ?thesis by (auto simp: calculateFileChunk_def)
    next
      case (Inr ks)
      have "ks = map (piece_key C) (pieces data 0)"
        using chunk_loop_done [OF inj ok _ _ all loop [unfolded Inr], of "{}"] by (simp add: saved_def)
      with calc loop False Inr show ?thesis
        by (intro root [OF k]) (simp add: calculateFileChunk_def createMetaLink_root)
    qed
  qed
qed

lemma stored_find:
  assumes ok: "ok db" and C: "codec_documented C" and len: "length data < 2 ^ 63"
    and st: "stored C (view db) key data"
  shows "findFileByID S C leftover key db = Inr data"
proof -
  obtain b where root: "marshal C (root_node C data) = Inr b" and key: "key = sha256 b"
    using st by (auto simp: stored_def)
  have "view db (dag_key key) = Some b"
    using st node_encodingsI(1) [OF root] key by (simp add: stored_def saved_def)
  then have get: "getDataByHash S key db = Inr b" using ok by (simp add: getDataByHash_def Get_view)
  have un: "unmarshal C b = Inr (root_node C data)" using codec_roundtrip [OF C root] .
  show ?thesis
  proof (cases "length data \<le> ChunkSize")
    case True
    with len have "\<not> 2 ^ 63 \<le> unat (word_of_nat (length data) :: 64 word)" by simp
    with True show ?thesis using get un by (cases data) (simp_all add: findFileByID_def root_node_def)
  next
    case False
    have "\<forall>p \<in> set (pieces data 0). \<exists>c. marshal C (chunk_node p) = Inr c \<and> saved (view db) {c}"
      using st False node_encodingsI(2) [of data] by (fastforce simp: stored_def saved_def file_nodes_def)
    then have "child_loop S C leftover (map (piece_key C) (pieces data 0)) [] db = Inr data"
      using child_loop_pieces [OF ok C] by (simp add: concat_pieces)
    then show ?thesis
      using False len get un by (simp add: findFileByID_def root_node_def piece_key_def [abs_def])
  qed
qed

lemma calculateFileChunk_elsewhere:
  assumes "ok db" and "calculateFileChunk S C data db = (r, db')"
  shows "ok db' \<and> same_elsewhere (view db) (view db')"
proof (cases "length data \<le> ChunkSize")
  case True
  with assms show ?thesis
    by (auto simp: calculateFileChunk_def split: sum.splits dest: saveAndHashData_elsewhere)
next
  case False
  obtain r1 db1 where loop: "chunk_loop S C data 0 [] db = (r1, db1)" by force
  have el: "ok db1" "same_elsewhere (view db) (view db1)"
    using chunk_loop_elsewhere [OF assms(1) loop] by auto
  have "ok db' \<and> same_elsewhere (view db1) (view db')"
    using assms(2) False loop el(1)
    by (auto simp: calculateFileChunk_def split: sum.splits dest: saveAndHashData_elsewhere)
  with el(2) show ?thesis by (blast intro: same_elsewhere_trans)
qed

text \<open>Only the hashes of the file's encoded nodes become keys.\<close>

lemma saveAndHashData_keys:
  assumes "ok db" and "saveAndHashData S b db = (Inr key, db')" and "h \<noteq> sha256 b"
  shows "ok db' \<and> view db' (dag_key h) = view db (dag_key h)"
  using saveAndHashData_done [OF assms(1,2)] assms(3) by simp

lemma chunk_loop_keys:
  "ok db \<Longrightarrow> chunk_loop S C data i keys db = (Inr ks, db') \<Longrightarrow>
    (\<forall>p \<in> set (pieces data i). \<forall>b. marshal C (chunk_node p) = Inr b \<longrightarrow> h \<noteq> sha256 b) \<Longrightarrow>
    ok db' \<and> ks = keys @ map (piece_key C) (pieces data i) \<and> view db' (dag_key h) = view db (dag_key h)"
proof (induction data i arbitrary: keys db rule: pieces.induct)
  case (1 data i)
  show ?case
  proof (cases "i < length data")
    case False
    then show ?thesis using "1.prems" by (auto simp: chunk_loop.simps pieces.simps)
  next
    case True
    let ?p = "take ChunkSize (drop i data)"
    have pieces: "pieces data i = ?p # pieces data (i + ChunkSize)"
      using True by (subst pieces.simps) simp
    obtain b key db1 where b: "marshal C (chunk_node ?p) = Inr b"
      and save: "saveAndHashData S b db = (Inr key, db1)"
      and rest: "chunk_loop S C data (i + ChunkSize) (keys @ [key]) db1 = (Inr ks, db')"
      using "1.prems"(2) True by (auto simp: chunk_loop_step Let_def split: sum.splits prod.splits)
    have "ok db1 \<and> key = sha256 b \<and> view db1 (dag_key h) = view db (dag_key h)"
      using saveAndHashData_done [OF "1.prems"(1) save] "1.prems"(3) pieces b by simp
    then show ?thesis
      using "1.IH" [OF True _ rest] "1.prems"(3) b by (simp add: pieces piece_key_def)
  qed
qed

lemma calculateFileChunk_keys:
  assumes ok: "ok db" and calc: "calculateFileChunk S C data db = (Inr key, db')"
    and h: "h \<notin> sha256 ` node_encodings C data"
  shows "hashExists S h db' = hashExists S h db"
proof -
  have root: "h \<noteq> sha256 b" if "marshal C (root_node C data) = Inr b" for b
    using that h by (auto simp: node_encodings_def file_nodes_def)
  have "ok db' \<and> view db' (dag_key h) = view db (dag_key h)"
  proof (cases "length data \<le> ChunkSize")
    case True
    with calc root ok show ?thesis
      by (auto simp: calculateFileChunk_def createMetaLink_def root_node_def split: sum.splits
          dest: saveAndHashData_keys)
  next
    case False
    then obtain ks db1 b where loop: "chunk_loop S C data 0 [] db = (Inr ks, db1)"
      and b: "createMetaLink C [] ks (word_of_nat (length data)) = Inr b"
      and save: "saveAndHashData S b db1 = (Inr key, db')"
      using calc by (auto simp: calculateFileChunk_def split: sum.splits prod.splits)
    have "\<forall>p \<in> set (pieces data 0). \<forall>b. marshal C (chunk_node p) = Inr b \<longrightarrow> h \<noteq> sha256 b"
      using h False by (auto simp: node_encodings_def file_nodes_def)
    then have l: "ok db1" "ks = map (piece_key C) (pieces data 0)" "view db1 (dag_key h) = view db (dag_key h)"
      using chunk_loop_keys [OF ok loop, of h] by auto
    then have "marshal C (root_node C data) = Inr b"
      using b False by (simp add: createMetaLink_def root_node_def piece_key_def [abs_def])
    with l saveAndHashData_keys [OF l(1) save root] show ?thesis by simp
  qed
  with ok show ?thesis by (simp add: hashExists_def Exists_view)
qed

end

end
