(* ===== verification/Dht.thy ===== *)
theory Dht
  imports Routing_Table Merkle_Dag
begin

text \<open>
  \<^verbatim>\<open>internal/p2p/dht/dht.go\<close>: the distributed hash table as its clients see it, on top of
  the routing table and the Merkle DAG, which share one store under different key prefixes.
\<close>

record DHT =
  dht_myPubKey :: PeerPublicKey
  dht_myID :: PeerID
  dht_routingTable :: RoutingTable

definition NewDHT :: "PeerPublicKey \<Rightarrow> DHT" where
  "NewDHT myPubKey =
     \<lparr>dht_myPubKey = myPubKey, dht_myID = sha256 myPubKey, dht_routingTable = NewRoutingTable myPubKey\<rparr>"

definition GetNearPeers ::
  "'db Storage \<Rightarrow> KBucket codec \<Rightarrow> DHT \<Rightarrow> PeerID \<Rightarrow> 'db \<Rightarrow> dht_PeerStoreEntry list result" where
  "GetNearPeers S C d peerID db = GetPeers S C (int (getBucketIndex (dht_myID d) peerID)) db"

definition SavePeer ::
  "'db Storage \<Rightarrow> KBucket codec \<Rightarrow> DHT \<Rightarrow> PeerID \<Rightarrow> bytes \<Rightarrow> bytes \<Rightarrow> u64 \<Rightarrow> u32 \<Rightarrow> 'db \<Rightarrow>
   unit result \<times> 'db" where
  "SavePeer S C d peerID PubKey addr lastSeen trustScore db =
     (let index = getBucketIndex (dht_myID d) peerID;
          peer = \<lparr>dpe_PubKey = PubKey, dpe_HashId = peerID, dpe_LastKnownAddr = addr,
            dpe_LastSeen = lastSeen, dpe_TrustScore = trustScore\<rparr>
      in saveInKBucket S C (int index) peer db)"

text \<open>For a file that is found to exist the code returns a nil key and a nil error.\<close>

definition SaveFile :: "'db Storage \<Rightarrow> MerkleNode codec \<Rightarrow> bytes \<Rightarrow> 'db \<Rightarrow> bytes option result \<times> 'db" where
  "SaveFile S C file db =
     (let hash = sha256 file
      in if hashExists S hash db then (Inr None, db)
         else (case calculateFileChunk S C file db of
                 (Inl e, db') \<Rightarrow> (Inl e, db')
               | (Inr metaLinkKey, db') \<Rightarrow> (Inr (Some metaLinkKey), db')))"

definition GetFileChunk ::
  "'db Storage \<Rightarrow> MerkleNode codec \<Rightarrow> (bytes \<Rightarrow> MerkleNode) \<Rightarrow> bytes \<Rightarrow> 'db \<Rightarrow> bytes result" where
  "GetFileChunk S C leftover chunkHash db = findFileByID S C leftover chunkHash db"

definition CalculateDistance :: "DHT \<Rightarrow> PeerID \<Rightarrow> nat" where
  "CalculateDistance d peerID = getBucketIndex (dht_myID d) peerID"

section \<open>The two parts do not share keys\<close>

lemma routing_key_not_dag [key_simps, simp]: "\<not> prefix dagStorageKey (intToKey routing_prefix i)"
  by (simp add: dagStorageKey_def routing_prefix_def intToKey_def bytes_of_string_def)

lemma getBucketIndex_range:
  "length a = 32 \<Longrightarrow> length b = 32 \<Longrightarrow> int (getBucketIndex a b) \<in> {0..<256}"
  using bucket_bounds(1) [of a b] by (cases "a = b") (simp_all add: getBucketIndex_same)

section \<open>Histories\<close>

text \<open>The operations that change the store, and what a sequence of them leaves.\<close>

datatype dht_op =
    OpSavePeer PeerID bytes bytes u64 u32
  | OpSaveFile bytes

fun dht_step :: "'db Storage \<Rightarrow> KBucket codec \<Rightarrow> MerkleNode codec \<Rightarrow> DHT \<Rightarrow> dht_op \<Rightarrow> 'db \<Rightarrow> 'db" where
  "dht_step S CB CN d (OpSavePeer i k a l t) db = snd (SavePeer S CB d i k a l t db)"
| "dht_step S CB CN d (OpSaveFile file) db = snd (SaveFile S CN file db)"

fun dht_run :: "'db Storage \<Rightarrow> KBucket codec \<Rightarrow> MerkleNode codec \<Rightarrow> DHT \<Rightarrow> dht_op list \<Rightarrow> 'db \<Rightarrow> 'db" where
  "dht_run S CB CN d [] db = db"
| "dht_run S CB CN d (x # xs) db = dht_run S CB CN d xs (dht_step S CB CN d x db)"

fun op_wf :: "dht_op \<Rightarrow> bool" where
  "op_wf (OpSavePeer i k a l t) = (length i = 32)"
| "op_wf (OpSaveFile file) = True"

context kv_storage
begin

lemma SaveFile_elsewhere:
  assumes "ok db" and "SaveFile S C data db = (r, db')"
  shows "ok db' \<and> same_elsewhere (view db) (view db')"
  using assms calculateFileChunk_elsewhere [of db C data]
  by (auto simp: SaveFile_def Let_def split: if_splits sum.splits prod.splits)

lemma buckets_bounded_elsewhere:
  assumes "same_elsewhere (view db) (view db')" and "buckets_bounded view C db"
  shows "buckets_bounded view C db'"
proof -
  have "bucket_of view C i db' = bucket_of view C i db" for i
    using assms(1) by (simp add: bucket_of_def same_elsewhere_def)
  with assms(2) show ?thesis by (simp add: buckets_bounded_def)
qed

lemma dht_step_bounded:
  assumes C: "codec_documented CB" and d: "length (dht_myID d) = 32" and x: "op_wf x"
    and ok: "ok db" and inv: "buckets_bounded view CB db"
  shows "ok (dht_step S CB CN d x db) \<and> buckets_bounded view CB (dht_step S CB CN d x db)"
proof (cases x)
  case (OpSavePeer i k a l t)
  then have i: "int (getBucketIndex (dht_myID d) i) \<in> {0..<256}"
    using d x by (simp only: op_wf.simps getBucketIndex_range)
  obtain r db' where sv: "SavePeer S CB d i k a l t db = (r, db')" by force
  then have "saveInKBucket S CB (int (getBucketIndex (dht_myID d) i))
      \<lparr>dpe_PubKey = k, dpe_HashId = i, dpe_LastKnownAddr = a, dpe_LastSeen = l, dpe_TrustScore = t\<rparr> db = (r, db')"
    by (simp add: SavePeer_def Let_def)
  moreover from this have "ok db'"
    using saveInKBucket_done [OF C ok] saveInKBucket_failed [OF C ok] by (cases r) blast+
  ultimately show ?thesis
    using saveInKBucket_bounded [OF C ok i inv] OpSavePeer sv by simp
next
  case (OpSaveFile data)
  obtain r db' where "SaveFile S CN data db = (r, db')" by force
  with OpSaveFile SaveFile_elsewhere [OF ok this] inv buckets_bounded_elsewhere [of db db' CB]
  show ?thesis by simp
qed

lemma dht_run_bounded:
  "codec_documented CB \<Longrightarrow> length (dht_myID d) = 32 \<Longrightarrow> \<forall>x \<in> set xs. op_wf x \<Longrightarrow> ok db \<Longrightarrow>
    buckets_bounded view CB db \<Longrightarrow>
    ok (dht_run S CB CN d xs db) \<and> buckets_bounded view CB (dht_run S CB CN d xs db)"
  by (induction xs arbitrary: db) (auto simp: dht_step_bounded)

lemma SavePeer_near:
  assumes C: "codec_documented C" and ok: "ok db"
    and sv: "SavePeer S C d i k a l t db = (Inr u, db')"
  shows "\<exists>ps. bucket_of view C (int (getBucketIndex (dht_myID d) i)) db = Some ps \<and>
    length ps < MaxBucketSize \<and>
    GetNearPeers S C d i db' = Inr (ps @ [\<lparr>dpe_PubKey = k, dpe_HashId = i, dpe_LastKnownAddr = a,
      dpe_LastSeen = l, dpe_TrustScore = t\<rparr>])"
  using saveInKBucket_done [OF C ok, of "int (getBucketIndex (dht_myID d) i)"] sv
  by (force simp: SavePeer_def GetNearPeers_def Let_def)

lemma SavePeer_others:
  assumes C: "codec_documented C" and ok: "ok db" and sv: "SavePeer S C d i k a l t db = (r, db')"
    and len: "length (dht_myID d) = 32" "length i = 32" "length j = 32"
    and other: "getBucketIndex (dht_myID d) j \<noteq> getBucketIndex (dht_myID d) i"
  shows "GetNearPeers S C d j db' = GetNearPeers S C d j db"
proof -
  let ?i = "int (getBucketIndex (dht_myID d) i)" and ?j = "int (getBucketIndex (dht_myID d) j)"
  have keys: "intToKey routing_prefix ?j \<noteq> intToKey routing_prefix ?i"
    using other getBucketIndex_range [OF len(1,2)] getBucketIndex_range [OF len(1,3)]
    by (simp add: intToKey_inject)
  have "ok db' \<and> view db' (intToKey routing_prefix ?j) = view db (intToKey routing_prefix ?j)"
  proof (cases r)
    case (Inl e)
    then show ?thesis
      using saveInKBucket_failed [OF C ok] sv by (fastforce simp: SavePeer_def Let_def)
  next
    case (Inr u)
    then show ?thesis
      using saveInKBucket_done [OF C ok] sv keys by (fastforce simp: SavePeer_def Let_def)
  qed
  then show ?thesis using ok by (simp add: GetNearPeers_def GetPeers_bucket)
qed

end

section \<open>Properties\<close>

text \<open>
  C2. A file that was saved can be read back: on a Badger database that behaves as documented,
  with a protobuf codec that decodes what it encoded, a file (of any length that a slice can
  have, cut into chunks or not) that \<^verbatim>\<open>SaveFile\<close> reports as stored under a key is what \<^verbatim>\<open>GetFileChunk\<close> returns for
  that key, as long as SHA-256 does not collide on the encodings of the file's own nodes; and
  nothing outside the namespace of the DAG has changed.
\<close>

theorem file_roundtrip:
  assumes "badger_db B json view ok" and "codec_documented C" and "ok db"
    and "inj_on sha256 (node_encodings C data)" and "length data < 2 ^ 63"
    and "SaveFile (BadgerStorage B json) C data db = (Inr (Some key), db')"
  shows "GetFileChunk (BadgerStorage B json) C leftover key db' = Inr data \<and>
    same_elsewhere (view db) (view db')"
proof -
  note kv = badger_kv [OF assms(1)]
  have "calculateFileChunk (BadgerStorage B json) C data db = (Inr key, db')"
    using assms(6) by (auto simp: SaveFile_def Let_def split: if_splits sum.splits prod.splits)
  from kv_storage.calculateFileChunk_done [OF kv assms(4) _ assms(3) this]
    kv_storage.stored_find [OF kv _ assms(2,5)] kv_storage.SaveFile_elsewhere [OF kv assms(3,6)]
  show ?thesis by (simp add: GetFileChunk_def)
qed

definition demo_store :: "memdb Storage" where
  "demo_store = BadgerStorage mem_badger null_json"

lemma node_encodings_small:
  "length data \<le> ChunkSize \<Longrightarrow> node_encodings C data = {b. marshal C (root_node C data) = Inr b}"
  by (simp add: node_encodings_def file_nodes_def)

lemma inj_on_small: "length data \<le> ChunkSize \<Longrightarrow> inj_on sha256 (node_encodings C data)"
  by (auto simp: node_encodings_small inj_on_def)

lemma demo_SaveFile:
  assumes "length data \<le> ChunkSize"
  shows "\<exists>key db'. SaveFile demo_store node_codec data [] = (Inr (Some key), db')"
proof -
  obtain b where "marshal node_codec (root_node node_codec data) = Inr b"
    using codecs_total(3) by blast
  with assms have "createMetaLink node_codec data [] (word_of_nat (length data)) = Inr b"
    by (simp add: createMetaLink_def root_node_def)
  with assms show ?thesis
    by (simp add: SaveFile_def demo_store_def calculateFileChunk_def saveAndHashData_def hashExists_def
        BadgerStorage_def Exists_def Set_def Update_def mem_badger_def Let_def)
qed

theorem file_roundtrip_witness:
  "\<exists>key db'. SaveFile demo_store node_codec [104, 105] [] = (Inr (Some key), db') \<and>
     GetFileChunk demo_store node_codec (\<lambda>b. chunk_node []) key db' = Inr [104, 105]"
proof -
  have size: "length [104, 105 :: byte] \<le> ChunkSize" by (simp add: ChunkSize_def)
  obtain key db' where save: "SaveFile demo_store node_codec [104, 105] [] = (Inr (Some key), db')"
    using demo_SaveFile [OF size] by blast
  show ?thesis
    using file_roundtrip [OF mem.badger_db_axioms node_codec_documented _ inj_on_small [OF size]
        _ save [unfolded demo_store_def]] save
    by (auto simp: mem_ok_def demo_store_def)
qed

text \<open>
  \<^verbatim>\<open>SaveFile\<close> asks whether the hash of the whole file is a key of the DAG, but stores the
  file under the hashes of its encoded nodes. So after a file was stored for the first time,
  asking for it again does not find it, unless SHA-256 maps the file and one of its encoded
  nodes to the same value: the check for a file that is already there does not fire.
\<close>

theorem SaveFile_again_not_found:
  assumes "badger_db B json view ok" and "ok db"
    and "SaveFile (BadgerStorage B json) C data db = (Inr (Some key), db')"
  shows "\<not> hashExists (BadgerStorage B json) (sha256 data) db' \<or>
    (\<exists>b \<in> node_encodings C data. sha256 data = sha256 b)"
proof (cases "sha256 data \<in> sha256 ` node_encodings C data")
  case False
  let ?S = "BadgerStorage B json"
  note kv = badger_kv [OF assms(1)]
  have new: "\<not> hashExists ?S (sha256 data) db"
    and calc: "calculateFileChunk ?S C data db = (Inr key, db')"
    using assms(3) by (auto simp: SaveFile_def Let_def split: if_splits sum.splits prod.splits)
  have "hashExists ?S (sha256 data) db' = hashExists ?S (sha256 data) db"
    by (rule kv_storage.calculateFileChunk_keys [OF kv assms(2) calc False])
  with new show ?thesis by simp
qed auto

theorem SaveFile_again_not_found_witness:
  "\<exists>key db'. SaveFile demo_store node_codec [104, 105] [] = (Inr (Some key), db') \<and>
     sha256 [104, 105] \<in> {k. \<not> hashExists demo_store k db'} \<union> sha256 ` node_encodings node_codec [104, 105]"
proof -
  obtain key db' where save: "SaveFile demo_store node_codec [104, 105] [] = (Inr (Some key), db')"
    using demo_SaveFile [of "[104, 105]"] by (auto simp: ChunkSize_def)
  then show ?thesis
    using SaveFile_again_not_found [OF mem.badger_db_axioms _ save [unfolded demo_store_def]]
    by (auto simp: mem_ok_def demo_store_def)
qed

text \<open>
  Saving a peer: when \<^verbatim>\<open>SavePeer\<close> succeeds the peer's bucket had fewer than 20 entries
  and a lookup of that peer then returns the old entries followed by exactly the saved one, and
  a lookup of any identifier in another bucket returns what it returned before.
\<close>

theorem SavePeer_GetNearPeers:
  assumes "badger_db B json view ok" and "codec_documented C" and "ok db"
    and "SavePeer (BadgerStorage B json) C (NewDHT pub) i k a l t db = (Inr u, db')"
    and "length i = 32"
  shows "(\<exists>ps. bucket_of view C (int (CalculateDistance (NewDHT pub) i)) db = Some ps \<and> length ps < 20 \<and>
      GetNearPeers (BadgerStorage B json) C (NewDHT pub) i db' =
        Inr (ps @ [\<lparr>dpe_PubKey = k, dpe_HashId = i, dpe_LastKnownAddr = a, dpe_LastSeen = l,
          dpe_TrustScore = t\<rparr>])) \<and>
    (\<forall>j. length j = 32 \<and> CalculateDistance (NewDHT pub) j \<noteq> CalculateDistance (NewDHT pub) i \<longrightarrow>
      GetNearPeers (BadgerStorage B json) C (NewDHT pub) j db' =
      GetNearPeers (BadgerStorage B json) C (NewDHT pub) j db)"
proof -
  note kv = badger_kv [OF assms(1)]
  have "length (dht_myID (NewDHT pub)) = 32" by (simp add: NewDHT_def)
  then show ?thesis
    using kv_storage.SavePeer_near [OF kv assms(2,3,4)]
      kv_storage.SavePeer_others [OF kv assms(2,3,4) _ assms(5)]
    by (auto simp: CalculateDistance_def MaxBucketSize_def)
qed

theorem SavePeer_GetNearPeers_witness:
  "\<exists>db' p. SavePeer demo_store bucket_codec (NewDHT [1]) (sha256 [2]) [2] [97] 7 100 [] = (Inr (), db') \<and>
     GetNearPeers demo_store bucket_codec (NewDHT [1]) (sha256 [2]) db' = Inr [p] \<and> dpe_PubKey p = [2]"
proof -
  let ?d = "NewDHT [1]"
  obtain db' where save:
    "SavePeer demo_store bucket_codec ?d (sha256 [2]) [2] [97] 7 100 [] = (Inr (), db')"
    by (simp add: SavePeer_def saveInKBucket_def getFromStorage_def setInStorage_def demo_store_def
        BadgerStorage_def Get_def Read_def Set_def Update_def mem_badger_def bucket_codec_def
        wire_codec_def Let_def)
  have "bucket_of map_of bucket_codec (int (CalculateDistance ?d (sha256 [2]))) [] = Some []"
    by (simp add: bucket_of_def)
  with save show ?thesis
    using SavePeer_GetNearPeers [OF mem.badger_db_axioms bucket_codec_documented _
        save [unfolded demo_store_def]]
    by (auto simp: mem_ok_def demo_store_def)
qed

text \<open>
  C14. No bucket ever overflows: whatever sequence of peers and files a node saves, in
  whatever order and whether or not the individual operations succeed, every one of the 256
  buckets still decodes and holds at most 20 peers.
\<close>

theorem dht_buckets_bounded:
  assumes "badger_db B json view ok" and "codec_documented CB" and "ok db"
    and "buckets_bounded view CB db" and "\<forall>x \<in> set xs. op_wf x"
  shows "buckets_bounded view CB (dht_run (BadgerStorage B json) CB CN (NewDHT pub) xs db)"
  using kv_storage.dht_run_bounded [OF badger_kv [OF assms(1)] assms(2) _ assms(5,3,4)]
  by (simp add: NewDHT_def)

theorem dht_buckets_bounded_witness:
  "buckets_bounded map_of bucket_codec
     (dht_run demo_store bucket_codec node_codec (NewDHT [1])
        (replicate 30 (OpSavePeer (sha256 [2]) [2] [97] 7 100) @ [OpSaveFile [104, 105]]) [])"
proof -
  have "buckets_bounded map_of bucket_codec []" by (simp add: buckets_bounded_def bucket_of_def)
  then show ?thesis
    unfolding demo_store_def
    by (intro dht_buckets_bounded [OF mem.badger_db_axioms bucket_codec_documented])
      (auto simp: mem_ok_def)
qed

end
