(* ===== verification/Content.thy ===== *)
theory Content
  imports Swarm Dht
begin

text \<open>
  The services that are not written yet, \<^verbatim>\<open>internal/services/content/service.go\<close> and
  \<^verbatim>\<open>internal/services/kademlia/service.go\<close>, and the addresses of the machine in
  \<^verbatim>\<open>internal/identity/ip.go\<close> and \<^verbatim>\<open>internal/identity/stun_ident.go\<close>. No node registers the services: asking one for its types panics, and
  neither handler keeps the contract of a service for any type.
\<close>

section \<open>The stubs\<close>

record ('db, 'c) ContentService =
  cs_db :: 'db
  cs_swarm :: "('db, 'c) Swarm"
  cs_dht :: DHT

record 'db KademliaService =
  ks_db :: "'db option"

definition NewContentService :: "'db \<Rightarrow> ('db, 'c) Swarm \<Rightarrow> DHT \<Rightarrow> ('db, 'c) ContentService" where
  "NewContentService db swarm dht = \<lparr>cs_db = db, cs_swarm = swarm, cs_dht = dht\<rparr>"

text \<open>The session manager is asked for and not used.\<close>

definition DownloadFile ::
  "ContentHash \<Rightarrow> PeerPublicKey \<Rightarrow> ('db, 'c) ContentService \<Rightarrow> ('db, 'c) ContentService" where
  "DownloadFile fileHash peerID c = (let _ = GetSessionManager (cs_swarm c) in c)"

text \<open>The store is left nil.\<close>

definition NewKademliaService :: "'db KademliaService" where
  "NewKademliaService = \<lparr>ks_db = None\<rparr>"

definition Content_GetSubscribedTypes :: "payload_type option list result" where
  "Content_GetSubscribedTypes = Inl (Panic (ExplicitPanic ''implement me''))"

definition Content_Handle :: "'st Handler" where
  "Content_Handle msg peerID st = (Some (ExplicitPanic ''implement me''), st)"

definition Kademlia_GetSubscribedTypes :: "payload_type option list result" where
  "Kademlia_GetSubscribedTypes = Inl (Panic (ExplicitPanic ''implement me''))"

definition Kademlia_Handle :: "'st Handler" where
  "Kademlia_Handle msg peerID st = (Some (ExplicitPanic ''implement me''), st)"

lemma stubs_keep_no_contract:
  assumes "service (Content_Handle :: 'st Handler) ts P \<or> service (Kademlia_Handle :: 'st Handler) ts P"
    and "TypeOf (Payload m) \<in> set ts"
  shows "\<not> P m"
  using assms by (auto simp: service_def Content_Handle_def Kademlia_Handle_def)

section \<open>The local address\<close>

text \<open>
  An address of an interface: an IP network, with whether it is a loopback address, whether it has
  a form of four bytes, and its text; or something else.
\<close>

datatype net_addr = IPNet bool bool bytes | OtherAddr

fun local_ip_loop :: "net_addr list \<Rightarrow> bytes result" where
  "local_ip_loop [] = Inl (Err (ErrNew ''local IP not found''))"
| "local_ip_loop (IPNet loopback has4 txt # addrs) =
     (if \<not> loopback \<and> has4 then Inr txt else local_ip_loop addrs)"
| "local_ip_loop (OtherAddr # addrs) = local_ip_loop addrs"

definition GetLocalIP :: "net_addr list result \<Rightarrow> bytes result" where
  "GetLocalIP addrs = (case addrs of Inl e \<Rightarrow> Inl e | Inr as \<Rightarrow> local_ip_loop as)"

lemma GetLocalIP_Inr_iff:
  "GetLocalIP (Inr addrs) = Inr txt \<longleftrightarrow>
    (\<exists>pre post. addrs = pre @ IPNet False True txt # post \<and> (\<forall>t. IPNet False True t \<notin> set pre))"
  (is "?l addrs \<longleftrightarrow> ?r addrs")
proof (induction addrs)
  case (Cons a addrs)
  have step: "?r (a # addrs) \<longleftrightarrow> (if \<exists>t. a = IPNet False True t then a = IPNet False True txt else ?r addrs)"
    by (auto simp: Cons_eq_append_conv) (metis list.set_intros(1) set_ConsD)+
  from Cons show ?case
    unfolding step by (cases a) (auto simp: GetLocalIP_def)
qed (simp add: GetLocalIP_def)

section \<open>The outbound address\<close>

text \<open>\<open>dial\<close> is \<^verbatim>\<open>net.Dial\<close> over UDP, with the text of the local address of the connection.\<close>

definition GetOutboundIP :: "(bytes \<Rightarrow> bytes result) \<Rightarrow> bytes result" where
  "GetOutboundIP dial =
     (case dial (bytes_of_string ''8.8.8.8:80'') of
        Inl err \<Rightarrow> Inl err
      | Inr localIP \<Rightarrow> Inr localIP)"

text \<open>
  \<^verbatim>\<open>StunIdent\<close>: what the STUN library gives is an event for the callback, if the callback is called,
  and the error of \<^verbatim>\<open>Do\<close>. An event has an error, or a message from which the mapped address can be
  read or not. The callback only prints its errors. \<open>None\<close> is waiting for ever.
\<close>

record xor_address =
  xa_IP :: bytes
  xa_Port :: nat

datatype stun_event = StunError error | StunMessage "xor_address result"

definition stun_callback :: "stun_event \<Rightarrow> xor_address \<Rightarrow> xor_address" where
  "stun_callback res xorAddr =
     (case res of
        StunError e \<Rightarrow> xorAddr
      | StunMessage (Inl e) \<Rightarrow> xorAddr
      | StunMessage (Inr a) \<Rightarrow> a)"

definition StunIdent ::
  "(xor_address \<Rightarrow> bytes) \<Rightarrow> (bytes \<Rightarrow> unit result) \<Rightarrow> stun_event option \<Rightarrow> unit result \<Rightarrow> bytes result option" where
  "StunIdent addr_String dial event did =
     (case dial (bytes_of_string ''stun.l.google.com:19302'') of
        Inl err \<Rightarrow> Some (Inl (Err (ErrNew ''no connection to the STUN server'')))
      | Inr _ \<Rightarrow>
        (let zero = \<lparr>xa_IP = [], xa_Port = 0\<rparr>;
             xorAddr = (case event of None \<Rightarrow> zero | Some res \<Rightarrow> stun_callback res zero)
         in (case did of
               Inl err \<Rightarrow> Some (Inl (Err (ErrNew ''error when calling Do'')))
             | Inr _ \<Rightarrow> (case event of None \<Rightarrow> None | Some _ \<Rightarrow> Some (Inr (addr_String xorAddr))))))"

text \<open>An error of the request is lost: the zero address is the result, and no error.\<close>

lemma StunIdent_loses_errors:
  assumes "dial (bytes_of_string ''stun.l.google.com:19302'') = Inr u"
  shows "StunIdent addr_String dial (Some (StunError e)) (Inr v) = Some (Inr (addr_String \<lparr>xa_IP = [], xa_Port = 0\<rparr>))"
  using assms by (simp add: StunIdent_def stun_callback_def)

lemma StunIdent_Inr_iff:
  assumes "dial (bytes_of_string ''stun.l.google.com:19302'') = Inr u"
  shows "StunIdent addr_String dial event (Inr v) = None \<longleftrightarrow> event = None"
  using assms by (simp add: StunIdent_def Let_def split: option.split)

end
