(* ===== verification/Gossip.thy ===== *)
theory Gossip
  imports Swarm
begin

text \<open>
  \<^verbatim>\<open>internal/p2p/gossip/manager.go\<close>: the flooding of a message to the active peers, with the
  set of message identifiers that were seen and the hop limit of the message.

  A broadcast starts one goroutine per recipient; the model returns these sends as a list. The
  message is passed by pointer and its hop limit is decremented in place: the result has the
  message as the caller sees it afterwards.
\<close>

record Manager =
  seenCache :: "MessageID \<Rightarrow> bool"

definition NewManager :: Manager where
  "NewManager = \<lparr>seenCache = (\<lambda>_. False)\<rparr>"

record send =
  to_peer :: PeerID
  send_type :: MessageType
  send_msg :: MessageData

text \<open>
  The loop over the peers; the origin's bytes are converted to an array in every round.
\<close>

fun broadcast_loop ::
  "MessageType \<Rightarrow> MessageData \<Rightarrow> 'c Peer list \<Rightarrow> send list \<Rightarrow> panic option \<times> send list" where
  "broadcast_loop t m [] sends = (None, sends)"
| "broadcast_loop t m (peer # peers) sends =
     (case to_array 32 (OriginId m) of
        Inl e \<Rightarrow> (exn_panic e, sends)
      | Inr origin \<Rightarrow>
          if p_id peer = origin then broadcast_loop t m peers sends
          else broadcast_loop t m peers (sends @ [\<lparr>to_peer = p_id peer, send_type = t, send_msg = m\<rparr>]))"

text \<open>\<open>order\<close> is the order in which the map of peers is visited.\<close>

definition Broadcast ::
  "uuid_lib \<Rightarrow> PeerID list \<Rightarrow> ('db, 'c) Swarm \<Rightarrow> MessageType \<Rightarrow> MessageData \<Rightarrow> Manager \<Rightarrow>
   panic option \<times> send list \<times> MessageData \<times> Manager" where
  "Broadcast U order s msgType msgData g =
     (case ParseMessageID U (MessageId msgData) of
        Inl e \<Rightarrow> (exn_panic e, [], msgData, g)
      | Inr mesID \<Rightarrow>
          if seenCache g mesID then (None, [], msgData, g)
          else
            (let g = g\<lparr>seenCache := (seenCache g)(mesID := True)\<rparr>;
                 msgData = msgData\<lparr>HopLimit := HopLimit msgData - 1\<rparr>
             in if HopLimit msgData \<le> 0 then (None, [], msgData, g)
                else
                  (let (p, sends) = broadcast_loop msgType msgData (GetAllPeers order s) []
                   in (p, sends, msgData, g))))"

definition HandleIncoming ::
  "uuid_lib \<Rightarrow> PeerID list \<Rightarrow> ('db, 'c) Swarm \<Rightarrow> MessageType \<Rightarrow> MessageData \<Rightarrow> Manager \<Rightarrow>
   panic option \<times> send list \<times> MessageData \<times> Manager" where
  "HandleIncoming U order s msgType msgData g =
     (case ParseMessageID U (MessageId msgData) of
        Inl e \<Rightarrow> (exn_panic e, [], msgData, g)
      | Inr mesID \<Rightarrow>
          if seenCache g mesID then (None, [], msgData, g)
          else Broadcast U order s msgType msgData g)"

section \<open>Lemmas\<close>

lemma broadcast_loop_long:
  "32 \<le> length (OriginId m) \<Longrightarrow> broadcast_loop t m ps sends =
    (None, sends @ map (\<lambda>p. \<lparr>to_peer = p_id p, send_type = t, send_msg = m\<rparr>)
      (filter (\<lambda>p. p_id p \<noteq> take 32 (OriginId m)) ps))"
  by (induction t m ps sends rule: broadcast_loop.induct) (simp_all add: to_array_def)

lemma broadcast_loop_short:
  "length (OriginId m) < 32 \<Longrightarrow> broadcast_loop t m ps sends =
    (if ps = [] then None else Some SliceToArrayLength, sends)"
  by (cases ps) (simp_all add: to_array_def)

lemma GetAllPeers_ids:
  assumes "swarm_ok s" and "visits order s"
  shows "map p_id (GetAllPeers order s) = order"
proof -
  have "p_id (peer_heap s ! the (activePeers s i)) = i" if "i \<in> set order" for i
    using that assms swarm_okD(1) [OF assms(1)] by (auto simp: visits_def)
  then show ?thesis by (simp add: GetAllPeers_def map_idI comp_def)
qed

lemma sends_of_order:
  assumes "swarm_ok s" and "visits order s" and "32 \<le> length (OriginId m)"
  shows "broadcast_loop t m (GetAllPeers order s) [] =
    (None, map (\<lambda>i. \<lparr>to_peer = i, send_type = t, send_msg = m\<rparr>) (filter (\<lambda>i. i \<noteq> take 32 (OriginId m)) order))"
proof -
  define ps where "ps = GetAllPeers order s"
  have o: "order = map p_id ps" using GetAllPeers_ids [OF assms(1,2)] by (simp add: ps_def)
  have "map f (filter P order) = map (\<lambda>p. f (p_id p)) (filter (\<lambda>p. P (p_id p)) ps)" for f :: "PeerID \<Rightarrow> send" and P
    unfolding o by (simp add: filter_map comp_def)
  then show ?thesis by (simp add: broadcast_loop_long [OF assms(3)] flip: ps_def)
qed

lemma Broadcast_seen:
  "uuid_FromBytes U (MessageId m) = Inr i \<Longrightarrow> seenCache g i \<Longrightarrow> Broadcast U order s t m g = (None, [], m, g)"
  by (simp add: Broadcast_def)

lemma Broadcast_fresh:
  assumes "uuid_FromBytes U (MessageId m) = Inr i" and "\<not> seenCache g i"
  shows "Broadcast U order s t m g =
    (let m' = m\<lparr>HopLimit := HopLimit m - 1\<rparr>;
         (p, sends) = (if HopLimit m = 1 then (None, []) else broadcast_loop t m' (GetAllPeers order s) [])
     in (p, sends, m', g\<lparr>seenCache := (seenCache g)(i := True)\<rparr>))"
  using assms by (simp add: Broadcast_def Let_def)

lemma Broadcast_bad_id:
  assumes "uuid_documented U" and "length (MessageId m) \<noteq> 16"
  shows "Broadcast U order s t m g = (None, [], m, g)"
proof -
  have "is_err (uuid_FromBytes U (MessageId m))" using assms by (simp add: uuid_documented_def)
  then show ?thesis by (auto simp: Broadcast_def is_err_iff)
qed

lemma HandleIncoming_eq: "HandleIncoming U order s t m g = Broadcast U order s t m g"
  by (simp add: HandleIncoming_def Broadcast_def split: sum.split)

text \<open>A sequence of calls: each with the peers at that time, and what it sends.\<close>

type_synonym ('db, 'c) gossip_call = "PeerID list \<times> ('db, 'c) Swarm \<times> MessageType \<times> MessageData"

fun gossip_run ::
  "uuid_lib \<Rightarrow> ('db, 'c) gossip_call list \<Rightarrow> Manager \<Rightarrow> (MessageID \<times> send list) list" where
  "gossip_run U [] g = []"
| "gossip_run U ((order, s, t, m) # cs) g =
     (let (p, sends, m', g') = Broadcast U order s t m g
      in (MessageId m, sends) # gossip_run U cs g')"

lemma gossip_run_seen:
  "uuid_documented U \<Longrightarrow> seenCache g i \<Longrightarrow>
    filter (\<lambda>(j, sends). j = i \<and> sends \<noteq> []) (gossip_run U cs g) = []"
proof (induction U cs g rule: gossip_run.induct)
  case (2 U order s t m cs g)
  obtain p sends m' g' where b: "Broadcast U order s t m g = (p, sends, m', g')" by (metis prod_cases4)
  have "seenCache g' i"
    using b 2(3) by (auto simp: Broadcast_def Let_def split: sum.splits if_splits prod.splits)
  moreover have "MessageId m \<noteq> i \<or> sends = []"
    using b 2(3) uuid_FromBytes_Inr [OF 2(2), of "MessageId m"] Broadcast_bad_id [OF 2(2), of m order s t g]
      Broadcast_seen [of U m "MessageId m" g order s t]
    by (cases "length (MessageId m) = 16") auto
  ultimately show ?case using 2(1) [OF b [symmetric] refl refl refl 2(2)] b by auto
qed simp

section \<open>Properties\<close>

text \<open>
  C27. Who gets a broadcast: a message with a fresh well-formed identifier, a hop limit other than
  one and an origin of at least 32 bytes goes, with the hop limit decremented, exactly once to
  every active peer whose identifier is not equal to the origin's first 32 bytes, and to nobody
  else.
\<close>

theorem broadcast_recipients:
  assumes "uuid_documented U" and "swarm_ok s" and "visits order s"
    and "length (MessageId m) = 16" and "\<not> seenCache g (MessageId m)" and "HopLimit m \<noteq> 1"
    and "32 \<le> length (OriginId m)" and "Broadcast U order s t m g = (p, sends, m', g')"
  shows "p = None \<and> m' = m\<lparr>HopLimit := HopLimit m - 1\<rparr> \<and> seenCache g' (MessageId m) \<and>
    distinct (map to_peer sends) \<and>
    set sends = {\<lparr>to_peer = i, send_type = t, send_msg = m'\<rparr> | i. ThisIsActivePeer i s \<and> i \<noteq> take 32 (OriginId m)}"
proof -
  have "uuid_FromBytes U (MessageId m) = Inr (MessageId m)"
    using assms(4) by (simp add: uuid_FromBytes_Inr [OF assms(1)])
  from Broadcast_fresh [OF this assms(5), of order s t] sends_of_order [OF assms(2,3), of "m\<lparr>HopLimit := HopLimit m - 1\<rparr>" t] assms(6-8)
  have r: "p = None" "m' = m\<lparr>HopLimit := HopLimit m - 1\<rparr>" "g' = g\<lparr>seenCache := (seenCache g)(MessageId m := True)\<rparr>"
    "sends = map (\<lambda>i. \<lparr>to_peer = i, send_type = t, send_msg = m'\<rparr>) (filter (\<lambda>i. i \<noteq> take 32 (OriginId m)) order)"
    by (auto simp: Let_def)
  then show ?thesis using assms(3) by (auto simp: comp_def visits_def ThisIsActivePeer_def)
qed

definition demo_origin :: bytes where
  "demo_origin = map (\<lambda>b. b + 1) (sha256 [1])"

lemma demo_origin [simp]: "length demo_origin = 32" "sha256 [1] \<noteq> demo_origin"
proof -
  show len: "length demo_origin = 32" by (simp add: demo_origin_def)
  have "sha256 [1] ! 0 \<noteq> demo_origin ! 0" by (simp add: demo_origin_def)
  then show "sha256 [1] \<noteq> demo_origin" by metis
qed

definition demo_gossip_msg :: "u32 \<Rightarrow> MessageData" where
  "demo_gossip_msg h = demo_msg\<lparr>MessageId := replicate 16 3, OriginId := demo_origin, HopLimit := h\<rparr>"

lemma demo_swarm_ok: "swarm_ok demo_swarm"
  unfolding demo_swarm_def
  by (rule swarm_run_ok [OF swarm_ok_New]) (simp add: demo_event_def)

lemma demo_visits: "visits [sha256 [1]] demo_swarm"
  by (simp add: visits_def demo_swarm_eq)

theorem broadcast_recipients_witness:
  "fst (Broadcast demo_uuid [sha256 [1]] demo_swarm TypeGossip (demo_gossip_msg 5) NewManager) = None \<and>
   distinct (map to_peer (fst (snd (Broadcast demo_uuid [sha256 [1]] demo_swarm TypeGossip (demo_gossip_msg 5) NewManager))))"
proof -
  let ?b = "Broadcast demo_uuid [sha256 [1]] demo_swarm TypeGossip (demo_gossip_msg 5) NewManager"
  obtain p sends m' g' where "?b = (p, sends, m', g')" by (metis prod_cases4)
  with broadcast_recipients [OF demo_uuid_documented demo_swarm_ok demo_visits _ _ _ _ this]
  show ?thesis by (simp add: demo_gossip_msg_def NewManager_def)
qed

text \<open>
  A message is forwarded at most once: in any sequence of broadcasts, with whatever peers
  connected at each, at most one of the calls for a message identifier sends anything.
\<close>

theorem forwarded_at_most_once:
  assumes "uuid_documented U"
  shows "length (filter (\<lambda>(j, sends). j = i \<and> sends \<noteq> []) (gossip_run U cs g)) \<le> 1"
  using assms
proof (induction U cs g rule: gossip_run.induct)
  case (2 U order s t m cs g)
  obtain p sends m' g' where b: "Broadcast U order s t m g = (p, sends, m', g')" by (metis prod_cases4)
  show ?case
  proof (cases "MessageId m = i \<and> sends \<noteq> []")
    case True
    with b Broadcast_bad_id [OF 2(2), of m order s t g] have "length i = 16" by force
    with True b have "seenCache g' i"
      using uuid_FromBytes_Inr [OF 2(2), of i i]
      by (auto simp: Broadcast_def Let_def split: if_splits prod.splits)
    then show ?thesis using b True gossip_run_seen [OF 2(2), of g' i cs] by simp
  next
    case False
    then show ?thesis using 2(1) [OF b [symmetric] refl refl refl 2(2)] b by auto
  qed
qed simp

theorem forwarded_at_most_once_witness:
  "length (filter (\<lambda>(j, sends). j = replicate 16 3 \<and> sends \<noteq> [])
     (gossip_run demo_uuid (replicate 3 ([sha256 [1]], demo_swarm, TypeGossip, demo_gossip_msg 5)) NewManager)) \<le> 1"
  by (rule forwarded_at_most_once [OF demo_uuid_documented])

text \<open>
  C35. The hop limit: every copy that a broadcast sends carries the decremented hop limit, which
  is not zero. If the limit was not zero it has become smaller, so a chain of relays ends. But the
  decrement comes before the test and the limit is unsigned: a message that arrives with a hop
  limit of zero is sent on with the largest one.
\<close>

theorem hop_limit:
  assumes "x \<in> set (fst (snd (Broadcast U order s t m g)))"
  shows "HopLimit (send_msg x) = HopLimit m - 1 \<and> HopLimit (send_msg x) \<noteq> 0 \<and>
    (if HopLimit m = 0 then HopLimit (send_msg x) = 4294967295
     else unat (HopLimit (send_msg x)) < unat (HopLimit m))"
proof -
  let ?m = "m\<lparr>HopLimit := HopLimit m - 1\<rparr>"
  have loop: "send_msg y = ?m \<or> y \<in> set sends" if "y \<in> set (snd (broadcast_loop t ?m ps sends))" for y ps sends
    using that by (cases "32 \<le> length (OriginId ?m)") (auto simp: broadcast_loop_long broadcast_loop_short)
  from assms have "HopLimit m - 1 \<noteq> 0" and "send_msg x = ?m"
    using loop [of x "GetAllPeers order s" "[]"]
    by (auto simp: Broadcast_def Let_def split: sum.splits if_splits prod.splits)
  moreover have "unat (HopLimit m - 1) < unat (HopLimit m)" if "HopLimit m \<noteq> 0"
    using that by (simp add: unat_minus_one unat_gt_0)
  ultimately show ?thesis by simp
qed

theorem hop_limit_witness:
  "\<exists>x. x \<in> set (fst (snd (Broadcast demo_uuid [sha256 [1]] demo_swarm TypeGossip (demo_gossip_msg 0) NewManager))) \<and>
     HopLimit (send_msg x) = 4294967295"
proof -
  have r: "Broadcast demo_uuid [sha256 [1]] demo_swarm TypeGossip (demo_gossip_msg 0) NewManager =
      (let (p, sends) = broadcast_loop TypeGossip (demo_gossip_msg (- 1)) (GetAllPeers [sha256 [1]] demo_swarm) []
       in (p, sends, demo_gossip_msg (- 1), \<lparr>seenCache = (\<lambda>_. False)(replicate 16 3 := True)\<rparr>))"
    by (subst Broadcast_fresh) (simp_all add: demo_gossip_msg_def demo_uuid_def NewManager_def Let_def)
  obtain x where x: "x \<in> set (fst (snd (Broadcast demo_uuid [sha256 [1]] demo_swarm TypeGossip
      (demo_gossip_msg 0) NewManager)))"
    unfolding r using sends_of_order [OF demo_swarm_ok demo_visits, of "demo_gossip_msg (- 1)" TypeGossip]
    by (simp add: demo_gossip_msg_def)
  from hop_limit [OF x] x show ?thesis by (auto simp: demo_gossip_msg_def)
qed

end
