(* ===== verification/Flooding.thy ===== *)
theory Flooding
  imports Gossip
begin

text \<open>
  The network that \<^verbatim>\<open>internal/p2p/gossip\<close> makes of many nodes: every node has its own manager and
  its own active peers, and a step delivers one of the copies in flight to its addressee, which
  passes it to \<^verbatim>\<open>HandleIncoming\<close>; what that sends is in flight next. Copies may be delivered in
  any order. (No handler of the program calls \<^verbatim>\<open>HandleIncoming\<close> yet; the network is of nodes that
  do.) The peers do not change while a message is flooded.
\<close>

section \<open>The network\<close>

text \<open>For each node the order in which its peers are visited, and its swarm.\<close>

type_synonym ('db, 'c) topology = "PeerID \<Rightarrow> PeerID list \<times> ('db, 'c) Swarm"

abbreviation nd_order :: "('db, 'c) topology \<Rightarrow> PeerID \<Rightarrow> PeerID list" where
  "nd_order net n \<equiv> fst (net n)"

abbreviation nd_swarm :: "('db, 'c) topology \<Rightarrow> PeerID \<Rightarrow> ('db, 'c) Swarm" where
  "nd_swarm net n \<equiv> snd (net n)"

record flood =
  fl_managers :: "PeerID \<Rightarrow> Manager"
  in_flight :: "send multiset"

definition flood_start ::
  "uuid_lib \<Rightarrow> ('db, 'c) topology \<Rightarrow> PeerID \<Rightarrow> MessageType \<Rightarrow> MessageData \<Rightarrow> (PeerID \<Rightarrow> Manager) \<Rightarrow> flood" where
  "flood_start U net n t m gs =
     (let (p, sends, m', g') = Broadcast U (nd_order net n) (nd_swarm net n) t m (gs n)
      in \<lparr>fl_managers = gs(n := g'), in_flight = mset sends\<rparr>)"

inductive deliver :: "uuid_lib \<Rightarrow> ('db, 'c) topology \<Rightarrow> flood \<Rightarrow> flood \<Rightarrow> bool" for U net where
  deliver: "x \<in># in_flight w \<Longrightarrow> n = to_peer x \<Longrightarrow>
    HandleIncoming U (nd_order net n) (nd_swarm net n) (send_type x) (send_msg x) (fl_managers w n) = (p, sends, m', g') \<Longrightarrow>
    deliver U net w \<lparr>fl_managers = (fl_managers w)(n := g'), in_flight = in_flight w - {#x#} + mset sends\<rparr>"

lemma deliverE:
  assumes "deliver U net w w'"
  obtains x n p sends m' g' where
    "w' = \<lparr>fl_managers = (fl_managers w)(n := g'), in_flight = in_flight w - {#x#} + mset sends\<rparr>"
    and "x \<in># in_flight w" and "n = to_peer x"
    and "HandleIncoming U (nd_order net n) (nd_swarm net n) (send_type x) (send_msg x) (fl_managers w n) = (p, sends, m', g')"
  using assms by cases blast

text \<open>The nodes of \<open>N\<close> know each other only.\<close>

definition network :: "PeerID set \<Rightarrow> ('db, 'c) topology \<Rightarrow> bool" where
  "network N net \<longleftrightarrow> finite N \<and>
     (\<forall>n \<in> N. swarm_ok (nd_swarm net n) \<and> visits (nd_order net n) (nd_swarm net n) \<and> set (nd_order net n) \<subseteq> N)"

definition linked :: "('db, 'c) topology \<Rightarrow> PeerID \<Rightarrow> PeerID \<Rightarrow> bool" where
  "linked net a b = ThisIsActivePeer b (nd_swarm net a)"

definition seen_by :: "flood \<Rightarrow> PeerID set \<Rightarrow> MessageID \<Rightarrow> PeerID set" where
  "seen_by w N i = {n \<in> N. seenCache (fl_managers w n) i}"

section \<open>Lemmas\<close>

lemma networkD:
  assumes "network N net" and "n \<in> N"
  shows "swarm_ok (nd_swarm net n)" and "visits (nd_order net n) (nd_swarm net n)"
    and "set (nd_order net n) \<subseteq> N" and "length (nd_order net n) \<le> card N"
proof -
  show ok: "swarm_ok (nd_swarm net n)" "visits (nd_order net n) (nd_swarm net n)" "set (nd_order net n) \<subseteq> N"
    using assms by (auto simp: network_def)
  have "length (nd_order net n) = card (set (nd_order net n))"
    using ok(2) distinct_card [of "nd_order net n"] by (simp add: visits_def)
  also have "\<dots> \<le> card N" using ok(3) assms(1) by (simp add: network_def card_mono)
  finally show "length (nd_order net n) \<le> card N" .
qed

lemma network_finite: "network N net \<Longrightarrow> finite N"
  by (simp add: network_def)

lemma linked_order: "network N net \<Longrightarrow> n \<in> N \<Longrightarrow> linked net n b \<longleftrightarrow> b \<in> set (nd_order net n)"
  using networkD(2) [of N net n] by (auto simp: linked_def ThisIsActivePeer_def visits_def)

text \<open>What the handling of one copy does, whatever the copy is.\<close>

lemma incoming_result:
  assumes "uuid_documented U" and "swarm_ok s" and "visits order s"
    and "HandleIncoming U order s t m g = (p, sends, m', g')"
  shows "(sends = [] \<and> (\<forall>j. seenCache g j \<longrightarrow> seenCache g' j)) \<or>
    (\<not> seenCache g (MessageId m) \<and> g' = g\<lparr>seenCache := (seenCache g)(MessageId m := True)\<rparr> \<and>
     length sends \<le> length order \<and>
     (\<forall>x \<in> set sends. to_peer x \<in> set order \<and> MessageId (send_msg x) = MessageId m \<and>
        HopLimit (send_msg x) = HopLimit m - 1 \<and> HopLimit m \<noteq> 1))"
proof (cases "length (MessageId m) = 16")
  case False
  with assms(4) show ?thesis by (auto simp: HandleIncoming_eq Broadcast_bad_id [OF assms(1)])
next
  case True
  then have i: "uuid_FromBytes U (MessageId m) = Inr (MessageId m)"
    by (simp add: uuid_FromBytes_Inr [OF assms(1)])
  show ?thesis
  proof (cases "seenCache g (MessageId m)")
    case True
    with assms(4) i show ?thesis by (auto simp: HandleIncoming_eq Broadcast_seen)
  next
    case fresh: False
    let ?m = "m\<lparr>HopLimit := HopLimit m - 1\<rparr>"
    have loop: "length (snd (broadcast_loop t ?m (GetAllPeers order s) [])) \<le> length order \<and>
        (\<forall>x \<in> set (snd (broadcast_loop t ?m (GetAllPeers order s) [])).
           to_peer x \<in> set order \<and> MessageId (send_msg x) = MessageId m \<and> HopLimit (send_msg x) = HopLimit m - 1)"
      using sends_of_order [OF assms(2,3), of ?m t] broadcast_loop_short [of ?m t "GetAllPeers order s" "[]"]
      by (cases "32 \<le> length (OriginId m)") (auto simp: length_filter_le)
    show ?thesis
      using assms(4) Broadcast_fresh [OF i fresh, of order s t] loop fresh
      by (auto simp: HandleIncoming_eq Let_def split: if_splits prod.splits)
  qed
qed

text \<open>What the handling of a well-formed copy does, exactly.\<close>

lemma incoming_fresh:
  assumes "uuid_documented U" and "swarm_ok s" and "visits order s"
    and "length (MessageId m) = 16" and "32 \<le> length (OriginId m)" and "\<not> seenCache g (MessageId m)"
  shows "Broadcast U order s t m g =
    (None, if HopLimit m = 1 then []
           else map (\<lambda>i. \<lparr>to_peer = i, send_type = t, send_msg = m\<lparr>HopLimit := HopLimit m - 1\<rparr>\<rparr>)
             (filter (\<lambda>i. i \<noteq> take 32 (OriginId m)) order),
     m\<lparr>HopLimit := HopLimit m - 1\<rparr>, g\<lparr>seenCache := (seenCache g)(MessageId m := True)\<rparr>)"
proof -
  have "uuid_FromBytes U (MessageId m) = Inr (MessageId m)"
    using assms(4) by (simp add: uuid_FromBytes_Inr [OF assms(1)])
  from Broadcast_fresh [OF this assms(6), of order s t]
    sends_of_order [OF assms(2,3), of "m\<lparr>HopLimit := HopLimit m - 1\<rparr>" t] assms(5)
  show ?thesis by (simp add: Let_def)
qed

subsection \<open>Termination\<close>

text \<open>
  The measure: a copy in flight counts one, a node that has not seen an identifier as many as it
  may send.
\<close>

definition unseen :: "flood \<Rightarrow> PeerID set \<Rightarrow> MessageID set \<Rightarrow> (PeerID \<times> MessageID) set" where
  "unseen w N I = {(n, i). n \<in> N \<and> i \<in> I \<and> \<not> seenCache (fl_managers w n) i}"

definition flood_measure :: "PeerID set \<Rightarrow> MessageID set \<Rightarrow> flood \<Rightarrow> nat" where
  "flood_measure N I w = size (in_flight w) + card N * card (unseen w N I)"

definition flying :: "PeerID set \<Rightarrow> MessageID set \<Rightarrow> flood \<Rightarrow> bool" where
  "flying N I w \<longleftrightarrow> (\<forall>x \<in># in_flight w. to_peer x \<in> N \<and> MessageId (send_msg x) \<in> I)"

lemma finite_unseen: "finite N \<Longrightarrow> finite I \<Longrightarrow> finite (unseen w N I)"
  by (rule finite_subset [of _ "N \<times> I"]) (auto simp: unseen_def)

lemma deliver_measure:
  assumes "uuid_documented U" and "network N net" and "finite I" and "flying N I w" and "deliver U net w w'"
  shows "flood_measure N I w' < flood_measure N I w \<and> flying N I w'"
  using assms(5)
proof (rule deliverE)
  fix x n p sends m' g'
  assume w': "w' = \<lparr>fl_managers = (fl_managers w)(n := g'), in_flight = in_flight w - {#x#} + mset sends\<rparr>"
    and x: "x \<in># in_flight w" and n: "n = to_peer x"
    and h: "HandleIncoming U (nd_order net n) (nd_swarm net n) (send_type x) (send_msg x) (fl_managers w n) = (p, sends, m', g')"
  have nN: "n \<in> N" and xI: "MessageId (send_msg x) \<in> I" using assms(4) x n by (auto simp: flying_def)
  note ok = networkD [OF assms(2) nN]
  have fin: "finite (unseen w N I)" by (rule finite_unseen [OF network_finite [OF assms(2)] assms(3)])
  have size: "size (in_flight w') + 1 = size (in_flight w) + length sends"
    using size_Suc_Diff1 [OF x] by (simp add: w')
  from incoming_result [OF assms(1) ok(1,2) h] show ?thesis
  proof (elim disjE conjE)
    assume s: "sends = []" and mono: "\<forall>j. seenCache (fl_managers w n) j \<longrightarrow> seenCache g' j"
    have "unseen w' N I \<subseteq> unseen w N I" using mono by (auto simp: unseen_def w' split: if_splits)
    then have "card N * card (unseen w' N I) \<le> card N * card (unseen w N I)"
      by (intro mult_le_mono2 card_mono fin)
    then have "flood_measure N I w' < flood_measure N I w"
      using size by (simp only: flood_measure_def s list.size)
    moreover have "flying N I w'" using s assms(4) by (auto simp: flying_def w' dest: in_diffD)
    ultimately show ?thesis by blast
  next
    assume new: "\<not> seenCache (fl_managers w n) (MessageId (send_msg x))"
      and g': "g' = (fl_managers w n)\<lparr>seenCache := (seenCache (fl_managers w n))(MessageId (send_msg x) := True)\<rparr>"
      and len: "length sends \<le> length (nd_order net n)"
      and to: "\<forall>y \<in> set sends. to_peer y \<in> set (nd_order net n) \<and> MessageId (send_msg y) = MessageId (send_msg x) \<and>
        HopLimit (send_msg y) = HopLimit (send_msg x) - 1 \<and> HopLimit (send_msg x) \<noteq> 1"
    have mem: "(n, MessageId (send_msg x)) \<in> unseen w N I" using nN xI new by (simp add: unseen_def)
    have "unseen w' N I = unseen w N I - {(n, MessageId (send_msg x))}"
      by (auto simp: unseen_def w' g' split: if_splits)
    then have "card (unseen w N I) = card (unseen w' N I) + 1"
      using card_Suc_Diff1 [OF fin mem] by simp
    moreover have "length sends \<le> card N" using len ok(4) by simp
    ultimately have "flood_measure N I w' < flood_measure N I w"
      using size by (simp add: flood_measure_def)
    moreover have "flying N I w'"
      using assms(4) to ok(3) xI by (auto simp: flying_def w' dest: in_diffD)
    ultimately show ?thesis by blast
  qed
qed

lemma deliver_bounded:
  assumes "uuid_documented U" and "network N net" and "finite I"
  shows "flying N I w \<Longrightarrow> (deliver U net ^^ k) w w' \<Longrightarrow> k + flood_measure N I w' \<le> flood_measure N I w"
proof (induction k arbitrary: w)
  case (Suc k)
  from Suc.prems(2) obtain v where v: "deliver U net w v" "(deliver U net ^^ k) v w'"
    by (meson relpowp_Suc_D2)
  from deliver_measure [OF assms Suc.prems(1) v(1)] Suc.IH [OF _ v(2)] show ?case by simp
qed simp

lemma flood_measure_le:
  assumes "finite N" and "finite I"
  shows "flood_measure N I w \<le> size (in_flight w) + card N * (card N * card I)"
proof -
  have "card (unseen w N I) \<le> card (N \<times> I)"
    using assms by (intro card_mono) (auto simp: unseen_def)
  then show ?thesis by (simp add: flood_measure_def card_cartesian_product)
qed

lemma deliver_progress: "(\<exists>w'. deliver U net w w') \<longleftrightarrow> in_flight w \<noteq> {#}"
proof
  assume "in_flight w \<noteq> {#}"
  then obtain x where x: "x \<in># in_flight w" by blast
  obtain p sends m' g' where "HandleIncoming U (nd_order net (to_peer x)) (nd_swarm net (to_peer x))
      (send_type x) (send_msg x) (fl_managers w (to_peer x)) = (p, sends, m', g')"
    by (metis prod_cases4)
  with x show "\<exists>w'. deliver U net w w'" by (blast intro: deliver.intros)
qed (auto elim: deliverE)

text \<open>So from every state of a network some run delivers all copies.\<close>

lemma flood_can_end:
  assumes "uuid_documented U" and "network N net" and "finite I"
  shows "flying N I w \<Longrightarrow> \<exists>k w'. (deliver U net ^^ k) w w' \<and> in_flight w' = {#}"
proof (induction w rule: measure_induct_rule [where f = "flood_measure N I"])
  case (less w)
  show ?case
  proof (cases "in_flight w = {#}")
    case True
    then have "(deliver U net ^^ 0) w w \<and> in_flight w = {#}" by simp
    then show ?thesis by blast
  next
    case False
    then obtain v where v: "deliver U net w v" using deliver_progress by blast
    from deliver_measure [OF assms less.prems v] less.IH [of v]
    obtain k w' where "(deliver U net ^^ k) v w'" "in_flight w' = {#}" by blast
    then show ?thesis using relpowp_Suc_I2 [of "deliver U net" w v, OF v] by blast
  qed
qed

subsection \<open>Reaching every node\<close>

text \<open>
  The invariant of a flood from \<open>n0\<close> with the origin \<open>og\<close> and hop limit \<open>h\<close>: every peer of a node that has seen
  the message has seen it or has a copy on its way, and a copy has lost at most as many hops as
  there are nodes that have seen the message, because the nodes on its way are all different.
\<close>

definition flood_inv ::
  "PeerID set \<Rightarrow> ('db, 'c) topology \<Rightarrow> PeerID \<Rightarrow> bytes \<Rightarrow> MessageID \<Rightarrow> nat \<Rightarrow> flood \<Rightarrow> bool" where
  "flood_inv N net n0 og i h w \<longleftrightarrow>
     n0 \<in> seen_by w N i \<and>
     (\<forall>a \<in> seen_by w N i. \<forall>b. linked net a b \<longrightarrow> b \<in> seen_by w N i \<or> (\<exists>x \<in># in_flight w. to_peer x = b)) \<and>
     (\<forall>x \<in># in_flight w. to_peer x \<in> N \<and> MessageId (send_msg x) = i \<and> OriginId (send_msg x) = og \<and>
        HopLimit (send_msg x) \<noteq> 0 \<and> h \<le> unat (HopLimit (send_msg x)) + card (seen_by w N i))"

lemma flood_invD:
  assumes "flood_inv N net n0 og i h w"
  shows "n0 \<in> seen_by w N i"
    and "a \<in> seen_by w N i \<Longrightarrow> linked net a b \<Longrightarrow> b \<in> seen_by w N i \<or> (\<exists>x \<in># in_flight w. to_peer x = b)"
    and "x \<in># in_flight w \<Longrightarrow> to_peer x \<in> N \<and> MessageId (send_msg x) = i \<and> OriginId (send_msg x) = og \<and>
        HopLimit (send_msg x) \<noteq> 0 \<and> h \<le> unat (HopLimit (send_msg x)) + card (seen_by w N i)"
  using assms by (auto simp: flood_inv_def)

lemma seen_by_subset: "seen_by w N i \<subseteq> N"
  by (auto simp: seen_by_def)

lemma seen_by_insert:
  assumes "n \<in> N"
  shows "seen_by \<lparr>fl_managers = (fl_managers w)(n := g\<lparr>seenCache := (seenCache g)(i := True)\<rparr>), in_flight = f\<rparr> N i =
    insert n (seen_by w N i)"
  using assms by (auto simp: seen_by_def)

text \<open>
  A node that sees the message for the first time keeps the invariant. \<open>f\<close> is what stays in
  flight, \<open>m\<close> the copy it handles.
\<close>

lemma flood_inv_forward:
  assumes nw: "network N net" and n: "n \<in> N" and n0: "n0 \<in> insert n (seen_by w N i)" and new: "n \<notin> seen_by w N i"
    and links: "\<And>a b. a \<in> seen_by w N i \<Longrightarrow> linked net a b \<Longrightarrow> b \<in> insert n (seen_by w N i) \<or> (\<exists>x \<in># f. to_peer x = b)"
    and fly: "\<And>x. x \<in># f \<Longrightarrow> to_peer x \<in> N \<and> MessageId (send_msg x) = i \<and> OriginId (send_msg x) = og \<and>
        HopLimit (send_msg x) \<noteq> 0 \<and> h \<le> unat (HopLimit (send_msg x)) + card (seen_by w N i)"
    and m: "MessageId m = i" "OriginId m = og" "HopLimit m \<noteq> 0" "h \<le> unat (HopLimit m) + card (seen_by w N i)"
    and sends: "sends = (if HopLimit m = 1 then []
       else map (\<lambda>i. \<lparr>to_peer = i, send_type = t, send_msg = m\<lparr>HopLimit := HopLimit m - 1\<rparr>\<rparr>)
             (filter (\<lambda>i. i \<noteq> take 32 og) (nd_order net n)))"
    and big: "card N \<le> h" and og: "take 32 og \<notin> N - {n0}"
    and v: "seen_by v N i = insert n (seen_by w N i)" "in_flight v = f + mset sends"
  shows "flood_inv N net n0 og i h v"
proof -
  have fin: "finite (seen_by w N i)" using finite_subset [OF seen_by_subset network_finite [OF nw]] .
  have card: "card (seen_by v N i) = card (seen_by w N i) + 1" by (simp add: v(1) fin new)
  have sent: "to_peer x \<in> N \<and> MessageId (send_msg x) = i \<and> OriginId (send_msg x) = og \<and>
      HopLimit (send_msg x) \<noteq> 0 \<and> h \<le> unat (HopLimit (send_msg x)) + card (seen_by v N i)"
    if "x \<in> set sends" for x
    using that m card networkD(3) [OF nw n] unat_minus_one [OF m(3)] unat_gt_0 [of "HopLimit m"]
    by (auto simp: sends split: if_splits)
  have all: "insert n (seen_by w N i) = N" if "HopLimit m = 1"
  proof (rule card_seteq [OF network_finite [OF nw]])
    show "insert n (seen_by w N i) \<subseteq> N" using n seen_by_subset by blast
    show "card N \<le> card (insert n (seen_by w N i))" using that m(4) big fin new by simp
  qed
  have "b \<in> seen_by v N i \<or> (\<exists>x \<in># in_flight v. to_peer x = b)"
    if "a \<in> seen_by v N i" and l: "linked net a b" for a b
  proof (cases "a = n")
    case True
    with l have b: "b \<in> set (nd_order net n)" using linked_order [OF nw n] by simp
    have "b = n0 \<or> b \<noteq> take 32 og" using b networkD(3) [OF nw n] og by blast
    with b show ?thesis using all n0 networkD(3) [OF nw n] by (auto simp: v sends ball_Un)
  next
    case False
    with that links [of a b] show ?thesis by (auto simp: v)
  qed
  moreover have "to_peer x \<in> N \<and> MessageId (send_msg x) = i \<and> OriginId (send_msg x) = og \<and>
      HopLimit (send_msg x) \<noteq> 0 \<and> h \<le> unat (HopLimit (send_msg x)) + card (seen_by v N i)"
    if "x \<in># in_flight v" for x
    using that sent [of x] fly [of x] card by (auto simp: v(2))
  ultimately show ?thesis using n0 unfolding flood_inv_def v(1) by blast
qed

lemma flood_inv_start:
  assumes "uuid_documented U" and "network N net" and "n0 \<in> N" and "\<forall>n \<in> N. \<not> seenCache (gs n) (MessageId m)"
    and "length (MessageId m) = 16" and "32 \<le> length (OriginId m)" and "take 32 (OriginId m) \<notin> N - {n0}"
    and "card N \<le> unat (HopLimit m)"
  shows "flood_inv N net n0 (OriginId m) (MessageId m) (unat (HopLimit m)) (flood_start U net n0 t m gs)"
proof (rule flood_inv_forward [where w = "\<lparr>fl_managers = gs, in_flight = {#}\<rparr>" and f = "{#}" and m = m,
      OF assms(2,3) _ _ _ _ refl refl _ _ refl assms(8,7)])
  note b = incoming_fresh [OF assms(1) networkD(1,2) [OF assms(2,3)] assms(5), of "gs n0" t] assms(3-7)
  have none: "seen_by \<lparr>fl_managers = gs, in_flight = {#}\<rparr> N (MessageId m) = {}"
    using assms(4) by (auto simp: seen_by_def)
  have "card N \<noteq> 0" using assms(3) network_finite [OF assms(2)] by auto
  then show "HopLimit m \<noteq> 0" using assms(8) by auto
  show "seen_by (flood_start U net n0 t m gs) N (MessageId m) =
      insert n0 (seen_by \<lparr>fl_managers = gs, in_flight = {#}\<rparr> N (MessageId m))"
    using b by (auto simp: flood_start_def seen_by_def)
  show "in_flight (flood_start U net n0 t m gs) = {#} + mset (if HopLimit m = 1 then []
       else map (\<lambda>i. \<lparr>to_peer = i, send_type = t, send_msg = m\<lparr>HopLimit := HopLimit m - 1\<rparr>\<rparr>)
             (filter (\<lambda>i. i \<noteq> take 32 (OriginId m)) (nd_order net n0)))"
    using b by (simp add: flood_start_def)
qed (use assms(4) in \<open>auto simp: seen_by_def\<close>)

lemma flood_inv_deliver:
  assumes "uuid_documented U" and "network N net" and "length i = 16" and "32 \<le> length og" and "take 32 og \<notin> N - {n0}" and "card N \<le> h"
    and inv: "flood_inv N net n0 og i h w" and "deliver U net w w'"
  shows "flood_inv N net n0 og i h w'"
  using assms(8)
proof (rule deliverE)
  fix x n p sends m' g'
  assume w': "w' = \<lparr>fl_managers = (fl_managers w)(n := g'), in_flight = in_flight w - {#x#} + mset sends\<rparr>"
    and x: "x \<in># in_flight w" and n: "n = to_peer x"
    and h: "HandleIncoming U (nd_order net n) (nd_swarm net n) (send_type x) (send_msg x) (fl_managers w n) = (p, sends, m', g')"
  note mx = flood_invD(3) [OF inv x]
  have nN: "n \<in> N" using mx n by simp
  have f: "y \<in># in_flight w - {#x#} \<Longrightarrow> y \<in># in_flight w" for y by (rule in_diffD)
  have left: "y = x \<or> y \<in># in_flight w - {#x#}" if "y \<in># in_flight w" for y
    using that by (metis insert_DiffM insert_noteq_member x)
  have links: "b \<in> insert n (seen_by w N i) \<or> (\<exists>y \<in># in_flight w - {#x#}. to_peer y = b)"
    if "a \<in> seen_by w N i" "linked net a b" for a b
    using flood_invD(2) [OF inv that] left n by blast
  show ?thesis
  proof (cases "seenCache (fl_managers w n) i")
    case True
    have "uuid_FromBytes U i = Inr i" using assms(3) by (simp add: uuid_FromBytes_Inr [OF assms(1)])
    with True h mx have "sends = []" "g' = fl_managers w n" by (auto simp: HandleIncoming_eq Broadcast_seen)
    then have "seen_by w' N i = seen_by w N i" "in_flight w' = in_flight w - {#x#}"
      by (simp_all add: w' seen_by_def)
    moreover have "n \<in> seen_by w N i" using True nN by (simp add: seen_by_def)
    ultimately show ?thesis
      using links flood_invD(3) [OF inv] f flood_invD(1) [OF inv] unfolding flood_inv_def by (metis insert_absorb)
  next
    case False
    have s: "sends = (if HopLimit (send_msg x) = 1 then []
       else map (\<lambda>i. \<lparr>to_peer = i, send_type = send_type x, send_msg = (send_msg x)\<lparr>HopLimit := HopLimit (send_msg x) - 1\<rparr>\<rparr>)
             (filter (\<lambda>i. i \<noteq> take 32 og) (nd_order net n)))"
      and g': "g' = (fl_managers w n)\<lparr>seenCache := (seenCache (fl_managers w n))(i := True)\<rparr>"
      using h incoming_fresh [OF assms(1) networkD(1,2) [OF assms(2) nN], of "send_msg x" "fl_managers w n" "send_type x"]
        mx assms(3,4) False by (auto simp: HandleIncoming_eq)
    have v: "seen_by w' N i = insert n (seen_by w N i)" unfolding w' g' by (rule seen_by_insert [OF nN])
    have new: "n \<notin> seen_by w N i" using False by (simp add: seen_by_def)
    have "n0 \<in> insert n (seen_by w N i)" using flood_invD(1) [OF inv] by simp
    from flood_inv_forward [OF assms(2) nN this new links flood_invD(3) [OF inv f] _ _ _ _ s assms(6,5) v] mx
    show ?thesis by (simp add: w')
  qed
qed

lemma flood_inv_run:
  assumes "uuid_documented U" and "network N net" and "length i = 16" and "32 \<le> length og" and "take 32 og \<notin> N - {n0}"
    and "card N \<le> h" and "(deliver U net)\<^sup>*\<^sup>* v w" and "flood_inv N net n0 og i h v"
  shows "flood_inv N net n0 og i h w"
  using assms(7,8) by (induction rule: rtranclp_induct) (auto intro: flood_inv_deliver [OF assms(1-6)])

lemma flood_inv_end:
  assumes "flood_inv N net n0 og i h w" and "in_flight w = {#}" and "(linked net)\<^sup>*\<^sup>* n0 n"
  shows "n \<in> seen_by w N i"
  using assms(3)
proof (induction rule: rtranclp_induct)
  case base
  then show ?case by (rule flood_invD(1) [OF assms(1)])
next
  case (step a b)
  with flood_invD(2) [OF assms(1) step.IH step(2)] assms(2) show ?case by simp
qed

subsection \<open>How far a message goes\<close>

text \<open>
  Every copy has lost one hop for each link it has gone over; \<open>gs\<close> are the managers before.
\<close>

definition near_inv ::
  "PeerID set \<Rightarrow> ('db, 'c) topology \<Rightarrow> PeerID \<Rightarrow> (PeerID \<Rightarrow> Manager) \<Rightarrow> MessageID \<Rightarrow> nat \<Rightarrow> flood \<Rightarrow> bool" where
  "near_inv N net n0 gs i h w \<longleftrightarrow>
     (\<forall>x \<in># in_flight w. to_peer x \<in> N \<and> MessageId (send_msg x) = i \<and> HopLimit (send_msg x) \<noteq> 0 \<and>
        (\<exists>k. (linked net ^^ k) n0 (to_peer x) \<and> k + unat (HopLimit (send_msg x)) = h)) \<and>
     (\<forall>n. seenCache (fl_managers w n) i \<longrightarrow> seenCache (gs n) i \<or> (\<exists>k < h. (linked net ^^ k) n0 n))"

lemma near_invD:
  assumes "near_inv N net n0 gs i h w"
  shows "x \<in># in_flight w \<Longrightarrow> to_peer x \<in> N \<and> MessageId (send_msg x) = i \<and> HopLimit (send_msg x) \<noteq> 0 \<and>
        (\<exists>k. (linked net ^^ k) n0 (to_peer x) \<and> k + unat (HopLimit (send_msg x)) = h)"
    and "seenCache (fl_managers w n) i \<Longrightarrow> seenCache (gs n) i \<or> (\<exists>k < h. (linked net ^^ k) n0 n)"
  using assms by (auto simp: near_inv_def)

text \<open>A node at distance \<open>k\<close> that handles a message keeps the invariant; \<open>f\<close> is what stays in flight.\<close>

lemma near_inv_handle:
  assumes U: "uuid_documented U" and nw: "network N net" and n: "n \<in> N"
    and inv: "near_inv N net n0 gs (MessageId m) h \<lparr>fl_managers = ms, in_flight = f\<rparr>"
    and k: "(linked net ^^ k) n0 n" "k + unat (HopLimit m) = h" "HopLimit m \<noteq> 0"
    and b: "HandleIncoming U (nd_order net n) (nd_swarm net n) t m (ms n) = (p, sends, m', g')"
  shows "near_inv N net n0 gs (MessageId m) h \<lparr>fl_managers = ms(n := g'), in_flight = f + mset sends\<rparr>"
proof -
  note ok = networkD [OF nw n]
  have "0 < unat (HopLimit m)" using k(3) by (simp add: unat_gt_0)
  then have "k < h" using k(2) by linarith
  then have seen: "seenCache (gs n) (MessageId m) \<or> (\<exists>k < h. (linked net ^^ k) n0 n)" using k(1) by blast
  have sent: "to_peer x \<in> N \<and> MessageId (send_msg x) = MessageId m \<and> HopLimit (send_msg x) \<noteq> 0 \<and>
      (\<exists>k. (linked net ^^ k) n0 (to_peer x) \<and> k + unat (HopLimit (send_msg x)) = h)" if "x \<in> set sends" for x
  proof -
    from incoming_result [OF U ok(1,2) b] that
    have x: "to_peer x \<in> set (nd_order net n)" "MessageId (send_msg x) = MessageId m"
      "HopLimit (send_msg x) = HopLimit m - 1" "HopLimit m \<noteq> 1" by auto
    have "linked net n (to_peer x)" using x(1) linked_order [OF nw n] by simp
    with k(1) have "(linked net ^^ Suc k) n0 (to_peer x)" by (rule relpowp_Suc_I)
    moreover have "Suc k + unat (HopLimit m - 1) = h"
      using k(2) \<open>0 < unat (HopLimit m)\<close> by (simp add: unat_minus_one [OF k(3)])
    moreover have "to_peer x \<in> N" using x(1) ok(3) by blast
    ultimately show ?thesis using x by auto
  qed
  have "seenCache (gs a) (MessageId m) \<or> (\<exists>k < h. (linked net ^^ k) n0 a)"
    if "seenCache ((ms(n := g')) a) (MessageId m)" for a
    using that seen near_invD(2) [OF inv, of a] by (cases "a = n") simp_all
  moreover have "to_peer x \<in> N \<and> MessageId (send_msg x) = MessageId m \<and> HopLimit (send_msg x) \<noteq> 0 \<and>
      (\<exists>k. (linked net ^^ k) n0 (to_peer x) \<and> k + unat (HopLimit (send_msg x)) = h)"
    if "x \<in># f + mset sends" for x
    using that sent [of x] near_invD(1) [OF inv, of x] by auto
  ultimately show ?thesis by (simp add: near_inv_def)
qed

lemma near_inv_start:
  assumes "uuid_documented U" and "network N net" and "n0 \<in> N" and "HopLimit m \<noteq> 0"
  shows "near_inv N net n0 gs (MessageId m) (unat (HopLimit m)) (flood_start U net n0 t m gs)"
proof -
  obtain p sends m' g' where b: "Broadcast U (nd_order net n0) (nd_swarm net n0) t m (gs n0) = (p, sends, m', g')"
    by (metis prod_cases4)
  have "near_inv N net n0 gs (MessageId m) (unat (HopLimit m)) \<lparr>fl_managers = gs, in_flight = {#}\<rparr>"
    by (simp add: near_inv_def)
  from near_inv_handle [OF assms(1-3) this, of 0] b assms(4) show ?thesis
    by (simp add: flood_start_def HandleIncoming_eq)
qed

lemma near_inv_deliver:
  assumes "uuid_documented U" and "network N net" and inv: "near_inv N net n0 gs i h w" and "deliver U net w w'"
  shows "near_inv N net n0 gs i h w'"
  using assms(4)
proof (rule deliverE)
  fix x n p sends m' g'
  assume w': "w' = \<lparr>fl_managers = (fl_managers w)(n := g'), in_flight = in_flight w - {#x#} + mset sends\<rparr>"
    and x: "x \<in># in_flight w" and n: "n = to_peer x"
    and b: "HandleIncoming U (nd_order net n) (nd_swarm net n) (send_type x) (send_msg x) (fl_managers w n) = (p, sends, m', g')"
  from near_invD(1) [OF inv x] obtain k where k: "n \<in> N" "MessageId (send_msg x) = i" "HopLimit (send_msg x) \<noteq> 0"
    "(linked net ^^ k) n0 n" "k + unat (HopLimit (send_msg x)) = h" using n by blast
  have "near_inv N net n0 gs i h \<lparr>fl_managers = fl_managers w, in_flight = in_flight w - {#x#}\<rparr>"
    using inv by (auto simp: near_inv_def dest: in_diffD)
  from near_inv_handle [OF assms(1,2) k(1) this [folded k(2)] k(4,5,3) b] show ?thesis by (simp add: w' k(2))
qed

lemma near_inv_run:
  assumes "uuid_documented U" and "network N net" and "(deliver U net)\<^sup>*\<^sup>* v w" and "near_inv N net n0 gs i h v"
  shows "near_inv N net n0 gs i h w"
  using assms(3,4) by (induction rule: rtranclp_induct) (auto intro: near_inv_deliver [OF assms(1,2)])

section \<open>Example networks\<close>

text \<open>Nodes with the identifiers \<open>demo_node 0\<close>, \<open>demo_node 1\<close>, ... and the given active peers.\<close>

definition demo_node :: "8 word \<Rightarrow> PeerID" where
  "demo_node k = replicate 32 k"

definition known_peer :: "PeerID \<Rightarrow> unit Peer" where
  "known_peer i = \<lparr>p_transport = None, p_id = i, p_pubKey = [], p_addr = [], p_isOut = False, p_closed = False\<rparr>"

definition known_swarm :: "PeerID list \<Rightarrow> (unit, unit) Swarm" where
  "known_swarm ids = (NewSwarm zero32 [] () 0)
     \<lparr>activePeers := map_of (zip ids [0..<length ids]), peer_heap := map known_peer ids\<rparr>"

definition net_of :: "(PeerID \<times> PeerID list) list \<Rightarrow> (unit, unit) topology" where
  "net_of links n = (let ids = (case map_of links n of None \<Rightarrow> [] | Some ids \<Rightarrow> ids) in (ids, known_swarm ids))"

lemma known_swarm_active: "distinct ids \<Longrightarrow> k < length ids \<Longrightarrow> activePeers (known_swarm ids) (ids ! k) = Some k"
  by (simp add: known_swarm_def map_of_zip_nth)

lemma known_swarm_dom: "dom (activePeers (known_swarm ids)) = set ids"
  by (simp add: known_swarm_def)

lemma known_swarm_heap [simp]: "peer_heap (known_swarm ids) = map known_peer ids"
  by (simp add: known_swarm_def)

lemma known_peer_id [simp]: "p_id (known_peer i) = i" "p_closed (known_peer i) = False"
  by (simp_all add: known_peer_def)

lemma known_swarm_ok:
  assumes "distinct ids"
  shows "swarm_ok (known_swarm ids)" and "visits ids (known_swarm ids)"
proof -
  have "a < length ids \<and> ids ! a = i" if "activePeers (known_swarm ids) i = Some a" for i a
  proof -
    have "i \<in> set ids" using that known_swarm_dom [of ids] by blast
    then obtain k where "k < length ids" "i = ids ! k" by (auto simp: in_set_conv_nth)
    then show ?thesis using that known_swarm_active [OF assms, of k] by simp
  qed
  then show "swarm_ok (known_swarm ids)"
    using known_swarm_active [OF assms] by (fastforce simp: swarm_ok_def)
  show "visits ids (known_swarm ids)" using assms by (simp add: visits_def known_swarm_dom)
qed

lemma net_of_network:
  assumes "\<forall>(n, ids) \<in> set links. distinct ids \<and> set ids \<subseteq> fst ` set links"
  shows "network (fst ` set links) (net_of links)"
proof -
  have "swarm_ok (nd_swarm (net_of links) n) \<and> visits (nd_order (net_of links) n) (nd_swarm (net_of links) n) \<and>
      set (nd_order (net_of links) n) \<subseteq> fst ` set links" for n
  proof (cases "map_of links n")
    case None
    then show ?thesis using known_swarm_ok [of "[]"] by (simp add: net_of_def)
  next
    case (Some ids)
    from assms map_of_SomeD [OF Some] have "distinct ids" "set ids \<subseteq> fst ` set links" by auto
    then show ?thesis using Some known_swarm_ok [of ids] by (simp add: net_of_def)
  qed
  then show ?thesis by (simp add: network_def)
qed

lemma linked_net_of: "linked (net_of links) a b \<longleftrightarrow> (\<exists>ids. map_of links a = Some ids \<and> b \<in> set ids)"
proof -
  have "activePeers (known_swarm ids) b \<noteq> None \<longleftrightarrow> b \<in> set ids" for ids
    using known_swarm_dom [of ids] by (simp add: domIff flip: known_swarm_dom)
  then show ?thesis by (cases "map_of links a") (simp_all add: linked_def net_of_def ThisIsActivePeer_def)
qed

text \<open>Three nodes in a row.\<close>

definition demo_row :: "(PeerID \<times> PeerID list) list" where
  "demo_row = [(demo_node 0, [demo_node 1]), (demo_node 1, [demo_node 0, demo_node 2]), (demo_node 2, [demo_node 1])]"

definition demo_flood_msg :: "u32 \<Rightarrow> MessageData" where
  "demo_flood_msg h = demo_msg\<lparr>MessageId := replicate 16 3, OriginId := demo_node 99, HopLimit := h\<rparr>"

lemma demo_flood_msg [simp]:
  "MessageId (demo_flood_msg h) = replicate 16 3" "OriginId (demo_flood_msg h) = demo_node 99"
  "HopLimit (demo_flood_msg h) = h" "(demo_flood_msg h)\<lparr>HopLimit := k\<rparr> = demo_flood_msg k"
  by (simp_all add: demo_flood_msg_def)

lemma demo_node [simp]: "length (demo_node k) = 32" "demo_node j = demo_node k \<longleftrightarrow> j = k"
  by (simp_all add: demo_node_def)

lemma demo_row_network: "network {demo_node 0, demo_node 1, demo_node 2} (net_of demo_row)"
  using net_of_network [of demo_row] by (simp add: demo_row_def)

text \<open>One delivery of the example message.\<close>

definition demo_copy :: "PeerID \<Rightarrow> u32 \<Rightarrow> send" where
  "demo_copy n h = \<lparr>to_peer = n, send_type = TypeGossip, send_msg = demo_flood_msg h\<rparr>"

definition demo_saw :: "Manager \<Rightarrow> Manager" where
  "demo_saw g = g\<lparr>seenCache := (seenCache g)(replicate 16 3 := True)\<rparr>"

definition demo_copies :: "PeerID list \<Rightarrow> u32 \<Rightarrow> send multiset" where
  "demo_copies ids h =
     (if h = 1 then {#} else mset (map (\<lambda>i. demo_copy i (h - 1)) (filter (\<lambda>i. i \<noteq> demo_node 99) ids)))"

lemma demo_broadcast:
  assumes "map_of links n = Some ids" and "distinct ids" and "\<not> seenCache g (replicate 16 3)"
  shows "\<exists>sends m'. Broadcast demo_uuid (nd_order (net_of links) n) (nd_swarm (net_of links) n) TypeGossip (demo_flood_msg h) g =
    (None, sends, m', demo_saw g) \<and> mset sends = demo_copies ids h"
proof -
  have n: "net_of links n = (ids, known_swarm ids)" using assms(1) by (simp add: net_of_def)
  show ?thesis
    unfolding n fst_conv snd_conv
    using assms(3) by (subst incoming_fresh [OF demo_uuid_documented known_swarm_ok [OF assms(2)]])
      (simp_all add: demo_saw_def demo_copies_def demo_copy_def cong: map_cong)
qed

abbreviation demo_row_start :: flood where
  "demo_row_start \<equiv> flood_start demo_uuid (net_of demo_row) (demo_node 0) TypeGossip (demo_flood_msg 3) (\<lambda>_. NewManager)"

section \<open>Properties\<close>

text \<open>
  C8. A flood ends. Whatever copies of whatever messages are in flight in a network of nodes that
  know each other only, and in whatever order they are delivered, the number of deliveries until
  none is left is at most the number of copies plus, for each message identifier, the square of
  the number of nodes; and as long as a copy is left one can be delivered. This does not rest on
  the hop limit but on the set of seen identifiers.
\<close>

theorem flood_terminates:
  assumes "uuid_documented U" and "network N net" and "\<forall>x \<in># in_flight w. to_peer x \<in> N"
    and "(deliver U net ^^ k) w w'"
  shows "k \<le> size (in_flight w) + card N * (card N * card ((\<lambda>x. MessageId (send_msg x)) ` set_mset (in_flight w))) \<and>
    ((\<exists>w''. deliver U net w' w'') \<longleftrightarrow> in_flight w' \<noteq> {#})"
proof -
  define I where "I = (\<lambda>x. MessageId (send_msg x)) ` set_mset (in_flight w)"
  have I: "finite I" by (simp add: I_def)
  have "flying N I w" using assms(3) by (simp add: flying_def I_def)
  from deliver_bounded [OF assms(1,2) I this assms(4)] flood_measure_le [OF network_finite [OF assms(2)] I, of w]
  have "k \<le> size (in_flight w) + card N * (card N * card I)" by simp
  then show ?thesis by (simp add: deliver_progress flip: I_def)
qed

theorem flood_terminates_witness:
  "\<exists>k w. (deliver demo_uuid (net_of demo_row) ^^ k) demo_row_start w \<and> in_flight w = {#} \<and> k \<le> 10"
proof -
  let ?N = "{demo_node 0, demo_node 1, demo_node 2}"
  have start: "in_flight demo_row_start = {#demo_copy (demo_node 1) 2#}"
    using demo_broadcast [of demo_row "demo_node 0" "[demo_node 1]" NewManager 3]
    by (auto simp: flood_start_def demo_row_def demo_copies_def NewManager_def)
  then have "flying ?N {replicate 16 3} demo_row_start" by (simp add: flying_def demo_copy_def)
  from flood_can_end [OF demo_uuid_documented demo_row_network _ this] obtain k w where
    w: "(deliver demo_uuid (net_of demo_row) ^^ k) demo_row_start w" "in_flight w = {#}" by auto
  from flood_terminates [OF demo_uuid_documented demo_row_network _ w(1)] start have "k \<le> 10"
    by (simp add: demo_copy_def)
  with w show ?thesis by blast
qed

text \<open>
  C7. A flood reaches every node: when the copies of a message with a well-formed identifier that
  nobody has seen have all been delivered, in whatever order, every node that the node it was
  broadcast on is connected to over any number of links has seen it, provided that the hop limit is
  at least the number of nodes of the network. The origin in the message is what the senders of the
  program put there, a public key, or any other bytes, at least 32 of them, whose first 32 are not
  the identifier of another node of the network (identifiers are hashes of the keys).
\<close>

theorem flood_reaches:
  assumes "uuid_documented U" and "network N net" and "n0 \<in> N" and "\<forall>n \<in> N. \<not> seenCache (gs n) (MessageId m)"
    and "length (MessageId m) = 16" and "32 \<le> length (OriginId m)" and "take 32 (OriginId m) \<notin> N - {n0}"
    and "card N \<le> unat (HopLimit m)" and "(deliver U net)\<^sup>*\<^sup>* (flood_start U net n0 t m gs) w" and "in_flight w = {#}"
    and "(linked net)\<^sup>*\<^sup>* n0 n"
  shows "seenCache (fl_managers w n) (MessageId m)"
proof -
  from flood_inv_run [OF assms(1,2,5,6,7,8,9) flood_inv_start [OF assms(1-8)]]
  have "n \<in> seen_by w N (MessageId m)" by (rule flood_inv_end [OF _ assms(10,11)])
  then show ?thesis by (simp add: seen_by_def)
qed

theorem flood_reaches_witness:
  "\<exists>w. (deliver demo_uuid (net_of demo_row))\<^sup>*\<^sup>* demo_row_start w \<and> in_flight w = {#} \<and>
     seenCache (fl_managers w (demo_node 2)) (replicate 16 3)"
proof -
  let ?N = "{demo_node 0, demo_node 1, demo_node 2}"
  have "flying ?N {replicate 16 3} demo_row_start"
    using demo_broadcast [of demo_row "demo_node 0" "[demo_node 1]" NewManager 3]
    by (auto simp: flood_start_def demo_row_def demo_copies_def demo_copy_def flying_def NewManager_def)
  from flood_can_end [OF demo_uuid_documented demo_row_network _ this] obtain w where
    w: "(deliver demo_uuid (net_of demo_row))\<^sup>*\<^sup>* demo_row_start w" "in_flight w = {#}"
    by (auto dest: relpowp_imp_rtranclp)
  have "linked (net_of demo_row) (demo_node 0) (demo_node 1)" "linked (net_of demo_row) (demo_node 1) (demo_node 2)"
    by (simp_all add: linked_net_of demo_row_def)
  then have "(linked (net_of demo_row))\<^sup>*\<^sup>* (demo_node 0) (demo_node 2)" by (meson converse_rtranclp_into_rtranclp rtranclp.rtrancl_refl)
  from flood_reaches [OF demo_uuid_documented demo_row_network _ _ _ _ _ _ w this] w show ?thesis
    by (auto simp: NewManager_def)
qed

text \<open>
  C36. A flood stays near: a message with a hop limit \<open>h\<close> other than zero is never seen, in whatever
  order its copies are delivered, by a node that is not fewer than \<open>h\<close> links away from the node it
  was broadcast on, and every copy in flight has lost exactly one hop for each link on some way
  from there to its addressee. So the limit does not wrap around on the way.
\<close>

theorem flood_stays_near:
  assumes "uuid_documented U" and "network N net" and "n0 \<in> N" and "HopLimit m \<noteq> 0"
    and "(deliver U net)\<^sup>*\<^sup>* (flood_start U net n0 t m gs) w"
  shows "(seenCache (fl_managers w n) (MessageId m) \<longrightarrow>
      seenCache (gs n) (MessageId m) \<or> (\<exists>k < unat (HopLimit m). (linked net ^^ k) n0 n)) \<and>
    (\<forall>x \<in># in_flight w. HopLimit (send_msg x) \<noteq> 0 \<and>
      (\<exists>k. (linked net ^^ k) n0 (to_peer x) \<and> k + unat (HopLimit (send_msg x)) = unat (HopLimit m)))"
proof -
  note inv = near_inv_run [OF assms(1,2,5) near_inv_start [OF assms(1-4)]]
  show ?thesis using near_invD [OF inv] by blast
qed

text \<open>With a hop limit of two the third node in the row does not see the message.\<close>

theorem flood_stays_near_witness:
  "\<exists>w. (deliver demo_uuid (net_of demo_row))\<^sup>*\<^sup>*
       (flood_start demo_uuid (net_of demo_row) (demo_node 0) TypeGossip (demo_flood_msg 2) (\<lambda>_. NewManager)) w \<and>
     in_flight w = {#} \<and> \<not> seenCache (fl_managers w (demo_node 2)) (replicate 16 3)"
proof -
  let ?N = "{demo_node 0, demo_node 1, demo_node 2}"
  let ?start = "flood_start demo_uuid (net_of demo_row) (demo_node 0) TypeGossip (demo_flood_msg 2) (\<lambda>_. NewManager)"
  have "flying ?N {replicate 16 3} ?start"
    using demo_broadcast [of demo_row "demo_node 0" "[demo_node 1]" NewManager 2]
    by (auto simp: flood_start_def demo_row_def demo_copies_def demo_copy_def flying_def NewManager_def)
  from flood_can_end [OF demo_uuid_documented demo_row_network _ this] obtain w where
    w: "(deliver demo_uuid (net_of demo_row))\<^sup>*\<^sup>* ?start w" "in_flight w = {#}"
    by (auto dest: relpowp_imp_rtranclp)
  have far: "\<not> (linked (net_of demo_row) ^^ k) (demo_node 0) (demo_node 2)" if "k < 2" for k
    using that by (auto simp: less_2_cases_iff linked_net_of demo_row_def)
  from flood_stays_near [OF demo_uuid_documented demo_row_network _ _ w(1), of "demo_node 2"] far
  have "\<not> seenCache (fl_managers w (demo_node 2)) (replicate 16 3)" by (auto simp: NewManager_def)
  with w show ?thesis by blast
qed

end
