(* ===== verification/Garbage.thy ===== *)
theory Garbage
  imports Storage
begin

text \<open>
  \<^verbatim>\<open>NewBadgerStorage\<close> and \<^verbatim>\<open>GCWorker\<close> of \<^verbatim>\<open>internal/storage/badger_storage.go\<close>: the goroutine that
  at every tick of a timer calls the garbage collection of the database until it fails, while the
  rest of the program writes to the same database. The collection itself is the library's:
  \<open>gc db err db'\<close> is a call of \<^verbatim>\<open>RunValueLogGC(0.5)\<close> that may find the database \<open>db\<close>, return \<open>err\<close> and
  leave \<open>db'\<close>. Nothing says how many calls in a row may succeed, so a round may never end.
\<close>

section \<open>The worker\<close>

text \<open>
  The worker waits for a tick or is at the label \<^verbatim>\<open>again\<close>. A ticker's channel holds one tick; it drops
  those that nobody takes.
\<close>

datatype gc_phase =
    GcWaiting
  | GcAgain
  | GcCrashed panic

record 'db gc_world =
  gc_db :: 'db
  gc_tick :: bool
  gc_phase :: gc_phase

text \<open>After a call: the jump back, the next tick, or a panic.\<close>

definition after_collection :: "unit result \<Rightarrow> gc_phase" where
  "after_collection err =
     (case err of
        Inr _ \<Rightarrow> GcAgain
      | Inl (Err e) \<Rightarrow> GcWaiting
      | Inl (Panic p) \<Rightarrow> GcCrashed p)"

definition GCWorker :: "'db \<Rightarrow> 'db gc_world" where
  "GCWorker db = \<lparr>gc_db = db, gc_tick = False, gc_phase = GcWaiting\<rparr>"

text \<open>The storage, and the database with the goroutine that is started for it.\<close>

definition NewBadgerStorage :: "'db badger \<Rightarrow> (bytes \<Rightarrow> gojson result) \<Rightarrow> 'db \<Rightarrow> 'db Storage \<times> 'db gc_world" where
  "NewBadgerStorage B json db = (BadgerStorage B json, GCWorker db)"

datatype gc_event =
    GcTick
  | GcReceive
  | GcCollect "unit result"
  | GcSet bytes bytes "unit result"
  | GcDelete bytes "unit result"

inductive gc_step ::
  "'db badger \<Rightarrow> ('db \<Rightarrow> unit result \<Rightarrow> 'db \<Rightarrow> bool) \<Rightarrow> 'db gc_world \<Rightarrow> gc_event \<Rightarrow> 'db gc_world \<Rightarrow> bool" for B gc where
  tick: "gc_step B gc w GcTick (w\<lparr>gc_tick := True\<rparr>)"
| receive: "gc_phase w = GcWaiting \<Longrightarrow> gc_tick w \<Longrightarrow>
    gc_step B gc w GcReceive (w\<lparr>gc_tick := False, gc_phase := GcAgain\<rparr>)"
| collect: "gc_phase w = GcAgain \<Longrightarrow> gc (gc_db w) err db' \<Longrightarrow>
    gc_step B gc w (GcCollect err) (w\<lparr>gc_db := db', gc_phase := after_collection err\<rparr>)"
| set_key: "Set B k v (gc_db w) = (err, db') \<Longrightarrow>
    gc_step B gc w (GcSet k v err) (w\<lparr>gc_db := db'\<rparr>)"
| delete_key: "Delete B k (gc_db w) = (err, db') \<Longrightarrow>
    gc_step B gc w (GcDelete k err) (w\<lparr>gc_db := db'\<rparr>)"

inductive gc_run ::
  "'db badger \<Rightarrow> ('db \<Rightarrow> unit result \<Rightarrow> 'db \<Rightarrow> bool) \<Rightarrow> 'db gc_world \<Rightarrow> gc_event list \<Rightarrow> 'db gc_world \<Rightarrow> bool" for B gc where
  gc_nil: "gc_run B gc w [] w"
| gc_cons: "gc_step B gc w e w' \<Longrightarrow> gc_run B gc w' es w'' \<Longrightarrow> gc_run B gc w (e # es) w''"

section \<open>The history of a run\<close>

text \<open>What the writes of a run that reported no error do to the contents.\<close>

fun gc_write :: "gc_event \<Rightarrow> (bytes \<rightharpoonup> bytes) \<Rightarrow> (bytes \<rightharpoonup> bytes)" where
  "gc_write (GcSet k v (Inr u)) m = m(k \<mapsto> v)"
| "gc_write (GcDelete k (Inr u)) m = m(k := None)"
| "gc_write _ m = m"

fun failed_collection :: "gc_event \<Rightarrow> bool" where
  "failed_collection (GcCollect (Inl e)) = True"
| "failed_collection _ = False"

definition times :: "(gc_event \<Rightarrow> bool) \<Rightarrow> gc_event list \<Rightarrow> nat" where
  "times P es = length (filter P es)"

lemma times_simps [simp]:
  "times P [] = 0" "times P (e # es) = (if P e then 1 else 0) + times P es"
  by (simp_all add: times_def)

text \<open>
  What is relied on: the collection changes nothing that is stored, leaves the database usable, and
  returns its failures as errors.
\<close>

definition gc_documented ::
  "('db \<Rightarrow> unit result \<Rightarrow> 'db \<Rightarrow> bool) \<Rightarrow> ('db \<Rightarrow> bytes \<rightharpoonup> bytes) \<Rightarrow> ('db \<Rightarrow> bool) \<Rightarrow> bool" where
  "gc_documented gc view ok \<longleftrightarrow>
     (\<forall>db r db'. ok db \<longrightarrow> gc db r db' \<longrightarrow> ok db' \<and> view db' = view db \<and> \<not> is_panic r)"

lemma gc_documentedD:
  assumes "gc_documented gc view ok" and "ok db" and "gc db r db'"
  shows "ok db'" and "view db' = view db" and "\<not> is_panic r"
  using assms unfolding gc_documented_def by blast+

lemma after_collection_cases:
  "\<not> is_panic r \<Longrightarrow> after_collection r = (if failed_collection (GcCollect r) then GcWaiting else GcAgain)"
  by (auto simp: after_collection_def split: sum.split exn.split)

text \<open>The rounds that a worker has begun and not ended, and the ticks it has been given.\<close>

definition open_rounds :: "'db gc_world \<Rightarrow> nat" where
  "open_rounds w = (if gc_phase w = GcAgain then 1 else 0)"

definition waiting_ticks :: "'db gc_world \<Rightarrow> nat" where
  "waiting_ticks w = (if gc_tick w then 1 else 0)"

lemma gc_step_writes:
  assumes "badger_db B json view ok" and "gc_documented gc view ok" and "gc_step B gc w e w'" and "ok (gc_db w)"
  shows "ok (gc_db w') \<and> view (gc_db w') = gc_write e (view (gc_db w))"
  using assms(3,4)
proof (cases rule: gc_step.cases)
  case (collect err db')
  with gc_documentedD [OF assms(2,4)] show ?thesis by simp
next
  case (set_key k v err db')
  then have s: "txn_Set B k v (gc_db w) = (err, db')" by (simp add: Set_def Update_def)
  show ?thesis
  proof (cases err)
    case (Inl e)
    with badger_db.txn_Set_failed [OF assms(1,4)] s set_key show ?thesis by auto
  next
    case (Inr u)
    with badger_db.txn_Set_done [OF assms(1,4)] s set_key show ?thesis by simp
  qed
next
  case (delete_key k err db')
  then have s: "txn_Delete B k (gc_db w) = (err, db')" by (simp add: Delete_def)
  show ?thesis
  proof (cases err)
    case (Inl e)
    with badger_db.txn_Delete_failed [OF assms(1,4)] s delete_key show ?thesis by auto
  next
    case (Inr u)
    with badger_db.txn_Delete_done [OF assms(1,4)] s delete_key show ?thesis by simp
  qed
qed simp_all

lemma gc_step_rounds:
  assumes "gc_documented gc view ok" and "gc_step B gc w e w'" and "ok (gc_db w)"
  shows "open_rounds w + times (\<lambda>e. e = GcReceive) [e] = open_rounds w' + times failed_collection [e] \<and>
    times (\<lambda>e. e = GcReceive) [e] + waiting_ticks w' \<le> times (\<lambda>e. e = GcTick) [e] + waiting_ticks w"
  using assms(2,3)
proof (cases rule: gc_step.cases)
  case (collect err db')
  with gc_documentedD [OF assms(1,3)] show ?thesis
    by (simp add: open_rounds_def waiting_ticks_def after_collection_cases)
qed (simp_all add: open_rounds_def waiting_ticks_def)

lemma gc_run_history:
  assumes "badger_db B json view ok" and "gc_documented gc view ok"
  shows "gc_run B gc w es w' \<Longrightarrow> ok (gc_db w) \<Longrightarrow>
    ok (gc_db w') \<and> view (gc_db w') = fold gc_write es (view (gc_db w)) \<and>
    open_rounds w + times (\<lambda>e. e = GcReceive) es = open_rounds w' + times failed_collection es \<and>
    times (\<lambda>e. e = GcReceive) es + waiting_ticks w' \<le> times (\<lambda>e. e = GcTick) es + waiting_ticks w"
proof (induction rule: gc_run.induct)
  case (gc_cons w e w' es w'')
  from gc_step_writes [OF assms gc_cons(1,4)] gc_step_rounds [OF assms(2) gc_cons(1,4)] gc_cons(3) show ?case by auto
qed simp

section \<open>Properties\<close>

text \<open>
  C25. The garbage collecting worker does no harm to what is stored and does one round at a time:
  however its calls interleave with writes of the rest of the program, also between the calls of
  one round, and however often the timer ticks, what \<^verbatim>\<open>Get\<close> returns for a key is what the successful
  writes alone have made of it; every round ends with exactly one failed call, at most one is
  unfinished, and none is begun without a tick, of which at most one is kept. (So a worker whose
  calls never fail stays in its first round.)
\<close>

theorem gc_worker_rounds:
  assumes "badger_db B json view ok" and "gc_documented gc view ok" and "ok db"
    and "NewBadgerStorage B json db = (S, w)" and "gc_run B gc w es w'"
  shows "(k \<noteq> [] \<longrightarrow> st_Get S k (gc_db w') =
      (case fold gc_write es (view db) k of None \<Rightarrow> Inl (Err ErrKeyNotFound) | Some v \<Rightarrow> Inr v)) \<and>
    times (\<lambda>e. e = GcReceive) es = times failed_collection es + (if gc_phase w' = GcAgain then 1 else 0) \<and>
    times (\<lambda>e. e = GcReceive) es + (if gc_tick w' then 1 else 0) \<le> times (\<lambda>e. e = GcTick) es"
proof -
  have w: "S = BadgerStorage B json" "w = GCWorker db" using assms(4) by (simp_all add: NewBadgerStorage_def)
  have start: "gc_db w = db" "open_rounds w = 0" "waiting_ticks w = 0"
    by (simp_all add: w(2) GCWorker_def open_rounds_def waiting_ticks_def)
  from gc_run_history [OF assms(1,2,5)] assms(3) start
  have h: "ok (gc_db w')" "view (gc_db w') = fold gc_write es (view db)"
    "times (\<lambda>e. e = GcReceive) es = open_rounds w' + times failed_collection es"
    "times (\<lambda>e. e = GcReceive) es + waiting_ticks w' \<le> times (\<lambda>e. e = GcTick) es" by auto
  from kv_storage.Get_view [OF badger_kv [OF assms(1)] h(1)] h(2)
  have "k \<noteq> [] \<longrightarrow> st_Get S k (gc_db w') =
      (case fold gc_write es (view db) k of None \<Rightarrow> Inl (Err ErrKeyNotFound) | Some v \<Rightarrow> Inr v)" by (simp add: w(1))
  with h(3,4) show ?thesis by (simp add: open_rounds_def waiting_ticks_def)
qed

text \<open>A collection that may succeed or fail; a key is written between two calls of a round.\<close>

definition demo_gc :: "memdb \<Rightarrow> unit result \<Rightarrow> memdb \<Rightarrow> bool" where
  "demo_gc db r db' \<longleftrightarrow> db' = db \<and> (r = Inr () \<or> r = Inl (Err (ErrLib ''no rewrite'')))"

lemma demo_gc_documented: "gc_documented demo_gc map_of mem_ok"
  by (auto simp: gc_documented_def demo_gc_def)

theorem gc_worker_rounds_witness:
  "\<exists>w'. gc_run mem_badger demo_gc (GCWorker [])
       [GcTick, GcReceive, GcCollect (Inr ()), GcSet [1] [2] (Inr ()), GcTick,
        GcCollect (Inl (Err (ErrLib ''no rewrite'')))] w' \<and>
     st_Get (BadgerStorage mem_badger null_json) [1] (gc_db w') = Inr [2] \<and> gc_phase w' = GcWaiting"
proof -
  let ?R = "gc_step mem_badger demo_gc" and ?no = "Inl (Err (ErrLib ''no rewrite'')) :: unit result"
  let ?w = "\<lambda>db t p. \<lparr>gc_db = db, gc_tick = t, gc_phase = p\<rparr> :: memdb gc_world"
  let ?S = "BadgerStorage mem_badger null_json"
  obtain db where s: "Set mem_badger [1] [2] [] = (Inr (), db)"
    by (simp add: Set_def Update_def mem_badger_def)
  have 1: "?R (GCWorker []) GcTick (?w [] True GcWaiting)"
    using gc_step.tick [of mem_badger demo_gc "GCWorker []"] by (simp add: GCWorker_def)
  have 2: "?R (?w [] True GcWaiting) GcReceive (?w [] False GcAgain)"
    using gc_step.receive [of "?w [] True GcWaiting"] by simp
  have 3: "?R (?w [] False GcAgain) (GcCollect (Inr ())) (?w [] False GcAgain)"
    using gc_step.collect [of "?w [] False GcAgain" demo_gc "Inr ()" "[]"] by (simp add: demo_gc_def after_collection_def)
  have 4: "?R (?w [] False GcAgain) (GcSet [1] [2] (Inr ())) (?w db False GcAgain)"
    using gc_step.set_key [of mem_badger "[1]" "[2]" "?w [] False GcAgain"] s by simp
  have 5: "?R (?w db False GcAgain) GcTick (?w db True GcAgain)"
    using gc_step.tick [of mem_badger demo_gc "?w db False GcAgain"] by simp
  have 6: "?R (?w db True GcAgain) (GcCollect ?no) (?w db True GcWaiting)"
    using gc_step.collect [of "?w db True GcAgain" demo_gc ?no db] by (simp add: demo_gc_def after_collection_def)
  note run = gc_cons [OF 1 gc_cons [OF 2 gc_cons [OF 3 gc_cons [OF 4 gc_cons [OF 5 gc_cons [OF 6 gc_nil]]]]]]
  have new: "NewBadgerStorage mem_badger null_json [] = (?S, GCWorker [])"
    by (simp add: NewBadgerStorage_def)
  have "mem_ok []" by (simp add: mem_ok_def)
  from gc_worker_rounds [OF mem.badger_db_axioms demo_gc_documented this new run, of "[1]"]
  have "st_Get ?S [1] db = Inr [2]" by simp
  with run show ?thesis by (intro exI [of _ "?w db True GcWaiting"]) simp
qed

end
