(* ===== verification/Messenger.thy ===== *)
theory Messenger
  imports Gossip Crypto
begin

text \<open>
  \<^verbatim>\<open>internal/services/messenger/service.go\<close>: chat messages, encrypted for the recipient and
  flooded through the gossip manager, and their handler.
\<close>

record MessageService =
  cryptoEngine :: Engine
  ms_myPrivKey :: PeerPrivateKey

definition NewMessageService :: "PeerPrivateKey \<Rightarrow> Engine \<Rightarrow> MessageService" where
  "NewMessageService priv eng = \<lparr>cryptoEngine = eng, ms_myPrivKey = priv\<rparr>"

text \<open>
  The state of the application that the handlers of the services act on: the swarm, the gossip
  manager, the log of decrypted messages, and the sends that were started.
\<close>

record ('db, 'c) app_state =
  app_swarm :: "('db, 'c) Swarm"
  app_gossip :: Manager
  inbox :: "bytes list"
  outbox :: "send list"

text \<open>
  \<^verbatim>\<open>Handle\<close>: the payload is asserted to be a chat message, the origin is converted to an array,
  and what decrypts is logged.
\<close>

definition Messenger_Handle ::
  "kx_lib \<Rightarrow> MessageService \<Rightarrow> MessageData \<Rightarrow> PeerID \<Rightarrow> ('db, 'c) app_state \<Rightarrow>
   panic option \<times> ('db, 'c) app_state" where
  "Messenger_Handle K svc msg peerID st =
     (case Payload msg of
        Some (MessageData_ChatMessage cm) \<Rightarrow>
          (let encryptedPayload = EncryptedPayload cm
           in (case to_array 32 (OriginId msg) of
                 Inl e \<Rightarrow> (exn_panic e, st)
               | Inr pubKey \<Rightarrow>
                 (case Decrypt K (cryptoEngine svc) encryptedPayload pubKey of
                    Inl e \<Rightarrow> (exn_panic e, st)
                  | Inr data \<Rightarrow> (None, st\<lparr>inbox := inbox st @ [data]\<rparr>))))
      | _ \<Rightarrow> (Some TypeAssertionFailed, st))"

definition Messenger_GetSubscribedTypes :: "payload_type option list" where
  "Messenger_GetSubscribedTypes = [Some T_ChatMessage]"

text \<open>\<open>i\<close> is what \<^verbatim>\<open>uuid.New()\<close> gives, \<open>now\<close> the time.\<close>

definition PackChatMessage :: "bytes \<Rightarrow> u64 \<Rightarrow> bytes \<Rightarrow> bytes \<Rightarrow> bytes \<Rightarrow> MessageData" where
  "PackChatMessage i now encryptedPayload from to =
     \<lparr>MessageId = i, OriginId = from, TargetId = to, Timestamp = now, HopLimit = 20,
      Payload = Some (MessageData_ChatMessage \<lparr>EncryptedPayload = encryptedPayload\<rparr>)\<rparr>"

text \<open>
  \<open>rnd\<close> is the outcome of drawing the nonce, \<open>order\<close> the order in which the map of peers is
  visited. A panic of the broadcast is passed on.
\<close>

definition Messenger_Send ::
  "kx_lib \<Rightarrow> uuid_lib \<Rightarrow> MessageService \<Rightarrow> bytes result \<Rightarrow> bytes \<Rightarrow> u64 \<Rightarrow> PeerID list \<Rightarrow>
   PeerPublicKey \<Rightarrow> bytes \<Rightarrow> ('db, 'c) app_state \<Rightarrow> unit result \<times> ('db, 'c) app_state" where
  "Messenger_Send K U svc rnd i now order toPeerPubKey data st =
     (case Encrypt K (cryptoEngine svc) data toPeerPubKey rnd of
        Inl e \<Rightarrow> (Inl e, st)
      | Inr encryptData \<Rightarrow>
        (let pubKey = PeerPrivateKeyToPublic (ms_myPrivKey svc);
             chatMessage = PackChatMessage i now encryptData pubKey toPeerPubKey;
             (p, sends, m, g) = Broadcast U order (app_swarm st) TypeChatMessage chatMessage (app_gossip st);
             st = st\<lparr>app_gossip := g, outbox := outbox st @ sends\<rparr>
         in (case p of None \<Rightarrow> (Inr (), st) | Some x \<Rightarrow> (Inl (Panic x), st))))"

section \<open>The handler keeps the contract of a service\<close>

text \<open>The primitives of the key agreement return errors; none of them panics.\<close>

definition kx_no_panic :: "kx_lib \<Rightarrow> bool" where
  "kx_no_panic K \<longleftrightarrow>
     (\<forall>b. \<not> is_panic (ed_point_Montgomery K b)) \<and> (\<forall>b. \<not> is_panic (x25519_NewPublicKey K b)) \<and>
     (\<forall>a b. \<not> is_panic (x25519_ECDH K a b)) \<and> (\<forall>a b n. \<not> is_panic (hkdf_sha256 K a b n)) \<and>
     (\<forall>k. \<not> is_panic (aes_NewGCM K k)) \<and> (\<forall>k n c. \<not> is_panic (gcm_Open K k n c))"

lemma exn_panic_wrap [simp]: "exn_panic (wrap s e) = exn_panic e"
  by (cases e) simp_all

lemma not_panicD: "\<not> is_panic r \<Longrightarrow> r = Inl e \<Longrightarrow> exn_panic e = None"
  by (cases e) simp_all

lemma kx_no_panicD:
  assumes "kx_no_panic K"
  shows "ed_point_Montgomery K b = Inl e \<Longrightarrow> exn_panic e = None"
    and "x25519_NewPublicKey K b = Inl e \<Longrightarrow> exn_panic e = None"
    and "x25519_ECDH K b c = Inl e \<Longrightarrow> exn_panic e = None"
    and "hkdf_sha256 K b c n = Inl e \<Longrightarrow> exn_panic e = None"
    and "aes_NewGCM K b = Inl e \<Longrightarrow> exn_panic e = None"
    and "gcm_Open K k b c = Inl e \<Longrightarrow> exn_panic e = None"
  using assms unfolding kx_no_panic_def by (metis not_panicD)+

lemma computeSharedKey_no_panic:
  assumes "kx_no_panic K" and "computeSharedKey K e p = Inl x"
  shows "exn_panic x = None"
  using assms(2) kx_no_panicD [OF assms(1)]
  by (auto simp: computeSharedKey_def EdPubKeyToX25519_def split: sum.splits)

lemma Decrypt_no_panic:
  assumes K: "kx_no_panic K" and "Decrypt K e c p = Inl x"
  shows "exn_panic x = None"
  using assms(2) computeSharedKey_no_panic [OF K] kx_no_panicD [OF K]
  by (auto simp: Decrypt_def Let_def split: sum.splits if_splits)

locale key_agreement =
  fixes K :: kx_lib and svc :: MessageService
  assumes kx: "kx_no_panic K"

sublocale key_agreement \<subseteq> chat: service "Messenger_Handle K svc" Messenger_GetSubscribedTypes
    "\<lambda>m. 32 \<le> length (OriginId m)"
proof
  fix m :: MessageData and i and st :: "('a, 'b) app_state"
  assume "TypeOf (Payload m) \<in> set Messenger_GetSubscribedTypes" and o: "32 \<le> length (OriginId m)"
  then obtain p where "Payload m = Some p" "type_of_payload p = T_ChatMessage"
    by (auto simp: TypeOf_def Messenger_GetSubscribedTypes_def)
  moreover from this(2) obtain cm where "p = MessageData_ChatMessage cm" by (cases p) simp_all
  ultimately show "fst (Messenger_Handle K svc m i st) = None"
    using o Decrypt_no_panic [OF kx]
    by (auto simp: Messenger_Handle_def to_array_def split: sum.split)
qed

context key_agreement
begin

lemma chat_service:
  "service (Messenger_Handle K svc) Messenger_GetSubscribedTypes (\<lambda>m. 32 \<le> length (OriginId m))"
  by unfold_locales

end

lemma demo_kx_no_panic: "kx_no_panic demo_kx"
  by (simp add: kx_no_panic_def demo_kx_def Let_def)

definition demo_service :: "byte \<Rightarrow> MessageService" where
  "demo_service x = NewMessageService (demo_key x) \<lparr>myDiffieHellmanKey = edPrivToX25519 (demo_key x)\<rparr>"

interpretation demo_chat: key_agreement demo_kx "demo_service x" for x
  by unfold_locales (rule demo_kx_no_panic)

section \<open>Sending and handling\<close>

lemma PackChatMessage_simps [simp]:
  "MessageId (PackChatMessage i now c from to) = i" "OriginId (PackChatMessage i now c from to) = from"
  "TargetId (PackChatMessage i now c from to) = to" "HopLimit (PackChatMessage i now c from to) = 20"
  "Payload (PackChatMessage i now c from to) = Some (MessageData_ChatMessage \<lparr>EncryptedPayload = c\<rparr>)"
  by (simp_all add: PackChatMessage_def)

text \<open>What a successful send put into the outbox.\<close>

lemma Messenger_Send_sends:
  assumes "Messenger_Send K U svc rnd i now order to data st = (Inr u, st')"
  obtains ct sends where "Encrypt K (cryptoEngine svc) data to rnd = Inr ct"
    "outbox st' = outbox st @ sends" "inbox st' = inbox st" "app_swarm st' = app_swarm st"
    "\<And>x. x \<in> set sends \<Longrightarrow> send_type x = TypeChatMessage \<and>
       send_msg x = (PackChatMessage i now ct (PeerPrivateKeyToPublic (ms_myPrivKey svc)) to)\<lparr>HopLimit := 19\<rparr>"
proof -
  obtain ct where ct: "Encrypt K (cryptoEngine svc) data to rnd = Inr ct"
    using assms by (auto simp: Messenger_Send_def split: sum.splits)
  let ?pub = "PeerPrivateKeyToPublic (ms_myPrivKey svc)"
  let ?m = "PackChatMessage i now ct ?pub to"
  obtain p sends m g where b: "Broadcast U order (app_swarm st) TypeChatMessage ?m (app_gossip st) = (p, sends, m, g)"
    by (metis prod_cases4)
  have "outbox st' = outbox st @ sends" "inbox st' = inbox st" "app_swarm st' = app_swarm st"
    using assms ct b by (auto simp: Messenger_Send_def Let_def split: option.splits)
  moreover have "send_type x = TypeChatMessage \<and> send_msg x = ?m\<lparr>HopLimit := 19\<rparr>" if "x \<in> set sends" for x
    using that b by (auto simp: Broadcast_def Let_def broadcast_loop_long split: sum.splits if_splits prod.splits)
  ultimately show thesis using that ct by blast
qed

text \<open>The handler of the recipient decrypts what the sender encrypted for it.\<close>

lemma Messenger_Handle_chat:
  assumes "Payload m = Some (MessageData_ChatMessage \<lparr>EncryptedPayload = ct\<rparr>)" and "OriginId m = pub"
    and "length pub = 32" and "Decrypt K (cryptoEngine svc) ct pub = Inr data"
  shows "Messenger_Handle K svc m i st = (None, st\<lparr>inbox := inbox st @ [data]\<rparr>)"
  using assms by (simp add: Messenger_Handle_def)

section \<open>Properties\<close>

text \<open>
  What the handler of chat messages does, on every branch: it panics exactly if the payload
  is not a chat message or the origin has fewer than 32 bytes; otherwise it adds to the log what
  the payload decrypts to with the origin's first 32 bytes as public key, and nothing when it does
  not decrypt. So any peer whose envelope is accepted can crash the node with a chat message that
  names a short origin.
\<close>

theorem chat_handler_cases:
  assumes "kx_no_panic K"
  shows "Messenger_Handle K svc m i st =
    (case Payload m of
       Some (MessageData_ChatMessage cm) \<Rightarrow>
         if length (OriginId m) < 32 then (Some SliceToArrayLength, st)
         else (case Decrypt K (cryptoEngine svc) (EncryptedPayload cm) (take 32 (OriginId m)) of
                 Inl e \<Rightarrow> (None, st)
               | Inr data \<Rightarrow> (None, st\<lparr>inbox := inbox st @ [data]\<rparr>))
     | _ \<Rightarrow> (Some TypeAssertionFailed, st))"
  using Decrypt_no_panic [OF assms, of "cryptoEngine svc" _ "take 32 (OriginId m)"]
  by (auto simp: Messenger_Handle_def to_array_def split: option.split Payload.split sum.split)

definition demo_app :: "byte \<Rightarrow> (memdb, nat) app_state" where
  "demo_app x = \<lparr>app_swarm = demo_swarm\<lparr>myPrivKey := demo_key x\<rparr>, app_gossip = NewManager, inbox = [], outbox = []\<rparr>"

theorem chat_handler_cases_witness:
  "Messenger_Handle demo_kx (demo_service 1) (PackChatMessage [] 0 [] [1, 2, 3] []) [] (demo_app 1) =
    (Some SliceToArrayLength, demo_app 1)"
  using chat_handler_cases [OF demo_kx_no_panic, of "demo_service 1" "PackChatMessage [] 0 [] [1, 2, 3] []" "[]" "demo_app 1"]
  by simp

end
