(* ===== verification/Discovery.thy ===== *)
theory Discovery
  imports Messenger
begin

text \<open>
  \<^verbatim>\<open>internal/services/discovery/service.go\<close>: the exchange of peer lists, and
  \<^verbatim>\<open>internal/services/discovery/m_dns.go\<close>: the discovery of peers in the local network.
\<close>

section \<open>The exchange of peers\<close>

text \<open>
  The inputs of the giver's reply: the new message identifier and time, the order in which the
  map of peers is visited, and the network: the outcome of opening a stream and of closing it.
\<close>

record reply_env =
  re_uuid :: bytes
  re_now :: u64
  re_order :: "PeerID list"
  re_opened :: "qstream result"
  re_closed :: "unit result"

text \<open>
  The service and its two handlers, which point back to it: of what they share, the public key; the
  store, the gossip manager and the swarm are parts of the application's state.
\<close>

record service_fields =
  sv_myPubKey :: PeerPublicKey

record peerGetter =
  getter_service :: service_fields

record peerGiver =
  giver_service :: service_fields

record DiscoveryService =
  ds_fields :: service_fields
  ds_getter :: peerGetter
  ds_giver :: peerGiver

definition newPeerGetter :: "service_fields \<Rightarrow> peerGetter" where
  "newPeerGetter ds = \<lparr>getter_service = ds\<rparr>"

definition newPeerGiver :: "service_fields \<Rightarrow> peerGiver" where
  "newPeerGiver ds = \<lparr>giver_service = ds\<rparr>"

definition NewDiscoveryService :: "PeerPublicKey \<Rightarrow> DiscoveryService" where
  "NewDiscoveryService myPubKey =
     (let ds = \<lparr>sv_myPubKey = myPubKey\<rparr>;
          getter = newPeerGetter ds;
          giver = newPeerGiver ds
      in \<lparr>ds_fields = ds, ds_getter = getter, ds_giver = giver\<rparr>)"

lemma NewDiscoveryService_key [simp]: "sv_myPubKey (giver_service (ds_giver (NewDiscoveryService k))) = k"
  by (simp add: NewDiscoveryService_def newPeerGiver_def Let_def)

definition peerGetter_Handle ::
  "MessageData \<Rightarrow> PeerID \<Rightarrow> ('db, 'c) app_state \<Rightarrow> panic option \<times> ('db, 'c) app_state" where
  "peerGetter_Handle msg peerID st = (None, st)"

definition peer_info :: "'c Peer \<Rightarrow> PeerInfo" where
  "peer_info p = \<lparr>pi_PubKey = p_pubKey p, pi_Address = p_addr p\<rparr>"

text \<open>A request that is sent directly and succeeds is not broadcast.\<close>

definition peerGiver_Handle ::
  "MessageData codec \<Rightarrow> Envelope codec \<Rightarrow> ed25519_lib \<Rightarrow> uuid_lib \<Rightarrow> reply_env \<Rightarrow> PeerPublicKey \<Rightarrow>
   MessageData \<Rightarrow> PeerID \<Rightarrow> ('db, 'c) app_state \<Rightarrow> panic option \<times> ('db, 'c) app_state" where
  "peerGiver_Handle M V E U R myPubKey msg peerID st =
     (case Payload msg of
        Some (MessageData_PeerReq req) \<Rightarrow>
          (let peers = GetMyRandomPeers (unat (Count req)) (re_order R) (app_swarm st);
               peersInfo = map peer_info peers;
               peerResponse = \<lparr>MessageId = re_uuid R, OriginId = myPubKey, TargetId = OriginId msg,
                 Timestamp = re_now R, HopLimit = 20,
                 Payload = Some (MessageData_PeerRes \<lparr>pr_Peers = peersInfo\<rparr>)\<rparr>
           in (case to_array 32 (OriginId msg) of
                 Inl e \<Rightarrow> (exn_panic e, st)
               | Inr originID \<Rightarrow>
                 (let direct = (if ThisIsActivePeer originID (app_swarm st)
                    then Some (fst (SendDataForPeer M V E originID TypeGetPeerResponse peerResponse
                      (re_opened R) (re_closed R) (app_swarm st)))
                    else None);
                      (p, sends, m, g) = Broadcast U (re_order R) (app_swarm st) TypeGetPeerResponse
                        peerResponse (app_gossip st);
                      broadcasted = (p, st\<lparr>app_gossip := g, outbox := outbox st @ sends\<rparr>)
                  in (case direct of
                        Some (Inr _) \<Rightarrow> (None, st)
                      | Some (Inl (Panic x)) \<Rightarrow> (Some x, st)
                      | _ \<Rightarrow> broadcasted))))
      | _ \<Rightarrow> (None, st))"

text \<open>
  \<^verbatim>\<open>DiscoveryService.Handle\<close>: a response is given to the giver, a request to the getter.
\<close>

definition Discovery_Handle ::
  "MessageData codec \<Rightarrow> Envelope codec \<Rightarrow> ed25519_lib \<Rightarrow> uuid_lib \<Rightarrow> reply_env \<Rightarrow> PeerPublicKey \<Rightarrow>
   MessageData \<Rightarrow> PeerID \<Rightarrow> ('db, 'c) app_state \<Rightarrow> panic option \<times> ('db, 'c) app_state" where
  "Discovery_Handle M V E U R myPubKey msg peerID st =
     (case Payload msg of
        Some (MessageData_PeerRes _) \<Rightarrow> peerGiver_Handle M V E U R myPubKey msg peerID st
      | Some (MessageData_PeerReq _) \<Rightarrow> peerGetter_Handle msg peerID st
      | _ \<Rightarrow> (None, st))"

definition Discovery_GetSubscribedTypes :: "payload_type option list" where
  "Discovery_GetSubscribedTypes = [Some T_PeerReq, Some T_PeerRes]"

lemma Discovery_Handle_noop: "Discovery_Handle M V E U R k m i st = (None, st)"
  by (auto simp: Discovery_Handle_def peerGiver_Handle_def peerGetter_Handle_def
      split: option.split Payload.split)

interpretation discovery: service "Discovery_Handle M V E U R k" Discovery_GetSubscribedTypes "\<lambda>m. True"
  for M V E U R k
  by unfold_locales (simp add: Discovery_Handle_noop)

section \<open>Discovery in the local network\<close>

record ServiceEntry =
  se_Text :: "bytes list"
  AddrIPv4 :: "bytes list"
  AddrIPv6 :: "bytes list"
  se_Port :: nat

definition id_prefix :: bytes where
  "id_prefix = bytes_of_string ''id=''"

text \<open>The TXT record that \<^verbatim>\<open>Start\<close> registers.\<close>

definition id_record :: "PeerID \<Rightarrow> bytes" where
  "id_record myID = id_prefix @ hex_EncodeToString myID"

definition txt_records :: "PeerID \<Rightarrow> bytes list" where
  "txt_records myID = [id_record myID, bytes_of_string ''v=1.0.0'']"

text \<open>The loop over the TXT records: the first one with the prefix decides.\<close>

fun find_id :: "bytes list \<Rightarrow> PeerID option" where
  "find_id [] = None"
| "find_id (rec # recs) =
     (if prefix id_prefix rec then
        (case hex_DecodeString (drop (length id_prefix) rec) of
           Inl _ \<Rightarrow> None
         | Inr idBytes \<Rightarrow>
           (case ToPeerID idBytes of
              Inl _ \<Rightarrow> None
            | Inr remoteID \<Rightarrow> Some remoteID))
      else find_id recs)"

text \<open>
  The call of the notifier that an entry leads to, if any. \<open>show_ip\<close> is \<^verbatim>\<open>net.IP.String\<close>.
\<close>

definition handleEntry :: "(bytes \<Rightarrow> bytes) \<Rightarrow> PeerID \<Rightarrow> ServiceEntry \<Rightarrow> (PeerID \<times> bytes) option" where
  "handleEntry show_ip myID entry =
     (case find_id (se_Text entry) of
        None \<Rightarrow> None
      | Some remoteID \<Rightarrow>
          if remoteID = myID then None
          else
            (case AddrIPv4 entry of
               a # _ \<Rightarrow> Some (remoteID, show_ip a @ bytes_of_string ('':'' @ string_of_nat (se_Port entry)))
             | [] \<Rightarrow>
               (case AddrIPv6 entry of
                  a # _ \<Rightarrow> Some (remoteID, bytes_of_string ''['' @ show_ip a @
                    bytes_of_string ('']:'' @ string_of_nat (se_Port entry)))
                | [] \<Rightarrow> None)))"

text \<open>
  The service: whether the zeroconf server is set, the identifier and the port. \<open>outcome\<close> is the
  result of registering with zeroconf; what is registered is the third component.
\<close>

record MDNSService =
  md_server :: bool
  md_myID :: PeerID
  md_port :: int

definition NewMDNS :: "PeerID \<Rightarrow> int \<Rightarrow> MDNSService" where
  "NewMDNS i port = \<lparr>md_server = False, md_myID = i, md_port = port\<rparr>"

record registration =
  reg_instance :: bytes
  reg_text :: "bytes list"
  reg_port :: int

definition MDNS_Start :: "unit result \<Rightarrow> MDNSService \<Rightarrow> unit result \<times> MDNSService \<times> registration" where
  "MDNS_Start outcome s =
     (let idHex = hex_EncodeToString (md_myID s);
          reg = \<lparr>reg_instance = bytes_of_string ''EchoFog-'' @ take 6 idHex, reg_text = txt_records (md_myID s),
            reg_port = md_port s\<rparr>
      in (case outcome of
            Inl e \<Rightarrow> (Inl (wrap ''failed to register mDNS service'' e), s, reg)
          | Inr _ \<Rightarrow> (Inr (), s\<lparr>md_server := True\<rparr>, reg)))"

text \<open>
  What the \<^verbatim>\<open>select\<close> of \<^verbatim>\<open>browseLoop\<close> gives in a round: the context is done, or an entry is
  received, which is nil when zeroconf has closed the channel; reading a field of a nil entry
  panics. The result has the calls of the notifier, and whether the loop has returned.
\<close>

datatype browse_event = BrDone | BrEntry "ServiceEntry option"

fun browse_rounds ::
  "(bytes \<Rightarrow> bytes) \<Rightarrow> MDNSService \<Rightarrow> browse_event list \<Rightarrow> (PeerID \<times> bytes) list \<Rightarrow>
   panic option \<times> (PeerID \<times> bytes) list \<times> bool" where
  "browse_rounds show_ip s [] calls = (None, calls, False)"
| "browse_rounds show_ip s (BrDone # evs) calls =
     (if md_server s then (None, calls, True) else (Some NilDereference, calls, False))"
| "browse_rounds show_ip s (BrEntry None # evs) calls = (Some NilDereference, calls, False)"
| "browse_rounds show_ip s (BrEntry (Some entry) # evs) calls =
     browse_rounds show_ip s evs
       (case handleEntry show_ip (md_myID s) entry of None \<Rightarrow> calls | Some call \<Rightarrow> calls @ [call])"

text \<open>\<open>resolver\<close> is the outcome of making the resolver.\<close>

definition browseLoop ::
  "(bytes \<Rightarrow> bytes) \<Rightarrow> unit result \<Rightarrow> MDNSService \<Rightarrow> browse_event list \<Rightarrow>
   panic option \<times> (PeerID \<times> bytes) list \<times> bool" where
  "browseLoop show_ip resolver s evs =
     (case resolver of
        Inl e \<Rightarrow> (None, [], True)
      | Inr _ \<Rightarrow> browse_rounds show_ip s evs [])"

text \<open>The third component of the result: whether the server was shut down.\<close>

definition MDNS_Stop :: "MDNSService \<Rightarrow> bool" where
  "MDNS_Stop s = md_server s"

lemma browse_rounds_entries:
  "browse_rounds show_ip s (map (\<lambda>e. BrEntry (Some e)) es @ evs) calls =
    browse_rounds show_ip s evs (calls @ List.map_filter (handleEntry show_ip (md_myID s)) es)"
  by (induction es arbitrary: calls) (simp_all add: List.map_filter_simps split: option.split)

lemma find_id_txt: "length i = 32 \<Longrightarrow> find_id (txt_records i @ recs) = Some i"
  by (simp add: txt_records_def id_record_def codec_simps ToPeerID_def copy_same_length)

lemma find_id_length: "find_id recs = Some i \<Longrightarrow> length i = 32"
  by (induction recs) (auto simp: ToPeerID_Inr_iff split: if_splits sum.splits)

section \<open>Properties\<close>

lemma take_peers_length: "length (take_peers n c ps res) \<le> max (length res) (length res + (n - c))"
  by (induction n c ps res rule: take_peers.induct) auto

lemma GetMyRandomPeers_length: "length (GetMyRandomPeers n order s) \<le> n"
  using take_peers_length [of n 0 "GetAllPeers order s" "[]"] by (simp add: GetMyRandomPeers_def)

lemma Broadcast_sends:
  "Broadcast U order s t m g = (p, sends, m', g') \<Longrightarrow> x \<in> set sends \<Longrightarrow>
    send_type x = t \<and> send_msg x = m\<lparr>HopLimit := HopLimit m - 1\<rparr>"
  by (cases "32 \<le> length (OriginId m)")
    (auto simp: Broadcast_def Let_def broadcast_loop_long broadcast_loop_short
      split: sum.splits if_splits prod.splits)

text \<open>
  The exchange of peers does nothing: the handler gives requests to the getter, whose body is
  empty, and responses to the giver, which returns at once unless it is given a request. So no
  message, request or response, changes anything or makes the node send anything. The giver, if
  it is called with a request, does answer: whatever it broadcasts is a response to the requester
  with this node as origin and at most the requested number of peers.
\<close>

theorem peer_exchange_does_nothing:
  assumes "peerGiver_Handle M V E U R k m i st = (p, st')" and "x \<in> set (outbox st') - set (outbox st)"
  shows "Discovery_Handle M V E U R k m i st = (None, st) \<and>
    (\<exists>req ps. Payload m = Some (MessageData_PeerReq req) \<and> length ps \<le> unat (Count req) \<and>
       Payload (send_msg x) = Some (MessageData_PeerRes \<lparr>pr_Peers = ps\<rparr>) \<and>
       OriginId (send_msg x) = k \<and> TargetId (send_msg x) = OriginId m \<and> send_type x = TypeGetPeerResponse)"
proof -
  from assms obtain req where req: "Payload m = Some (MessageData_PeerReq req)"
    by (auto simp: peerGiver_Handle_def split: option.splits Payload.splits)
  let ?ps = "map peer_info (GetMyRandomPeers (unat (Count req)) (re_order R) (app_swarm st))"
  let ?r = "\<lparr>MessageId = re_uuid R, OriginId = k, TargetId = OriginId m, Timestamp = re_now R, HopLimit = 20,
    Payload = Some (MessageData_PeerRes \<lparr>pr_Peers = ?ps\<rparr>)\<rparr>"
  obtain q sends m' g' where b: "Broadcast U (re_order R) (app_swarm st) TypeGetPeerResponse ?r (app_gossip st) =
      (q, sends, m', g')" by (metis prod_cases4)
  have "x \<in> set sends"
    using assms req b
    by (auto simp: peerGiver_Handle_def Let_def split: sum.splits option.splits exn.splits if_splits)
  with Broadcast_sends [OF b this] req GetMyRandomPeers_length [of "unat (Count req)"]
  show ?thesis by (auto simp: Discovery_Handle_noop)
qed

definition demo_reply_env :: reply_env where
  "demo_reply_env = \<lparr>re_uuid = replicate 16 4, re_now = 0, re_order = [sha256 [1]],
     re_opened = Inr demo_stream, re_closed = Inr ()\<rparr>"

definition demo_request :: MessageData where
  "demo_request = (payload_only (MessageData_PeerReq \<lparr>Count = 3\<rparr>))\<lparr>OriginId := demo_origin\<rparr>"

theorem peer_exchange_does_nothing_witness:
  "\<exists>st' x ps. peerGiver_Handle msg_codec env_codec demo_ed demo_uuid demo_reply_env demo_origin demo_request [] (demo_app 1) =
      (None, st') \<and> x \<in> set (outbox st') \<and> Payload (send_msg x) = Some (MessageData_PeerRes \<lparr>pr_Peers = ps\<rparr>) \<and>
    length ps \<le> 3 \<and>
    Discovery_Handle msg_codec env_codec demo_ed demo_uuid demo_reply_env demo_origin demo_request [] (demo_app 1) =
      (None, demo_app 1)"
proof -
  let ?s = "demo_swarm\<lparr>myPrivKey := demo_key 1\<rparr>"
  have s: "swarm_ok ?s" "visits [sha256 [1]] ?s"
    using demo_swarm_ok demo_visits by (simp_all add: swarm_ok_def visits_def)
  let ?g = "peerGiver_Handle msg_codec env_codec demo_ed demo_uuid demo_reply_env demo_origin demo_request [] (demo_app 1)"
  have inactive: "\<not> ThisIsActivePeer demo_origin ?s"
    by (simp add: ThisIsActivePeer_def demo_swarm_eq, metis demo_origin(2))
  let ?ps = "map peer_info (GetMyRandomPeers 3 [sha256 [1]] ?s)"
  let ?m = "\<lparr>MessageId = replicate 16 4, OriginId = demo_origin, TargetId = demo_origin, Timestamp = 0, HopLimit = 20,
    Payload = Some (MessageData_PeerRes \<lparr>pr_Peers = ?ps\<rparr>)\<rparr>"
  have "Broadcast demo_uuid [sha256 [1]] ?s TypeGetPeerResponse ?m NewManager =
      (let (p, sends) = broadcast_loop TypeGetPeerResponse (?m\<lparr>HopLimit := 19\<rparr>) (GetAllPeers [sha256 [1]] ?s) []
       in (p, sends, ?m\<lparr>HopLimit := 19\<rparr>, NewManager\<lparr>seenCache := (seenCache NewManager)(replicate 16 4 := True)\<rparr>))"
    by (subst Broadcast_fresh) (simp_all add: demo_uuid_def NewManager_def Let_def)
  then obtain st' x where g: "?g = (None, st')" "x \<in> set (outbox st')"
    using sends_of_order [OF s, of "?m\<lparr>HopLimit := 19\<rparr>" TypeGetPeerResponse] inactive
    by (simp add: peerGiver_Handle_def demo_request_def payload_only_def demo_reply_env_def demo_app_def Let_def)
  then have "x \<in> set (outbox st') - set (outbox (demo_app 1))" by (simp add: demo_app_def)
  from peer_exchange_does_nothing [OF g(1) this] g show ?thesis
    by (auto simp: demo_request_def payload_only_def)
qed

text \<open>
  C37. Discovery in the local network: the TXT records that a node registers, in an entry with an
  IPv4 address, make the browsing loop of every other node call its notifier with exactly that
  node's identifier and the address and port of the entry. Whatever the entries, the calls are
  those of the entries in order, a node never announces itself, and only identifiers of 32 bytes.
  But when the library closes the channel before the loop sees the end of the context, the loop
  receives a nil entry and panics.
\<close>

theorem mdns_finds_the_node:
  assumes "length i = 32" and "MDNS_Start (Inr ()) (NewMDNS i port) = (r, svc, reg)"
    and "se_Text entry = reg_text reg @ recs" and "AddrIPv4 entry = a # as" and "entry \<in> set es" and "i \<noteq> md_myID s"
  shows "\<exists>calls. browseLoop show_ip (Inr ()) s (map (\<lambda>e. BrEntry (Some e)) es) = (None, calls, False) \<and>
    calls = List.map_filter (handleEntry show_ip (md_myID s)) es \<and>
    (i, show_ip a @ bytes_of_string ('':'' @ string_of_nat (se_Port entry))) \<in> set calls \<and>
    (\<forall>(j, addr) \<in> set calls. j \<noteq> md_myID s \<and> length j = 32) \<and>
    browseLoop show_ip (Inr ()) s (map (\<lambda>e. BrEntry (Some e)) es @ [BrEntry None]) = (Some NilDereference, calls, False)"
proof -
  let ?calls = "List.map_filter (handleEntry show_ip (md_myID s)) es"
  have "reg_text reg = txt_records i" using assms(2) by (auto simp: MDNS_Start_def NewMDNS_def Let_def)
  then have "handleEntry show_ip (md_myID s) entry = Some (i, show_ip a @ bytes_of_string ('':'' @ string_of_nat (se_Port entry)))"
    using assms by (simp add: handleEntry_def find_id_txt)
  then have "(i, show_ip a @ bytes_of_string ('':'' @ string_of_nat (se_Port entry))) \<in> set ?calls"
    using assms(5) by (force simp: List.map_filter_def)
  moreover have "j \<noteq> md_myID s \<and> length j = 32" if "handleEntry show_ip (md_myID s) e = Some (j, addr)" for e j addr
    using that find_id_length [of "se_Text e" j] by (auto simp: handleEntry_def split: option.splits list.splits if_splits)
  then have "\<forall>(j, addr) \<in> set ?calls. j \<noteq> md_myID s \<and> length j = 32"
    by (auto simp: List.map_filter_def)
  ultimately show ?thesis
    using browse_rounds_entries [of show_ip s es "[]" "[]"] browse_rounds_entries [of show_ip s es "[BrEntry None]" "[]"]
    by (simp add: browseLoop_def)
qed

theorem mdns_finds_the_node_witness:
  "\<exists>calls. browseLoop (\<lambda>a. a) (Inr ()) (NewMDNS zero32 9) [BrEntry (Some
       \<lparr>se_Text = txt_records (replicate 32 1) @ [], AddrIPv4 = [[49]], AddrIPv6 = [], se_Port = 7\<rparr>)] = (None, calls, False) \<and>
     (replicate 32 1, [49] @ bytes_of_string ('':'' @ string_of_nat 7)) \<in> set calls"
proof -
  let ?e = "\<lparr>se_Text = txt_records (replicate 32 1) @ [], AddrIPv4 = [[49]], AddrIPv6 = [], se_Port = 7\<rparr>"
  obtain r svc reg where start: "MDNS_Start (Inr ()) (NewMDNS (replicate 32 1) 7) = (r, svc, reg)"
    by (metis prod_cases3)
  then have "se_Text ?e = reg_text reg @ []" by (auto simp: MDNS_Start_def NewMDNS_def Let_def)
  moreover have "replicate 32 1 \<noteq> md_myID (NewMDNS zero32 9)" by (simp add: zero32_def NewMDNS_def)
  ultimately show ?thesis
    using mdns_finds_the_node [OF _ start, of ?e "[]" "[49]" "[]" "[?e]" "NewMDNS zero32 9" "\<lambda>a. a"] by auto
qed

end
