(* ===== verification/Keystore.thy ===== *)
theory Keystore
  imports Crypto Storage
begin

text \<open>
  \<^verbatim>\<open>internal/crypto/security_keys.go\<close>: the identity key, kept in the store encrypted
  under a password. The password hash (Argon2id), the cipher (XChaCha20-Poly1305) and the
  protobuf codec are arguments; the bytes drawn from \<^verbatim>\<open>rand.Reader\<close> are inputs of the
  operations.
\<close>

record SecureKeyStore =
  Password :: bytes

definition NewSecureKeyStore :: "bytes \<Rightarrow> SecureKeyStore" where
  "NewSecureKeyStore pass = \<lparr>Password = pass\<rparr>"

record secretbox_lib =
  argon2_IDKey :: "bytes \<Rightarrow> bytes \<Rightarrow> nat \<Rightarrow> nat \<Rightarrow> nat \<Rightarrow> nat \<Rightarrow> bytes"
  xchacha_Seal :: "bytes \<Rightarrow> bytes \<Rightarrow> bytes \<Rightarrow> bytes"
  xchacha_Open :: "bytes \<Rightarrow> bytes \<Rightarrow> bytes \<Rightarrow> bytes result"

definition xchacha_NonceSize :: nat where "xchacha_NonceSize = 24"

text \<open>
  \<^verbatim>\<open>aead, _ := chacha20poly1305.NewX(key)\<close>: for a key that is not 32 bytes the error is
  dropped and \<open>aead\<close> is nil, so that the next method call panics. \<^verbatim>\<open>Open\<close> panics on a
  nonce of the wrong length.
\<close>

definition NewX :: "bytes \<Rightarrow> bytes option" where
  "NewX key = (if length key = 32 then Some key else None)"

definition aead_Open :: "secretbox_lib \<Rightarrow> bytes option \<Rightarrow> bytes \<Rightarrow> bytes \<Rightarrow> bytes result" where
  "aead_Open X aead nonce ct =
     (case aead of
        None \<Rightarrow> Inl (Panic NilDereference)
      | Some key \<Rightarrow>
          if length nonce \<noteq> xchacha_NonceSize
          then Inl (Panic (ExplicitPanic ''chacha20poly1305: bad nonce length passed to Open''))
          else xchacha_Open X key nonce ct)"

text \<open>
  The randomness of \<^verbatim>\<open>encryptPrivateKey\<close>: the outcome of reading the salt, whose error is
  returned, and the 24 bytes that the nonce buffer holds afterwards (the error of the second
  read is dropped).
\<close>

definition encryptPrivateKey ::
  "secretbox_lib \<Rightarrow> EncryptedPrivateKey codec \<Rightarrow> SecureKeyStore \<Rightarrow> bytes \<Rightarrow> bytes result \<Rightarrow> bytes \<Rightarrow>
   bytes result" where
  "encryptPrivateKey X P s privKey salt_read nonce =
     (case salt_read of
        Inl e \<Rightarrow> Inl e
      | Inr salt \<Rightarrow>
        (case NewX (argon2_IDKey X (Password s) salt 1 (64 * 1024) 4 32) of
           None \<Rightarrow> Inl (Panic NilDereference)
         | Some key \<Rightarrow>
           marshal P \<lparr>Salt = salt, epk_Nonce = nonce, EncryptedKey = xchacha_Seal X key nonce privKey,
             Algorithm = bytes_of_string ''argon2id-chacha20''\<rparr>))"

definition decryptPrivateKey ::
  "secretbox_lib \<Rightarrow> EncryptedPrivateKey codec \<Rightarrow> SecureKeyStore \<Rightarrow> bytes \<Rightarrow> bytes result" where
  "decryptPrivateKey X P s encryptedData =
     (case unmarshal P encryptedData of
        Inl e \<Rightarrow> Inl e
      | Inr protoData \<Rightarrow>
        (case aead_Open X (NewX (argon2_IDKey X (Password s) (Salt protoData) 1 (64 * 1024) 4 32))
            (epk_Nonce protoData) (EncryptedKey protoData) of
           Inl (Err e) \<Rightarrow> Inl (Err (ErrNew ''decryption error (wrong password?)''))
         | Inl (Panic p) \<Rightarrow> Inl (Panic p)
         | Inr decrypted \<Rightarrow> Inr decrypted))"

definition secret_keys_key :: bytes where
  "secret_keys_key = bytes_of_string ''secret:keys''"

text \<open>
  \<open>entropy\<close>, \<open>salt_read\<close> and \<open>nonce\<close> are what the calls of \<^verbatim>\<open>rand.Reader\<close> give when
  a key has to be made.
\<close>

definition GetOrGenerateKeys ::
  "'db Storage \<Rightarrow> ed25519_lib \<Rightarrow> secretbox_lib \<Rightarrow> EncryptedPrivateKey codec \<Rightarrow> SecureKeyStore \<Rightarrow>
   bytes \<Rightarrow> bytes result \<Rightarrow> bytes \<Rightarrow> 'db \<Rightarrow> bytes result \<times> 'db" where
  "GetOrGenerateKeys S E X P s entropy salt_read nonce db =
     (case st_Get S secret_keys_key db of
        Inl (Err e) \<Rightarrow>
          if errors_Is e ErrKeyNotFound then
            (case ed_GenerateKey E entropy of
               Inl x \<Rightarrow> (Inl x, db)
             | Inr priv \<Rightarrow>
               (case encryptPrivateKey X P s priv salt_read nonce of
                  Inl x \<Rightarrow> (Inl x, db)
                | Inr keyData \<Rightarrow>
                  (case st_Set S secret_keys_key keyData db of
                     (Inl x, db') \<Rightarrow> (Inl x, db')
                   | (Inr _, db') \<Rightarrow> (Inr priv, db'))))
          else (Inl (Err e), db)
      | Inl (Panic p) \<Rightarrow> (Inl (Panic p), db)
      | Inr keysBytes \<Rightarrow> (decryptPrivateKey X P s keysBytes, db))"

definition decodeKey :: "bytes \<Rightarrow> bytes result" where
  "decodeKey hexStr =
     (case hex_DecodeString hexStr of
        Inl e \<Rightarrow> Inl e
      | Inr data \<Rightarrow>
          if length data \<noteq> PrivateKeySize then Inl (Err (ErrNew ''invalid private key size''))
          else Inr data)"

text \<open>\<^verbatim>\<open>GetPeerID\<close>: the public half of the key in hexadecimal.\<close>

definition GetPeerID :: "bytes \<Rightarrow> bytes result" where
  "GetPeerID privKey =
     (if length privKey < 32 then Inl (Panic IndexOutOfRange)
      else Inr (hex_EncodeToString (copy zero32 (drop 32 privKey))))"

text \<open>
  The documented behaviour: Argon2id returns as many bytes as asked for, and opening inverts
  sealing under the same key and nonce.
\<close>

definition secretbox_documented :: "secretbox_lib \<Rightarrow> bool" where
  "secretbox_documented X \<longleftrightarrow>
     (\<forall>pw salt t m p n. length (argon2_IDKey X pw salt t m p n) = n) \<and>
     (\<forall>key nonce pt. xchacha_Open X key nonce (xchacha_Seal X key nonce pt) = Inr pt) \<and>
     (\<forall>key nonce ct. \<not> is_panic (xchacha_Open X key nonce ct))"

lemma secret_keys_key_nonempty [simp]: "secret_keys_key \<noteq> []"
  by (simp add: secret_keys_key_def bytes_of_string_def)

lemma encrypt_decrypt_PrivateKey:
  assumes "secretbox_documented X" and "codec_documented P" and "length nonce = xchacha_NonceSize"
    and "encryptPrivateKey X P s priv salt_read nonce = Inr keyData"
  shows "decryptPrivateKey X P s keyData = Inr priv"
proof -
  obtain salt where "salt_read = Inr salt" using assms(4) by (auto simp: encryptPrivateKey_def split: sum.splits)
  let ?key = "argon2_IDKey X (Password s) salt 1 (64 * 1024) 4 32"
  let ?msg = "\<lparr>Salt = salt, epk_Nonce = nonce, EncryptedKey = xchacha_Seal X ?key nonce priv,
    Algorithm = bytes_of_string ''argon2id-chacha20''\<rparr>"
  have key: "NewX ?key = Some ?key"
    using assms(1) unfolding secretbox_documented_def NewX_def by (simp only: simp_thms) simp
  have "marshal P ?msg = Inr keyData"
    using assms(4) key \<open>salt_read = Inr salt\<close> by (simp add: encryptPrivateKey_def)
  then have "unmarshal P keyData = Inr ?msg" by (rule codec_roundtrip [OF assms(2)])
  moreover have "xchacha_Open X ?key nonce (xchacha_Seal X ?key nonce priv) = Inr priv"
    using assms(1) by (simp add: secretbox_documented_def)
  ultimately show ?thesis
    using key assms(3) by (simp add: decryptPrivateKey_def aead_Open_def)
qed

context kv_storage
begin

text \<open>A key that is stored is what the first call returned, and every later call returns it.\<close>

lemma GetOrGenerateKeys_again:
  assumes X: "secretbox_documented X" and P: "codec_documented P"
    and nonce: "length nonce = xchacha_NonceSize" and ok: "ok db"
    and first: "GetOrGenerateKeys S E X P s entropy salt_read nonce db = (Inr k, db')"
  shows "ok db' \<and> GetOrGenerateKeys S E X P s entropy' salt_read' nonce' db' = (Inr k, db')"
proof (cases "view db secret_keys_key")
  case None
  then have "st_Get S secret_keys_key db = Inl (Err ErrKeyNotFound)" using ok by (simp add: Get_view)
  then obtain keyData u where
    enc: "encryptPrivateKey X P s k salt_read nonce = Inr keyData" and
    set: "st_Set S secret_keys_key keyData db = (Inr u, db')"
    using first by (auto simp: GetOrGenerateKeys_def split: sum.splits prod.splits)
  have "st_Get S secret_keys_key db' = Inr keyData" using ok set by (simp add: Get_after_Set)
  then show ?thesis
    using encrypt_decrypt_PrivateKey [OF X P nonce enc] Set_keeps_ok [OF ok set]
    by (simp add: GetOrGenerateKeys_def)
next
  case (Some b)
  then have "st_Get S secret_keys_key db = Inr b" using ok by (simp add: Get_view)
  then show ?thesis using first ok by (simp add: GetOrGenerateKeys_def)
qed

lemma GetOrGenerateKeys_frame:
  assumes "ok db" and "GetOrGenerateKeys S E X P s entropy salt_read nonce db = (r, db')"
  shows "ok db' \<and> (\<forall>k. k \<noteq> secret_keys_key \<longrightarrow> view db' k = view db k)"
  using assms unfolding GetOrGenerateKeys_def
  by (auto split: sum.splits exn.splits prod.splits if_splits dest: Set_keeps_ok intro: Set_frame)

end

end
