(* ===== verification/Config.thy ===== *)
theory Config
  imports Messages
begin

text \<open>
  \<^verbatim>\<open>internal/config/standard_peers.go\<close>: the configuration of a node, its default, and its
  loading and saving. A path and a JSON encoder are what the standard library makes of them: the
  file system is a map from paths to contents in which an operation on a path may be set to fail,
  and \<^verbatim>\<open>encoding/json\<close> is a codec.
\<close>

definition CurrentProtocolVersion :: u32 where "CurrentProtocolVersion = 100"
definition DefaultConfigName :: bytes where "DefaultConfigName = bytes_of_string ''echofog.json''"
definition AppName :: bytes where "AppName = bytes_of_string ''EchoFog''"

record AppConfig =
  Callsign :: bytes
  KeyPath :: bytes
  ListenAddr :: bytes
  BootstrapNodes :: "bytes list"
  cfg_MaxConnections :: int
  cfg_ProtocolVersion :: u32
  EnableMDNS :: bool
  DatabasePath :: bytes
  DownloadsDir :: bytes
  AnonymousMode :: bool
  HideTraffic :: bool

definition zero_config :: AppConfig where
  "zero_config =
     \<lparr>Callsign = [], KeyPath = [], ListenAddr = [], BootstrapNodes = [], cfg_MaxConnections = 0,
      cfg_ProtocolVersion = 0, EnableMDNS = False, DatabasePath = [], DownloadsDir = [],
      AnonymousMode = False, HideTraffic = False\<rparr>"

record file_system =
  files :: "bytes \<rightharpoonup> bytes"
  dirs :: "bytes list"
  faults :: "bytes \<Rightarrow> error option"
  home_dir :: bytes

definition ErrNotExist :: error where
  "ErrNotExist = ErrLib ''file does not exist''"

definition os_Stat :: "bytes \<Rightarrow> file_system \<Rightarrow> unit result" where
  "os_Stat path fs =
     (case faults fs path of
        Some e \<Rightarrow> Inl (Err e)
      | None \<Rightarrow> (case files fs path of None \<Rightarrow> Inl (Err ErrNotExist) | Some _ \<Rightarrow> Inr ()))"

definition os_IsNotExist :: "unit result \<Rightarrow> bool" where
  "os_IsNotExist r = (r = Inl (Err ErrNotExist))"

definition os_ReadFile :: "bytes \<Rightarrow> file_system \<Rightarrow> bytes result" where
  "os_ReadFile path fs =
     (case faults fs path of
        Some e \<Rightarrow> Inl (Err e)
      | None \<Rightarrow> (case files fs path of None \<Rightarrow> Inl (Err ErrNotExist) | Some b \<Rightarrow> Inr b))"

definition os_WriteFile :: "bytes \<Rightarrow> bytes \<Rightarrow> file_system \<Rightarrow> unit result \<times> file_system" where
  "os_WriteFile path data fs =
     (case faults fs path of
        Some e \<Rightarrow> (Inl (Err e), fs)
      | None \<Rightarrow> (Inr (), fs\<lparr>files := (files fs)(path \<mapsto> data)\<rparr>))"

definition os_MkdirAll :: "bytes \<Rightarrow> file_system \<Rightarrow> file_system" where
  "os_MkdirAll path fs = (case faults fs path of Some _ \<Rightarrow> fs | None \<Rightarrow> fs\<lparr>dirs := dirs fs @ [path]\<rparr>)"

text \<open>\<^verbatim>\<open>filepath.Join\<close> of clean elements: the ones that are not empty, with a slash between.\<close>

fun path_Join :: "bytes list \<Rightarrow> bytes" where
  "path_Join [] = []"
| "path_Join [p] = p"
| "path_Join (p # q # ps) =
     (if p = [] then path_Join (q # ps)
      else (let r = path_Join (q # ps) in if r = [] then p else p @ bytes_of_string ''/'' @ r))"

text \<open>
  The directories are made, errors dropped; \<open>home_dir\<close> is \<^verbatim>\<open>os.UserHomeDir()\<close>, empty when
  that fails.
\<close>

definition DefaultConfig :: "file_system \<Rightarrow> AppConfig \<times> file_system" where
  "DefaultConfig fs =
     (let cfg = zero_config;
          cfg = cfg\<lparr>ListenAddr := bytes_of_string '':0''\<rparr>;
          cfg = cfg\<lparr>cfg_MaxConnections := 100\<rparr>;
          cfg = cfg\<lparr>cfg_ProtocolVersion := CurrentProtocolVersion\<rparr>;
          cfg = cfg\<lparr>EnableMDNS := True\<rparr>;
          home = home_dir fs;
          appDir = path_Join [home, bytes_of_string ''.echofog''];
          cfg = cfg\<lparr>DatabasePath := path_Join [appDir, bytes_of_string ''db'']\<rparr>;
          cfg = cfg\<lparr>DownloadsDir := path_Join [home, bytes_of_string ''Downloads'', bytes_of_string ''EchoFog'']\<rparr>;
          cfg = cfg\<lparr>KeyPath := path_Join [appDir, bytes_of_string ''identity.key'']\<rparr>;
          fs = os_MkdirAll (DatabasePath cfg) fs;
          fs = os_MkdirAll (DownloadsDir cfg) fs
      in (cfg, fs))"

definition LoadConfig :: "AppConfig codec \<Rightarrow> bytes \<Rightarrow> file_system \<Rightarrow> AppConfig result \<times> file_system" where
  "LoadConfig J path fs =
     (if os_IsNotExist (os_Stat path fs) then (let (cfg, fs') = DefaultConfig fs in (Inr cfg, fs'))
      else
        (case os_ReadFile path fs of
           Inl e \<Rightarrow> (Inl e, fs)
         | Inr data \<Rightarrow>
           (case unmarshal J data of
              Inl e \<Rightarrow> (Inl e, fs)
            | Inr cfg \<Rightarrow> (Inr cfg, fs))))"

definition Config_Save :: "AppConfig codec \<Rightarrow> bytes \<Rightarrow> AppConfig \<Rightarrow> file_system \<Rightarrow> unit result \<times> file_system" where
  "Config_Save J path c fs =
     (case marshal J c of
        Inl e \<Rightarrow> (Inl e, fs)
      | Inr data \<Rightarrow> os_WriteFile path data fs)"

section \<open>Lemmas\<close>

lemma DefaultConfig_home: "home_dir fs' = home_dir fs \<Longrightarrow> fst (DefaultConfig fs') = fst (DefaultConfig fs)"
  by (simp add: DefaultConfig_def Let_def)

lemma DefaultConfig_values:
  "cfg_MaxConnections (fst (DefaultConfig fs)) = 100"
  "cfg_ProtocolVersion (fst (DefaultConfig fs)) = CurrentProtocolVersion" "EnableMDNS (fst (DefaultConfig fs))"
  by (simp_all add: DefaultConfig_def Let_def)

lemma LoadConfig_absent:
  "files fs path = None \<Longrightarrow> faults fs path = None \<Longrightarrow>
    LoadConfig J path fs = (Inr (fst (DefaultConfig fs)), snd (DefaultConfig fs))"
  by (simp add: LoadConfig_def os_Stat_def os_IsNotExist_def case_prod_beta)

lemma LoadConfig_present:
  "files fs path = Some b \<Longrightarrow> faults fs path = None \<Longrightarrow> unmarshal J b = Inr c \<Longrightarrow>
    LoadConfig J path fs = (Inr c, fs)"
  by (simp add: LoadConfig_def os_Stat_def os_IsNotExist_def os_ReadFile_def)

section \<open>Properties\<close>


text \<open>A codec for the two configurations of the example.\<close>

definition demo_config_codec :: "AppConfig codec" where
  "demo_config_codec =
     \<lparr>marshal = (\<lambda>c. if c = zero_config then Inr [0] else Inl (Err (ErrLib ''json''))),
      unmarshal = (\<lambda>b. if b = [0] then Inr zero_config else Inl (Err (ErrLib ''json'')))\<rparr>"

definition demo_fs :: file_system where
  "demo_fs = \<lparr>files = Map.empty, dirs = [], faults = (\<lambda>_. None), home_dir = [47]\<rparr>"


end
