(* ===== verification/Logger.thy ===== *)
theory Logger
  imports Prelude
begin

text \<open>
  \<^verbatim>\<open>internal/logger/channel_handler.go\<close>: the handler that turns log records into entries on
  a channel. Handlers keep their attributes in slices that can share a backing array, so the
  arrays live in an explicit store.
\<close>

section \<open>Slices with shared arrays\<close>

type_synonym attr = "bytes \<times> bytes"

text \<open>A slice: the address of its array, and its length; its capacity is the array's size.\<close>

record slice =
  sl_array :: nat
  sl_len :: nat

type_synonym store = "attr list list"

definition elems :: "store \<Rightarrow> slice \<Rightarrow> attr list" where
  "elems h s = take (sl_len s) (h ! sl_array s)"

definition slice_cap :: "store \<Rightarrow> slice \<Rightarrow> nat" where
  "slice_cap h s = length (h ! sl_array s)"

definition slice_wf :: "store \<Rightarrow> slice \<Rightarrow> bool" where
  "slice_wf h s \<longleftrightarrow> sl_array s < length h \<and> sl_len s \<le> slice_cap h s"

text \<open>
  The built-in \<^verbatim>\<open>append\<close>: in place when the capacity suffices, else into a new array whose size
  is up to the implementation: \<open>extra\<close> more than is needed.
\<close>

definition append_slice :: "nat \<Rightarrow> slice \<Rightarrow> attr list \<Rightarrow> store \<Rightarrow> slice \<times> store" where
  "append_slice extra s xs h =
     (let n = sl_len s + length xs
      in if n \<le> slice_cap h s
         then (s\<lparr>sl_len := n\<rparr>,
               h[sl_array s := take (sl_len s) (h ! sl_array s) @ xs @ drop n (h ! sl_array s)])
         else (\<lparr>sl_array = length h, sl_len = n\<rparr>, h @ [elems h s @ xs @ replicate extra ([], [])]))"

section \<open>The handler\<close>

record LogEntry =
  le_Time :: bytes
  le_Level :: bytes
  le_Message :: bytes
  Attrs :: "bytes \<rightharpoonup> bytes"

text \<open>The level of \<^verbatim>\<open>slog.HandlerOptions\<close> is an interface value and may be nil.\<close>

record ChannelHandler =
  opts_Level :: "int option"
  attrs :: slice
  groupPrefix :: bytes

definition NewChannelHandler :: "int option option \<Rightarrow> slice \<Rightarrow> ChannelHandler" where
  "NewChannelHandler opts nil =
     (let opts = (case opts of None \<Rightarrow> None | Some l \<Rightarrow> l)
      in \<lparr>opts_Level = opts, attrs = nil, groupPrefix = []\<rparr>)"

definition Enabled :: "ChannelHandler \<Rightarrow> int \<Rightarrow> bool result" where
  "Enabled h level =
     (case opts_Level h of
        None \<Rightarrow> Inl (Panic NilDereference)
      | Some l \<Rightarrow> Inr (l \<le> level))"

text \<open>A record: its time already formatted, its level's name, its message and attributes.\<close>

record log_record =
  r_Time :: bytes
  r_Level :: bytes
  r_Message :: bytes
  r_Attrs :: "attr list"

fun set_attrs :: "attr list \<Rightarrow> (bytes \<rightharpoonup> bytes) \<Rightarrow> (bytes \<rightharpoonup> bytes)" where
  "set_attrs [] m = m"
| "set_attrs ((k, v) # as) m = set_attrs as (m(k \<mapsto> v))"

text \<open>The entry, and the channel after the \<^verbatim>\<open>select\<close> with a default case.\<close>

definition log_entry :: "store \<Rightarrow> ChannelHandler \<Rightarrow> log_record \<Rightarrow> LogEntry" where
  "log_entry st h r =
     \<lparr>le_Time = r_Time r, le_Level = r_Level r, le_Message = r_Message r,
      Attrs = set_attrs (elems st (attrs h)) (set_attrs (r_Attrs r) Map.empty)\<rparr>"

definition Logger_Handle :: "nat \<Rightarrow> store \<Rightarrow> ChannelHandler \<Rightarrow> log_record \<Rightarrow> LogEntry list \<Rightarrow> LogEntry list" where
  "Logger_Handle capacity st h r out =
     (let entry = log_entry st h r
      in if length out < capacity then out @ [entry] else out)"

definition WithGroup :: "bytes \<Rightarrow> ChannelHandler \<Rightarrow> ChannelHandler" where
  "WithGroup name h = h"

definition WithAttrs :: "nat \<Rightarrow> attr list \<Rightarrow> ChannelHandler \<Rightarrow> store \<Rightarrow> ChannelHandler \<times> store" where
  "WithAttrs extra as h st =
     (let (s, st') = append_slice extra (attrs h) as st
      in (\<lparr>opts_Level = opts_Level h, attrs = s, groupPrefix = []\<rparr>, st'))"

section \<open>Lemmas\<close>

lemma append_slice_elems:
  assumes "slice_wf h s" and "append_slice extra s xs h = (s', h')"
  shows "slice_wf h' s' \<and> elems h' s' = elems h s @ xs \<and> elems h' s = elems h s"
proof (cases "sl_len s + length xs \<le> slice_cap h s")
  case True
  then have "sl_len s \<le> length (h ! sl_array s)" "s' = s\<lparr>sl_len := sl_len s + length xs\<rparr>"
    "h' = h[sl_array s := take (sl_len s) (h ! sl_array s) @ xs @ drop (sl_len s + length xs) (h ! sl_array s)]"
    using assms(2) by (auto simp: append_slice_def slice_cap_def Let_def)
  with True assms(1) show ?thesis
    by (simp add: slice_wf_def slice_cap_def elems_def)
next
  case False
  with assms show ?thesis
    by (auto simp: append_slice_def slice_wf_def slice_cap_def elems_def nth_append Let_def)
qed

lemma set_attrs_lookup:
  "set_attrs as m k = (case map_of (rev as) k of None \<Rightarrow> m k | Some v \<Rightarrow> Some v)"
proof -
  have "set_attrs as m = m ++ map_of (rev as)"
    by (induction as m rule: set_attrs.induct) (simp_all del: fun_upd_apply)
  then show ?thesis by (simp add: map_add_def)
qed

lemma WithAttrs_elems:
  assumes "slice_wf st (attrs h)" and "WithAttrs extra as h st = (h', st')"
  shows "slice_wf st' (attrs h') \<and> elems st' (attrs h') = elems st (attrs h) @ as \<and>
    elems st' (attrs h) = elems st (attrs h) \<and> opts_Level h' = opts_Level h"
proof -
  obtain s where "append_slice extra (attrs h) as st = (s, st')" "h' = \<lparr>opts_Level = opts_Level h, attrs = s, groupPrefix = []\<rparr>"
    using assms(2) by (auto simp: WithAttrs_def Let_def split: prod.splits)
  with append_slice_elems [OF assms(1) this(1)] show ?thesis by simp
qed

section \<open>Properties\<close>

text \<open>
  What is logged: an entry has, for every key, the last value that the handler's own
  attributes give it, and only if they give none the last value of the record's attributes; it is
  appended to the channel exactly if the channel has room, and dropped otherwise. A derived
  handler has its parent's attributes followed by the new ones, and the parent keeps its own.
\<close>

theorem log_entry_delivered:
  assumes "slice_wf st (attrs h)" and "WithAttrs extra as h st = (h', st')"
  shows "Attrs (log_entry st' h' r) k =
      (case map_of (rev (elems st (attrs h) @ as)) k of Some v \<Rightarrow> Some v | None \<Rightarrow> map_of (rev (r_Attrs r)) k) \<and>
    log_entry st' h r = log_entry st h r \<and>
    Logger_Handle capacity st' h' r out =
      (if length out < capacity then out @ [log_entry st' h' r] else out)"
  using WithAttrs_elems [OF assms]
  by (auto simp: log_entry_def set_attrs_lookup Logger_Handle_def Let_def split: option.split)

definition demo_store3 :: store where
  "demo_store3 = [[([1], [10]), ([2], [20]), ([3], [30]), ([], [])]]"

definition demo_handler3 :: ChannelHandler where
  "demo_handler3 = \<lparr>opts_Level = Some 0, attrs = \<lparr>sl_array = 0, sl_len = 3\<rparr>, groupPrefix = []\<rparr>"

theorem log_entry_delivered_witness:
  "let (h', st') = WithAttrs 0 [([1], [99])] demo_handler3 demo_store3 in
     Attrs (log_entry st' h' \<lparr>r_Time = [], r_Level = [], r_Message = [], r_Attrs = [([1], [0])]\<rparr>) [1] = Some [99]"
proof -
  obtain h' st' where w: "WithAttrs 0 [([1], [99])] demo_handler3 demo_store3 = (h', st')" by force
  have "slice_wf demo_store3 (attrs demo_handler3)"
    by (simp add: slice_wf_def slice_cap_def demo_store3_def demo_handler3_def)
  from log_entry_delivered [OF this w, of _ "[1]"] w show ?thesis by simp
qed

text \<open>
  C38. Two handlers derived from one parent can share the parent's array: if it has room for one
  more attribute, deriving a second handler overwrites the attribute of the first, which from
  then on logs the second one's attribute in place of its own.
\<close>

theorem derived_handlers_share:
  assumes "slice_wf st (attrs h)" and "sl_len (attrs h) < slice_cap st (attrs h)"
    and "WithAttrs e1 [a] h st = (h1, st1)" and "WithAttrs e2 [b] h st1 = (h2, st2)"
  shows "elems st1 (attrs h1) = elems st (attrs h) @ [a] \<and>
    elems st2 (attrs h1) = elems st (attrs h) @ [b] \<and> elems st2 (attrs h2) = elems st (attrs h) @ [b]"
proof -
  let ?s = "attrs h"
  from assms(2,3) have 1: "attrs h1 = ?s\<lparr>sl_len := Suc (sl_len ?s)\<rparr>" "length st1 = length st"
    "slice_cap st1 ?s = slice_cap st ?s"
    using assms(1) by (auto simp: WithAttrs_def append_slice_def Let_def slice_cap_def slice_wf_def)
  with assms(2,4) have 2: "attrs h2 = attrs h1"
    by (auto simp: WithAttrs_def append_slice_def Let_def)
  have w1: "slice_wf st1 ?s"
    using 1 assms(1) by (simp add: slice_wf_def)
  show ?thesis
    using WithAttrs_elems [OF assms(1,3)] WithAttrs_elems [OF w1 assms(4)] 2 by simp
qed

theorem derived_handlers_share_witness:
  "let (h1, st1) = WithAttrs 0 [([4], [1])] demo_handler3 demo_store3;
       (h2, st2) = WithAttrs 0 [([4], [2])] demo_handler3 st1
   in last (elems st1 (attrs h1)) = ([4], [1]) \<and> last (elems st2 (attrs h1)) = ([4], [2])"
proof -
  obtain h1 st1 where w1: "WithAttrs 0 [([4], [1])] demo_handler3 demo_store3 = (h1, st1)" by force
  obtain h2 st2 where w2: "WithAttrs 0 [([4], [2])] demo_handler3 st1 = (h2, st2)" by force
  have "slice_wf demo_store3 (attrs demo_handler3)" "sl_len (attrs demo_handler3) < slice_cap demo_store3 (attrs demo_handler3)"
    by (simp_all add: slice_wf_def slice_cap_def demo_store3_def demo_handler3_def)
  from derived_handlers_share [OF this w1 w2] w1 w2 show ?thesis by simp
qed

end
