(* ===== verification/Node.thy ===== *)
theory Node
  imports Discovery Keystore Dht Config Logger
begin

text \<open>
  \<^verbatim>\<open>pkg/node/node.go\<close>: how a node is put together. \<^verbatim>\<open>Start\<close> unlocks or makes the identity,
  makes the dispatcher, the transport, the swarm, the encryption engine, the gossip manager and
  the two services, and registers the services with the dispatcher.
\<close>

text \<open>
  What the parts of a node are given: the primitives, the codecs, the store and the machine.
\<close>

record 'db node_env =
  ne_S :: "'db Storage"
  ne_E :: ed25519_lib
  ne_X :: secretbox_lib
  ne_K :: kx_lib
  ne_U :: uuid_lib
  ne_M :: "MessageData codec"
  ne_V :: "Envelope codec"
  ne_P :: "EncryptedPrivateKey codec"
  ne_R :: reply_env
  ne_T :: tls_lib
  ne_resolve :: "bytes \<Rightarrow> bytes result"
  ne_numCPU :: int
  ne_Cfg :: AppConfig

record ('db, 'c) Node =
  node_ID :: PeerID
  node_PrivKey :: PeerPrivateKey
  node_PubKey :: PeerPublicKey
  node_Transport :: QuicTransport
  node_Dispatcher :: "('db, 'c) app_state Dispatcher"
  node_Swarm :: "('db, 'c) Swarm"
  node_gossip :: Manager
  node_Messenger :: MessageService

text \<open>The loop over the services and their subscribed types.\<close>

definition register_services ::
  "'db node_env \<Rightarrow> PeerPublicKey \<Rightarrow> MessageService \<Rightarrow> ('db, 'c) app_state Dispatcher \<Rightarrow>
   ('db, 'c) app_state Dispatcher" where
  "register_services N pub messenger d =
     (let discovery = NewDiscoveryService pub;
          d = register_types Discovery_GetSubscribedTypes
            (Discovery_Handle (ne_M N) (ne_V N) (ne_E N) (ne_U N) (ne_R N)
              (sv_myPubKey (giver_service (ds_giver discovery)))) d
      in register_types Messenger_GetSubscribedTypes (Messenger_Handle (ne_K N) messenger) d)"

text \<open>
  \<open>opened\<close> is the outcome of opening the database; \<open>now\<close>, \<open>listenUDP\<close> and \<open>listen\<close> are the
  clock, the binding of a UDP socket and the listening of the QUIC library at this start;
  \<open>entropy\<close>, \<open>salt\<close> and \<open>nonce\<close> the random bytes for a new identity.
\<close>

definition Node_Start ::
  "'db node_env \<Rightarrow> bytes \<Rightarrow> bytes \<Rightarrow> bytes result \<Rightarrow> bytes \<Rightarrow> 'db result \<Rightarrow> (nat \<Rightarrow> int) \<Rightarrow>
   (bytes option \<Rightarrow> bytes result) \<Rightarrow> (bytes \<Rightarrow> tls_Config option \<Rightarrow> quic_Config option \<Rightarrow> unit result) \<Rightarrow>
   ('db, 'c) Node result" where
  "Node_Start N password entropy salt nonce opened now listenUDP listen =
     (case opened of
        Inl e \<Rightarrow> Inl (wrap ''failed to open badger db'' e)
      | Inr db \<Rightarrow>
        (case GetOrGenerateKeys (ne_S N) (ne_E N) (ne_X N) (ne_P N) (NewSecureKeyStore password)
            entropy salt nonce db of
           (Inl e, db') \<Rightarrow> Inl (wrap ''auth failed'' e)
         | (Inr privKeyEd, db') \<Rightarrow>
           (case to_array 64 privKeyEd of
              Inl e \<Rightarrow> Inl e
            | Inr priv \<Rightarrow>
              (let pub = PeerPrivateKeyToPublic priv;
                   i = PeerPubKeyToID pub
               in (case GenerateTLSConfig (ne_T N) now privKeyEd of
                     Inl e \<Rightarrow> Inl (wrap ''tls config failed'' e)
                   | Inr tlsConfig \<Rightarrow>
                     (case NewQUICTransport (ne_resolve N) listenUDP (ListenAddr (ne_Cfg N)) (Some tlsConfig)
                         (Some GetQuicConfig) priv (cfg_ProtocolVersion (ne_Cfg N)) of
                        Inl e \<Rightarrow> Inl e
                      | Inr transport \<Rightarrow>
                        (case NewEngine (ne_K N) privKeyEd of
                           Inl e \<Rightarrow> Inl (wrap ''crypto engine init failed'' e)
                         | Inr eng \<Rightarrow>
                           (let messenger = NewMessageService priv eng;
                                d = register_services N pub messenger (NewDispatcher (ne_numCPU N))
                            in (case ListenEarly listen transport of
                                  Inl e \<Rightarrow> Inl (wrap ''transport listen failed'' e)
                                | Inr _ \<Rightarrow>
                                  Inr \<lparr>node_ID = i, node_PrivKey = priv, node_PubKey = pub,
                                    node_Transport = transport, node_Dispatcher = d,
                                    node_Swarm = NewSwarm i priv db' (cfg_MaxConnections (ne_Cfg N)),
                                    node_gossip = NewManager, node_Messenger = messenger\<rparr>)))))))))"

section \<open>The logger of a node\<close>

text \<open>
  What \<^verbatim>\<open>NewNode\<close> makes before a start: the configuration, the channel of log entries and the
  handler that writes to it, at the level \<^verbatim>\<open>Debug\<close>. \<open>nil\<close> is the empty slice of attributes.
\<close>

record node_shell =
  Cfg :: AppConfig
  LogChan :: "LogEntry list"
  sh_Logger :: ChannelHandler

definition LogChan_capacity :: nat where "LogChan_capacity = 100"
definition LevelDebug :: int where "LevelDebug = - 4"
definition LevelInfo :: int where "LevelInfo = 0"

definition NewNode :: "slice \<Rightarrow> AppConfig \<Rightarrow> node_shell" where
  "NewNode nil cfg =
     (let handler = NewChannelHandler (Some (Some LevelDebug)) nil
      in \<lparr>Cfg = cfg, LogChan = [], sh_Logger = handler\<rparr>)"

definition GetLogChannel :: "node_shell \<Rightarrow> LogEntry list" where
  "GetLogChannel n = LogChan n"

text \<open>\<^verbatim>\<open>Logger.Info\<close>: a record of that level, handed to the handler if it is enabled for it.\<close>

definition Logger_Info :: "store \<Rightarrow> bytes \<Rightarrow> bytes \<Rightarrow> attr list \<Rightarrow> node_shell \<Rightarrow> node_shell" where
  "Logger_Info st time msg as n =
     (case Enabled (sh_Logger n) LevelInfo of
        Inr True \<Rightarrow> n\<lparr>LogChan := Logger_Handle LogChan_capacity st (sh_Logger n)
            \<lparr>r_Time = time, r_Level = bytes_of_string ''INFO'', r_Message = msg, r_Attrs = as\<rparr> (LogChan n)\<rparr>
      | _ \<Rightarrow> n)"

text \<open>\<^verbatim>\<open>Stop\<close> only logs: closing the store and the transport is commented out.\<close>

definition Node_Stop :: "store \<Rightarrow> bytes \<Rightarrow> node_shell \<Rightarrow> node_shell" where
  "Node_Stop st time n = Logger_Info st time (bytes_of_string ''Node stopped'') [] n"

text \<open>
  What \<^verbatim>\<open>Start\<close> logs on its way, up to where it returns: the messages, without their attributes.
\<close>

definition msg_init :: bytes where "msg_init = bytes_of_string ''EchoFog Core is initializing...''"
definition msg_storage :: bytes where "msg_storage = bytes_of_string ''Storage initialized''"
definition msg_identity :: bytes where "msg_identity = bytes_of_string ''Identity unlocked''"
definition msg_network :: bytes where "msg_network = bytes_of_string ''Starting network stack...''"
definition msg_started :: bytes where "msg_started = bytes_of_string ''Node started successfully''"

definition Node_Start_log ::
  "'db node_env \<Rightarrow> bytes \<Rightarrow> bytes \<Rightarrow> bytes result \<Rightarrow> bytes \<Rightarrow> 'db result \<Rightarrow> (nat \<Rightarrow> int) \<Rightarrow>
   (bytes option \<Rightarrow> bytes result) \<Rightarrow> (bytes \<Rightarrow> tls_Config option \<Rightarrow> quic_Config option \<Rightarrow> unit result) \<Rightarrow> bytes list" where
  "Node_Start_log N password entropy salt nonce opened now listenUDP listen =
     msg_init #
     (case opened of
        Inl e \<Rightarrow> []
      | Inr db \<Rightarrow> msg_storage #
        (case fst (GetOrGenerateKeys (ne_S N) (ne_E N) (ne_X N) (ne_P N) (NewSecureKeyStore password)
            entropy salt nonce db) of
           Inl e \<Rightarrow> []
         | Inr privKeyEd \<Rightarrow>
           (case to_array 64 privKeyEd of
              Inl e \<Rightarrow> []
            | Inr priv \<Rightarrow> msg_identity #
              (case GenerateTLSConfig (ne_T N) now privKeyEd of
                 Inl e \<Rightarrow> []
               | Inr tlsConfig \<Rightarrow>
                 (case NewQUICTransport (ne_resolve N) listenUDP (ListenAddr (ne_Cfg N)) (Some tlsConfig)
                     (Some GetQuicConfig) priv (cfg_ProtocolVersion (ne_Cfg N)) of
                    Inl e \<Rightarrow> []
                  | Inr transport \<Rightarrow>
                    (case NewEngine (ne_K N) privKeyEd of
                       Inl e \<Rightarrow> []
                     | Inr eng \<Rightarrow> msg_network #
                       (case ListenEarly listen transport of
                          Inl e \<Rightarrow> []
                        | Inr _ \<Rightarrow> [msg_started])))))))"

text \<open>The shell of a node after a start: every message is handed to the logger.\<close>

definition log_messages :: "store \<Rightarrow> bytes \<Rightarrow> bytes list \<Rightarrow> node_shell \<Rightarrow> node_shell" where
  "log_messages st time msgs n = fold (\<lambda>m. Logger_Info st time m []) msgs n"

section \<open>What a start gives\<close>

text \<open>The log tells whether a start succeeded, and has at most five messages, which the channel can hold.\<close>

lemma Node_Start_log_complete:
  "(\<exists>node. (Node_Start N password entropy salt nonce opened now udp listen :: ('db, 'c) Node result) = Inr node) \<longleftrightarrow>
    msg_started \<in> set (Node_Start_log N password entropy salt nonce opened now udp listen)"
  "length (Node_Start_log N password entropy salt nonce opened now udp listen) \<le> 5"
proof -
  have "msg_started \<notin> {msg_init, msg_storage, msg_identity, msg_network}"
    by (simp add: msg_started_def msg_init_def msg_storage_def msg_identity_def msg_network_def bytes_of_string_def)
  then show "(\<exists>node. (Node_Start N password entropy salt nonce opened now udp listen :: ('db, 'c) Node result) = Inr node) \<longleftrightarrow>
    msg_started \<in> set (Node_Start_log N password entropy salt nonce opened now udp listen)"
    by (simp add: Node_Start_def Node_Start_log_def Let_def case_prod_beta split: sum.split prod.split)
  show "length (Node_Start_log N password entropy salt nonce opened now udp listen) \<le> 5"
    by (simp add: Node_Start_log_def split: sum.split)
qed

lemma NewNode_logs:
  assumes "length (LogChan n) < LogChan_capacity" and "sh_Logger n = sh_Logger (NewNode nil cfg)"
  shows "map le_Message (LogChan (Logger_Info st time msg as n)) = map le_Message (LogChan n) @ [msg] \<and>
    sh_Logger (Logger_Info st time msg as n) = sh_Logger n"
  using assms by (simp add: Logger_Info_def NewNode_def NewChannelHandler_def Enabled_def LevelInfo_def LevelDebug_def
      Logger_Handle_def log_entry_def Let_def)

lemma log_messages_all:
  "length (LogChan n) + length msgs \<le> LogChan_capacity \<Longrightarrow> sh_Logger n = sh_Logger (NewNode nil cfg) \<Longrightarrow>
    map le_Message (LogChan (log_messages st time msgs n)) = map le_Message (LogChan n) @ msgs"
proof (induction msgs arbitrary: n)
  case (Cons m msgs)
  have "length (LogChan n) < LogChan_capacity" using Cons.prems(1) by simp
  note one = NewNode_logs [OF this Cons.prems(2), of st time m "[]"]
  then have "length (LogChan (Logger_Info st time m [] n)) = Suc (length (LogChan n))"
    by (metis length_append_singleton length_map)
  with Cons.IH [of "Logger_Info st time m [] n"] Cons.prems one show ?case by (simp add: log_messages_def)
qed (simp add: log_messages_def)

lemma NewQUICTransport_Inr:
  assumes "NewQUICTransport resolve udp addr tls quic priv version = Inr q"
  obtains sock where "q = \<lparr>tr = Some sock, tlsCfg = tls, quicCgf = quic, privKey = priv,
    protocolVersion = version, tr_addr = Some sock\<rparr>" "udp (case resolve addr of Inl _ \<Rightarrow> None | Inr a \<Rightarrow> Some a) = Inr sock"
  using assms that by (auto simp: NewQUICTransport_def Let_def split: sum.splits)

lemma Node_StartE:
  assumes "Node_Start N password entropy salt nonce (Inr db) now udp listen = Inr node"
  obtains k db' eng tls where
    "GetOrGenerateKeys (ne_S N) (ne_E N) (ne_X N) (ne_P N) (NewSecureKeyStore password) entropy salt nonce db =
      (Inr k, db')" "64 \<le> length k" "NewEngine (ne_K N) k = Inr eng"
    "node_PrivKey node = take 64 k" "node_PubKey node = PeerPrivateKeyToPublic (take 64 k)"
    "node_ID node = PeerPubKeyToID (node_PubKey node)"
    "node_Swarm node = NewSwarm (node_ID node) (take 64 k) db' (cfg_MaxConnections (ne_Cfg N))"
    "node_Messenger node = NewMessageService (take 64 k) eng"
    "node_Dispatcher node = register_services N (node_PubKey node) (node_Messenger node) (NewDispatcher (ne_numCPU N))"
    "GenerateTLSConfig (ne_T N) now k = Inr tls"
    "NewQUICTransport (ne_resolve N) udp (ListenAddr (ne_Cfg N)) (Some tls) (Some GetQuicConfig) (take 64 k)
      (cfg_ProtocolVersion (ne_Cfg N)) = Inr (node_Transport node)"
proof -
  obtain r db' where g: "GetOrGenerateKeys (ne_S N) (ne_E N) (ne_X N) (ne_P N) (NewSecureKeyStore password)
      entropy salt nonce db = (r, db')" by force
  with assms obtain k where k: "r = Inr k" "64 \<le> length k"
    by (cases r) (auto simp: Node_Start_def to_array_def split: if_splits)
  with assms g obtain eng tls q u where e: "NewEngine (ne_K N) k = Inr eng" "GenerateTLSConfig (ne_T N) now k = Inr tls"
    "NewQUICTransport (ne_resolve N) udp (ListenAddr (ne_Cfg N)) (Some tls) (Some GetQuicConfig) (take 64 k)
      (cfg_ProtocolVersion (ne_Cfg N)) = Inr q" "ListenEarly listen q = Inr u"
    by (auto simp: Node_Start_def to_array_def Let_def split: sum.splits)
  with assms g k that [of k db' eng tls] show thesis
    by (auto simp: Node_Start_def to_array_def Let_def)
qed

section \<open>The registered handlers\<close>

lemma register_services_handlers:
  "handlers (register_services N pub svc d) t =
    (if t = Some T_ChatMessage then Some (Messenger_Handle (ne_K N) svc)
     else if t = Some T_PeerReq \<or> t = Some T_PeerRes
     then Some (Discovery_Handle (ne_M N) (ne_V N) (ne_E N) (ne_U N) (ne_R N) pub)
     else handlers d t)"
  by (auto simp: register_services_def Let_def register_types_handlers Discovery_GetSubscribedTypes_def
      Messenger_GetSubscribedTypes_def Registry_def)

lemma NewDispatcher_handlers [simp]: "handlers (NewDispatcher n) = Map.empty"
  by (simp add: NewDispatcher_def Let_def)

text \<open>Routing in a node never panics for a message with an origin of full length.\<close>

lemma node_route_no_panic:
  assumes "kx_no_panic (ne_K N)" and "32 \<le> length (OriginId m)"
  shows "fst (route (register_services N pub svc (NewDispatcher n)) m i st) = None"
proof -
  have chat: "service (Messenger_Handle (ne_K N) svc) Messenger_GetSubscribedTypes (\<lambda>m. 32 \<le> length (OriginId m))"
    using key_agreement.chat_service [of "ne_K N" svc] assms(1) by (simp add: key_agreement_def)
  have "fst (route (register_types Discovery_GetSubscribedTypes
      (Discovery_Handle (ne_M N) (ne_V N) (ne_E N) (ne_U N) (ne_R N) pub) (NewDispatcher n)) m i st) = None"
    for m i and st :: "('a, 'b) app_state"
    by (rule discovery.route_no_panic [where P = "\<lambda>m. True"]) (simp_all add: route_def)
  then show ?thesis
    unfolding register_services_def Let_def NewDiscoveryService_key
    by (rule service.route_no_panic [OF chat, where P = "\<lambda>m. True"]) (simp_all add: assms(2))
qed

section \<open>The life of a node\<close>

text \<open>
  What a running node does to its store: operations of the distributed hash table and of the
  swarm, on the same store.
\<close>

datatype 'c node_op = NodeDht dht_op | NodeSwarm "'c swarm_op"

fun node_step ::
  "'db Storage \<Rightarrow> KBucket codec \<Rightarrow> MerkleNode codec \<Rightarrow> PeerStoreEntry codec \<Rightarrow> ('c \<Rightarrow> bytes) \<Rightarrow> DHT \<Rightarrow>
   'c node_op \<Rightarrow> ('db, 'c) Swarm \<Rightarrow> ('db, 'c) Swarm" where
  "node_step S CB CN CP r d (NodeDht x) s = s\<lparr>sw_db := dht_step S CB CN d x (sw_db s)\<rparr>"
| "node_step S CB CN CP r d (NodeSwarm x) s = swarm_step S CP r x s"

lemma secret_key_apart [key_simps, simp]:
  "\<not> prefix dagStorageKey secret_keys_key" "\<not> swarm_key secret_keys_key"
  "secret_keys_key \<noteq> intToKey routing_prefix i"
  by (simp_all add: secret_keys_key_def dagStorageKey_def swarm_key_def saved_prefix_def intToKey_def
      routing_prefix_def bytes_of_string_def)

context kv_storage
begin

lemma dht_step_secret:
  assumes C: "codec_documented CB" and ok: "ok db"
  shows "ok (dht_step S CB CN d x db) \<and> view (dht_step S CB CN d x db) secret_keys_key = view db secret_keys_key"
proof (cases x)
  case (OpSavePeer i k a l t)
  let ?i = "int (getBucketIndex (dht_myID d) i)"
  obtain r db' where sv: "SavePeer S CB d i k a l t db = (r, db')" by force
  then obtain p where "saveInKBucket S CB ?i p db = (r, db')" by (simp add: SavePeer_def Let_def)
  then have "ok db' \<and> view db' secret_keys_key = view db secret_keys_key"
    using saveInKBucket_done [OF C ok, of ?i p] saveInKBucket_failed [OF C ok, of ?i p] by (cases r) auto
  with OpSavePeer sv show ?thesis by simp
next
  case (OpSaveFile data)
  obtain r db' where "SaveFile S CN data db = (r, db')" by force
  with OpSaveFile SaveFile_elsewhere [OF ok this] show ?thesis by (simp add: same_elsewhere_def)
qed

lemma node_run_secret:
  assumes C: "codec_documented CB"
  shows "ok (sw_db s) \<Longrightarrow> ok (sw_db (fold (node_step S CB CN CP r d) xs s)) \<and>
    view (sw_db (fold (node_step S CB CN CP r d) xs s)) secret_keys_key = view (sw_db s) secret_keys_key"
proof (induction xs arbitrary: s)
  case (Cons x xs)
  have "ok (sw_db (node_step S CB CN CP r d x s)) \<and>
    view (sw_db (node_step S CB CN CP r d x s)) secret_keys_key = view (sw_db s) secret_keys_key"
    using Cons.prems dht_step_secret [OF C, of "sw_db s"] swarm_step_db [of s CP r] by (cases x) auto
  with Cons.IH show ?case by simp
qed simp

lemma GetOrGenerateKeys_same_record:
  assumes "ok db" and "ok db'" and "view db' secret_keys_key = view db secret_keys_key"
    and "GetOrGenerateKeys S E X P ks e sa n db = (Inr k, db)" and "view db secret_keys_key \<noteq> None"
  shows "GetOrGenerateKeys S E X P ks e sa n db' = (Inr k, db')"
  using assms by (auto simp: GetOrGenerateKeys_def Get_view)

text \<open>After a start the identity is in the store.\<close>

lemma GetOrGenerateKeys_stored:
  assumes "ok db" and "GetOrGenerateKeys S E X P ks e sa n db = (Inr k, db')"
  shows "view db' secret_keys_key \<noteq> None"
proof (cases "view db secret_keys_key")
  case None
  then have "st_Get S secret_keys_key db = Inl (Err ErrKeyNotFound)" using assms(1) by (simp add: Get_view)
  then obtain keyData u where "st_Set S secret_keys_key keyData db = (Inr u, db')"
    using assms(2) by (auto simp: GetOrGenerateKeys_def split: sum.splits prod.splits)
  from Set_done [OF assms(1) this] show ?thesis by simp
next
  case (Some b)
  then have "st_Get S secret_keys_key db = Inr b" using assms(1) by (simp add: Get_view)
  with assms(2) Some show ?thesis by (simp add: GetOrGenerateKeys_def)
qed

end

text \<open>
  A start at which the certificate can be made, the socket bound and the listener started.
\<close>

definition machine_up ::
  "tls_lib \<Rightarrow> (nat \<Rightarrow> int) \<Rightarrow> (bytes option \<Rightarrow> bytes result) \<Rightarrow>
   (bytes \<Rightarrow> tls_Config option \<Rightarrow> quic_Config option \<Rightarrow> unit result) \<Rightarrow> bool" where
  "machine_up T now udp listen \<longleftrightarrow>
     (\<forall>k. 64 \<le> length k \<longrightarrow> (\<exists>cfg. GenerateTLSConfig T now k = Inr cfg)) \<and>
     (\<forall>a. \<exists>sock. udp a = Inr sock) \<and> (\<forall>sock t q. listen sock t q = Inr ())"

lemma Node_Start_ok:
  assumes "GetOrGenerateKeys (ne_S N) (ne_E N) (ne_X N) (ne_P N) (NewSecureKeyStore password) entropy salt nonce db =
      (Inr k, db')" and "64 \<le> length k" and "NewEngine (ne_K N) k = Inr eng" and "machine_up (ne_T N) now udp listen"
  shows "\<exists>node. Node_Start N password entropy salt nonce (Inr db) now udp listen = Inr node \<and>
    node_PrivKey node = take 64 k \<and> node_PubKey node = PeerPrivateKeyToPublic (take 64 k) \<and>
    node_ID node = PeerPubKeyToID (PeerPrivateKeyToPublic (take 64 k))"
proof -
  obtain cfg where "GenerateTLSConfig (ne_T N) now k = Inr cfg" using assms(2,4) by (auto simp: machine_up_def)
  moreover obtain sock where
    "udp (case ne_resolve N (ListenAddr (ne_Cfg N)) of Inl _ \<Rightarrow> None | Inr a \<Rightarrow> Some a) = Inr sock"
    using assms(4) unfolding machine_up_def by blast
  moreover have "listen s t q = Inr ()" for s t q using assms(4) by (simp add: machine_up_def)
  ultimately show ?thesis
    using assms(1-3) by (simp add: Node_Start_def to_array_def Let_def NewQUICTransport_def ListenEarly_def)
qed

section \<open>A concrete node\<close>

definition demo_box :: secretbox_lib where
  "demo_box =
     \<lparr>argon2_IDKey = (\<lambda>pw salt t m p n. take n (sha256 (pw @ salt) @ replicate n 0)),
      xchacha_Seal = (\<lambda>k n p. p @ sha256 (k @ n @ p)),
      xchacha_Open = (\<lambda>k n c. let p = take (length c - 32) c in
        if c = p @ sha256 (k @ n @ p) then Inr p else Inl (Err (ErrLib ''authentication'')))\<rparr>"

lemma demo_box_documented: "secretbox_documented demo_box"
  by (auto simp: secretbox_documented_def demo_box_def Let_def min_def)

definition demo_node_env :: "memdb node_env" where
  "demo_node_env =
     \<lparr>ne_S = mem_storage, ne_E = demo_ed, ne_X = demo_box, ne_K = demo_kx, ne_U = demo_uuid, ne_M = msg_codec,
      ne_V = env_codec, ne_P = epk_codec, ne_R = demo_reply_env, ne_T = demo_tls, ne_resolve = (\<lambda>a. Inr a),
      ne_numCPU = 4, ne_Cfg = fst (DefaultConfig demo_fs)\<rparr>"

definition demo_udp :: "bytes option \<Rightarrow> bytes result" where
  "demo_udp a = Inr (case a of None \<Rightarrow> [] | Some b \<Rightarrow> b)"

definition demo_listen :: "bytes \<Rightarrow> tls_Config option \<Rightarrow> quic_Config option \<Rightarrow> unit result" where
  "demo_listen sock t q = Inr ()"

lemma demo_machine_up: "machine_up (ne_T demo_node_env) now demo_udp demo_listen"
  using demo_tls_generates by (simp add: machine_up_def demo_node_env_def demo_udp_def demo_listen_def)

lemma demo_node_starts:
  "\<exists>node :: (memdb, nat) Node. Node_Start demo_node_env [1] (replicate 32 x) (Inr (replicate 16 6)) (replicate 24 7)
    (Inr []) (\<lambda>_. 0) demo_udp demo_listen = Inr node \<and> node_PrivKey node = demo_key x"
proof -
  let ?k = "demo_key x"
  let ?ad = "argon2_IDKey demo_box [1] (replicate 16 6) 1 (64 * 1024) 4 32"
  have "length ?ad = 32" using demo_box_documented by (simp only: secretbox_documented_def)
  then have key: "NewX ?ad = Some ?ad" unfolding NewX_def by (rule if_P)
  obtain b where b: "marshal epk_codec \<lparr>Salt = replicate 16 6, epk_Nonce = replicate 24 7,
      EncryptedKey = xchacha_Seal demo_box ?ad (replicate 24 7) ?k,
      Algorithm = bytes_of_string ''argon2id-chacha20''\<rparr> = Inr b"
    using codecs_total(1) by blast
  have enc: "encryptPrivateKey demo_box epk_codec (NewSecureKeyStore [1]) ?k (Inr (replicate 16 6)) (replicate 24 7) = Inr b"
    using key b by (simp add: encryptPrivateKey_def NewSecureKeyStore_def)
  have gen: "ed_GenerateKey demo_ed (replicate 32 x) = Inr ?k" by (simp add: demo_ed_def demo_key_def)
  have "st_Get mem_storage secret_keys_key [] = Inl (Err ErrKeyNotFound)"
    by (simp add: mem_storage_def BadgerStorage_def Get_def Read_def mem_badger_def)
  moreover obtain db' where "st_Set mem_storage secret_keys_key b [] = (Inr (), db')"
    using mem_storage_writes(1) [of secret_keys_key b "[]"] by (cases "st_Set mem_storage secret_keys_key b []") auto
  ultimately have "GetOrGenerateKeys mem_storage demo_ed demo_box epk_codec (NewSecureKeyStore [1])
      (replicate 32 x) (Inr (replicate 16 6)) (replicate 24 7) [] = (Inr ?k, db')"
    using enc gen by (simp add: GetOrGenerateKeys_def)
  moreover have "NewEngine demo_kx ?k = Inr \<lparr>myDiffieHellmanKey = edPrivToX25519 ?k\<rparr>"
    by (simp add: NewEngine_def demo_kx_def)
  ultimately show ?thesis
    using Node_Start_ok [OF _ _ _ demo_machine_up, of "[1]" "replicate 32 x" "Inr (replicate 16 6)" "replicate 24 7" "[]" ?k db']
    by (fastforce simp: demo_node_env_def)
qed

text \<open>A later start on the store of a node, possibly with another configuration.\<close>

lemma restart_same_keys:
  assumes "badger_db B json view ok" and "ne_S N = BadgerStorage B json" and "ok db"
    and "secretbox_documented (ne_X N)" and "codec_documented (ne_P N)" and "codec_documented CB"
    and "length nonce = xchacha_NonceSize"
    and "Node_Start N password entropy salt nonce (Inr db) now udp listen = Inr node"
    and "s = fold (node_step (ne_S N) CB CN CP r d) xs (node_Swarm node)"
    and "machine_up (ne_T N) now' udp' listen'" and "N' = N\<lparr>ne_Cfg := cfg\<rparr>"
  shows "\<exists>node' :: ('db, 'c) Node. Node_Start N' password entropy' salt' nonce' (Inr (sw_db s)) now' udp' listen' = Inr node' \<and>
    node_ID node' = node_ID node \<and> node_PrivKey node' = node_PrivKey node \<and> node_PubKey node' = node_PubKey node"
proof -
  have kv: "kv_storage (ne_S N) view ok" using badger_kv [OF assms(1)] assms(2) by simp
  let ?keys = "GetOrGenerateKeys (ne_S N) (ne_E N) (ne_X N) (ne_P N) (NewSecureKeyStore password)"
  obtain k db' eng where first: "?keys entropy salt nonce db = (Inr k, db')"
    and k: "64 \<le> length k" "NewEngine (ne_K N) k = Inr eng"
    and node: "node_PrivKey node = take 64 k" "node_PubKey node = PeerPrivateKeyToPublic (take 64 k)"
      "node_ID node = PeerPubKeyToID (node_PubKey node)"
      "node_Swarm node = NewSwarm (node_ID node) (take 64 k) db' (cfg_MaxConnections (ne_Cfg N))"
    by (rule Node_StartE [OF assms(8)]) blast
  have again: "ok db'" "?keys entropy' salt' nonce' db' = (Inr k, db')"
    using kv_storage.GetOrGenerateKeys_again [OF kv assms(4,5,7,3) first] by auto
  have "sw_db (node_Swarm node) = db'" using node(4) by (simp add: NewSwarm_def)
  with kv_storage.node_run_secret [OF kv assms(6), of "node_Swarm node" CN CP r d xs] again(1) assms(9)
  have "ok (sw_db s)" "view (sw_db s) secret_keys_key = view db' secret_keys_key" by simp_all
  from kv_storage.GetOrGenerateKeys_same_record [OF kv again(1) this again(2)
      kv_storage.GetOrGenerateKeys_stored [OF kv assms(3) first]]
  have "?keys entropy' salt' nonce' (sw_db s) = (Inr k, sw_db s)" .
  with assms(11) have "GetOrGenerateKeys (ne_S N') (ne_E N') (ne_X N') (ne_P N') (NewSecureKeyStore password)
      entropy' salt' nonce' (sw_db s) = (Inr k, sw_db s)" by simp
  moreover have "NewEngine (ne_K N') k = Inr eng" "machine_up (ne_T N') now' udp' listen'"
    using k(2) assms(10,11) by simp_all
  ultimately obtain node' :: "('db, 'c) Node" where
    "Node_Start N' password entropy' salt' nonce' (Inr (sw_db s)) now' udp' listen' = Inr node'"
    "node_PrivKey node' = take 64 k" "node_PubKey node' = PeerPrivateKeyToPublic (take 64 k)"
    "node_ID node' = PeerPubKeyToID (PeerPrivateKeyToPublic (take 64 k))"
    using Node_Start_ok [OF _ k(1)] by metis
  then show ?thesis using node by auto
qed

section \<open>Properties\<close>

text \<open>
  C16. The identity of a node survives: when a node has started with a password, and then any
  sequence of files and peers is saved and of connections, bans and saved histories happens on the
  same store, whether or not the individual writes succeed, starting again with the same password
  and whatever random bytes, on a machine that provides certificate, socket and listener, gives the same identifier, private and public key.
\<close>

theorem identity_survives:
  assumes "badger_db B json view ok" and "ne_S N = BadgerStorage B json" and "ok db"
    and "secretbox_documented (ne_X N)" and "codec_documented (ne_P N)" and "codec_documented CB"
    and "length nonce = xchacha_NonceSize"
    and "Node_Start N password entropy salt nonce (Inr db) now udp listen = Inr node"
    and "s = fold (node_step (ne_S N) CB CN CP r d) xs (node_Swarm node)"
    and "machine_up (ne_T N) now' udp' listen'"
  shows "\<exists>node' :: ('db, 'c) Node. Node_Start N password entropy' salt' nonce' (Inr (sw_db s)) now' udp' listen' = Inr node' \<and>
    node_ID node' = node_ID node \<and> node_PrivKey node' = node_PrivKey node \<and> node_PubKey node' = node_PubKey node"
  by (rule restart_same_keys [OF assms, where cfg = "ne_Cfg N"]) simp

theorem identity_survives_witness:
  "\<exists>(node :: (memdb, nat) Node) (node' :: (memdb, nat) Node).
     Node_Start demo_node_env [1] (replicate 32 5) (Inr (replicate 16 6)) (replicate 24 7) (Inr []) (\<lambda>_. 0) demo_udp demo_listen = Inr node \<and>
     Node_Start demo_node_env [1] [] (Inr []) [] (Inr (sw_db (fold (node_step mem_storage bucket_codec node_codec pse_codec
       (\<lambda>c. []) (NewDHT [1])) [NodeDht (OpSaveFile [104, 105]), NodeSwarm (SwBan zero32)] (node_Swarm node))))
       (\<lambda>_. 1) demo_udp demo_listen = Inr node' \<and> node_ID node' = node_ID node"
proof -
  obtain node :: "(memdb, nat) Node" where node: "Node_Start demo_node_env [1] (replicate 32 5) (Inr (replicate 16 6))
      (replicate 24 7) (Inr []) (\<lambda>_. 0) demo_udp demo_listen = Inr node"
    using demo_node_starts by blast
  have env: "ne_S demo_node_env = BadgerStorage mem_badger null_json" "mem_ok []"
    "secretbox_documented (ne_X demo_node_env)" "codec_documented (ne_P demo_node_env)" "ne_S demo_node_env = mem_storage"
    by (simp_all add: demo_node_env_def mem_storage_def mem_ok_def demo_box_documented epk_codec_documented)
  from identity_survives [where CN = node_codec and CP = pse_codec and r = "\<lambda>c. []" and d = "NewDHT [1]"
      and xs = "[NodeDht (OpSaveFile [104, 105]), NodeSwarm (SwBan zero32)]"
      and entropy' = "[]" and salt' = "Inr []" and nonce' = "[]",
      OF mem.badger_db_axioms env(1-4) bucket_codec_documented _ node refl demo_machine_up [of "\<lambda>_. 1"]]
  have "\<exists>node' :: (memdb, nat) Node. Node_Start demo_node_env [1] [] (Inr []) [] (Inr (sw_db (fold (node_step mem_storage
      bucket_codec node_codec pse_codec (\<lambda>c. []) (NewDHT [1])) [NodeDht (OpSaveFile [104, 105]), NodeSwarm (SwBan zero32)]
      (node_Swarm node)))) (\<lambda>_. 1) demo_udp demo_listen = Inr node' \<and> node_ID node' = node_ID node"
    unfolding env(5) xchacha_NonceSize_def by (metis length_replicate)
  with node show ?thesis by blast
qed

text \<open>
  C22. What can crash a running node through its dispatcher: for the handlers that \<^verbatim>\<open>Start\<close>
  registers, processing a packet panics only if the envelope's public key, or the origin of an
  authentic message, has fewer than 32 bytes. Every other packet, forged or not, of any type, is
  processed without a panic.
\<close>

theorem node_dispatcher_panics:
  assumes "kx_no_panic (ne_K N)" and "codec_documented (ne_M N)"
    and "Node_Start N password entropy salt nonce (Inr db) now udp listen = Inr node"
    and "fst (processPacket (ne_M N) (ne_E N) (node_Dispatcher node) p st) \<noteq> None"
  shows "length (env_PubKey (ip_Envelope p)) < 32 \<or>
    (\<exists>m. authentic (ne_M N) (ne_E N) (ip_Envelope p) m \<and> length (OriginId m) < 32)"
proof (rule ccontr)
  assume "\<not> ?thesis"
  then have len: "32 \<le> length (env_PubKey (ip_Envelope p))"
    and origin: "\<And>m. authentic (ne_M N) (ne_E N) (ip_Envelope p) m \<Longrightarrow> 32 \<le> length (OriginId m)" by (auto simp: not_less)
  obtain pub svc where d: "node_Dispatcher node = register_services N pub svc (NewDispatcher (ne_numCPU N))"
    by (rule Node_StartE [OF assms(3)]) blast
  show False
  proof (cases "\<exists>m. authentic (ne_M N) (ne_E N) (ip_Envelope p) m")
    case True
    then obtain m where m: "authentic (ne_M N) (ne_E N) (ip_Envelope p) m" by blast
    show False
      using assms(4) processPacket_authentic [OF m, of "node_Dispatcher node" st]
        node_route_no_panic [OF assms(1) origin [OF m], of pub svc "ne_numCPU N" "ip_PeerID p" st] d by simp
  next
    case False
    then show False using processPacket_ignored [OF assms(2) len False, of "node_Dispatcher node" st] assms(4) by simp
  qed
qed

theorem node_dispatcher_panics_witness:
  "\<exists>(node :: (memdb, nat) Node) p st. fst (processPacket msg_codec demo_ed (node_Dispatcher node) p st) \<noteq> None \<and>
     (length (env_PubKey (ip_Envelope p)) < 32 \<or>
      (\<exists>m. authentic msg_codec demo_ed (ip_Envelope p) m \<and> length (OriginId m) < 32))"
proof -
  obtain node :: "(memdb, nat) Node" where node: "Node_Start demo_node_env [1] (replicate 32 5) (Inr (replicate 16 6))
      (replicate 24 7) (Inr []) (\<lambda>_. 0) demo_udp demo_listen = Inr node"
    using demo_node_starts by blast
  let ?p = "\<lparr>ip_Envelope = \<lparr>env_Data = [], env_Signature = [], env_PubKey = [1]\<rparr>, ip_PeerID = []\<rparr>"
  have env: "ne_K demo_node_env = demo_kx" "ne_M demo_node_env = msg_codec" "ne_E demo_node_env = demo_ed"
    by (simp_all add: demo_node_env_def)
  have "fst (processPacket msg_codec demo_ed (node_Dispatcher node) ?p (demo_app 1)) \<noteq> None"
    by (simp add: processPacket_short)
  with node_dispatcher_panics [OF _ _ node, unfolded env, OF demo_kx_no_panic msg_codec_documented this]
  show ?thesis by blast
qed

text \<open>
  C24. What a started node listens with: its transport has the node's key, the configured protocol
  version and a socket, which is bound to the configured address if that can be resolved and,
  because the error is dropped, to any address and port if it cannot; its TLS configuration takes
  any certificate, or none, from either side of a connection; and the swarm is not given this
  transport but keeps the empty one.
\<close>

theorem started_transport:
  assumes "Node_Start N password entropy salt nonce (Inr db) now udp listen = Inr node"
  shows "\<exists>sock cfg. node_Transport node =
      \<lparr>tr = Some sock, tlsCfg = Some cfg, quicCgf = Some GetQuicConfig, privKey = node_PrivKey node,
       protocolVersion = cfg_ProtocolVersion (ne_Cfg N), tr_addr = Some sock\<rparr> \<and>
    udp (case ne_resolve N (ListenAddr (ne_Cfg N)) of Inl _ \<Rightarrow> None | Inr a \<Rightarrow> Some a) = Inr sock \<and>
    tls_client_accepts cfg chain_ok certs \<and> tls_server_accepts cfg chain_ok certs \<and>
    netTransport (node_Swarm node) = zero_transport"
proof -
  obtain k db' tls where n: "node_PrivKey node = take 64 k"
    "node_Swarm node = NewSwarm (node_ID node) (take 64 k) db' (cfg_MaxConnections (ne_Cfg N))"
    "GenerateTLSConfig (ne_T N) now k = Inr tls"
    "NewQUICTransport (ne_resolve N) udp (ListenAddr (ne_Cfg N)) (Some tls) (Some GetQuicConfig) (take 64 k)
      (cfg_ProtocolVersion (ne_Cfg N)) = Inr (node_Transport node)"
    by (rule Node_StartE [OF assms]) blast
  show ?thesis
    by (rule NewQUICTransport_Inr [OF n(4)])
      (use n(1,2) GenerateTLSConfig_accepts_all [OF n(3)] in \<open>simp add: NewSwarm_def\<close>)
qed

text \<open>The witness: a node whose listening address cannot be resolved.\<close>

theorem started_transport_witness:
  "\<exists>node :: (memdb, nat) Node. Node_Start (demo_node_env\<lparr>ne_resolve := \<lambda>a. Inl (Err (ErrLib ''unknown port''))\<rparr>)
      [1] (replicate 32 5) (Inr (replicate 16 6)) (replicate 24 7) (Inr []) (\<lambda>_. 0) demo_udp demo_listen = Inr node \<and>
    QuicTransport_Addr (node_Transport node) = Some []"
proof -
  let ?N = "demo_node_env\<lparr>ne_resolve := \<lambda>a. Inl (Err (ErrLib ''unknown port''))\<rparr>"
  obtain node :: "(memdb, nat) Node" where node: "Node_Start demo_node_env [1] (replicate 32 5) (Inr (replicate 16 6))
      (replicate 24 7) (Inr []) (\<lambda>_. 0) demo_udp demo_listen = Inr node"
    using demo_node_starts by blast
  obtain k db' eng where k: "GetOrGenerateKeys (ne_S demo_node_env) (ne_E demo_node_env) (ne_X demo_node_env)
      (ne_P demo_node_env) (NewSecureKeyStore [1]) (replicate 32 5) (Inr (replicate 16 6)) (replicate 24 7) [] = (Inr k, db')"
    "64 \<le> length k" "NewEngine (ne_K demo_node_env) k = Inr eng"
    by (rule Node_StartE [OF node]) blast
  obtain node' :: "(memdb, nat) Node" where node': "Node_Start ?N [1] (replicate 32 5) (Inr (replicate 16 6))
      (replicate 24 7) (Inr []) (\<lambda>_. 0) demo_udp demo_listen = Inr node'"
    using Node_Start_ok [of ?N "[1]" "replicate 32 5" "Inr (replicate 16 6)" "replicate 24 7" "[]" k db' eng "\<lambda>_. 0" demo_udp demo_listen]
      k demo_machine_up by auto
  from started_transport [OF node', of "\<lambda>c. True" "[]"] node' show ?thesis
    by (auto simp: QuicTransport_Addr_def demo_udp_def)
qed

end
