(* ===== verification/Scanning.thy ===== *)
theory Scanning
  imports Prelude
begin

text \<open>
  What \<^verbatim>\<open>cmd/app/main.go\<close> uses of the standard library to read a line: \<^verbatim>\<open>fmt.Scanln\<close> with the address of
  one string, and the UTF-8 coding of \<^verbatim>\<open>unicode/utf8\<close> below it. The scanner reads runes, not bytes: a
  byte that does not belong to the coding of a rune is read as \<^verbatim>\<open>utf8.RuneError\<close>, and what it puts into
  the string is the coding of the runes that it read.
\<close>

section \<open>Runes\<close>

type_synonym rune = nat

definition RuneError :: rune where "RuneError = 65533"

text \<open>The runes that have a coding (the others are coded like \<open>RuneError\<close>): no surrogates, and none above the largest.\<close>

definition ValidRune :: "rune \<Rightarrow> bool" where
  "ValidRune r \<longleftrightarrow> r < 55296 \<or> (57344 \<le> r \<and> r \<le> 1114111)"

definition rune_code :: "rune \<Rightarrow> nat list" where
  "rune_code r =
     (if r < 128 then [r]
      else if r < 2048 then [192 + r div 64, 128 + r mod 64]
      else if \<not> ValidRune r then [239, 191, 189]
      else if r < 65536 then [224 + r div 4096, 128 + r div 64 mod 64, 128 + r mod 64]
      else [240 + r div 262144, 128 + r div 4096 mod 64, 128 + r div 64 mod 64, 128 + r mod 64])"

definition AppendRune :: "rune \<Rightarrow> bytes" where
  "AppendRune r = map of_nat (rune_code r)"

definition utf8 :: "rune list \<Rightarrow> bytes" where
  "utf8 rs = concat (map AppendRune rs)"

text \<open>The bytes that may come second, after the first byte \<open>x\<close>, and later.\<close>

definition second_byte :: "nat \<Rightarrow> nat \<Rightarrow> bool" where
  "second_byte x b \<longleftrightarrow>
     (if x = 224 then 160 else if x = 240 then 144 else 128) \<le> b \<and>
     b \<le> (if x = 237 then 159 else if x = 244 then 143 else 191)"

definition later_byte :: "nat \<Rightarrow> bool" where
  "later_byte b \<longleftrightarrow> 128 \<le> b \<and> b \<le> 191"

text \<open>\<^verbatim>\<open>utf8.DecodeRune\<close>: the first rune and the number of its bytes.\<close>

definition DecodeRune :: "bytes \<Rightarrow> rune \<times> nat" where
  "DecodeRune p =
     (case map unat p of
        [] \<Rightarrow> (RuneError, 0)
      | x # bs \<Rightarrow>
          if x < 128 then (x, 1)
          else if 194 \<le> x \<and> x \<le> 223 then
            (case bs of
               b # _ \<Rightarrow> if second_byte x b then ((x - 192) * 64 + (b - 128), 2) else (RuneError, 1)
             | _ \<Rightarrow> (RuneError, 1))
          else if 224 \<le> x \<and> x \<le> 239 then
            (case bs of
               b # c # _ \<Rightarrow> if second_byte x b \<and> later_byte c
                 then ((x - 224) * 4096 + (b - 128) * 64 + (c - 128), 3) else (RuneError, 1)
             | _ \<Rightarrow> (RuneError, 1))
          else if 240 \<le> x \<and> x \<le> 244 then
            (case bs of
               b # c # d # _ \<Rightarrow> if second_byte x b \<and> later_byte c \<and> later_byte d
                 then ((x - 240) * 262144 + (b - 128) * 4096 + (c - 128) * 64 + (d - 128), 4) else (RuneError, 1)
             | _ \<Rightarrow> (RuneError, 1))
          else (RuneError, 1))"

lemma DecodeRune_size: "p \<noteq> [] \<Longrightarrow> 1 \<le> snd (DecodeRune p)"
  by (auto simp: DecodeRune_def split: list.split)

text \<open>All runes of an input, one after the other.\<close>

function runes :: "bytes \<Rightarrow> rune list" where
  "runes p = (if p = [] then [] else (let (r, n) = DecodeRune p in r # runes (drop n p)))"
  by auto

termination
proof (relation "measure length")
  fix p :: bytes and x r n
  assume "p \<noteq> []" "x = DecodeRune p" "(r, n) = x"
  with DecodeRune_size [of p] show "(drop n p, p) \<in> measure length" by (cases "DecodeRune p") simp
qed simp

declare runes.simps [simp del]

section \<open>Scanning a line\<close>

text \<open>The table of blanks of the scanner; the newline is one of them.\<close>

definition newline :: byte where "newline = 10"

definition isSpace :: "rune \<Rightarrow> bool" where
  "isSpace r \<longleftrightarrow> (9 \<le> r \<and> r \<le> 13) \<or> r \<in> {32, 133, 160, 5760, 8239, 8287, 12288} \<or>
     (8192 \<le> r \<and> r \<le> 8202) \<or> (8232 \<le> r \<and> r \<le> 8233)"

definition blank :: "rune \<Rightarrow> bool" where
  "blank r \<longleftrightarrow> isSpace r \<and> r \<noteq> 10"

text \<open>
  \<^verbatim>\<open>Scanln\<close> skips blanks, fails at the end of the line with the string left empty, and otherwise
  reads up to the next blank or the end of the line. It also fails when more than blanks follow on
  the line, but the string has been set by then.
\<close>

definition Scanln_string :: "bytes \<Rightarrow> bytes \<times> bool" where
  "Scanln_string input =
     (let line = dropWhile blank (runes input);
          word = takeWhile (\<lambda>r. \<not> isSpace r) line;
          rest = dropWhile blank (drop (length word) line)
      in (utf8 word, word \<noteq> [] \<and> (rest = [] \<or> hd rest = 10)))"

section \<open>Decoding inverts encoding\<close>

lemma utf8_simps [simp]:
  "utf8 [] = []" "utf8 (r # rs) = AppendRune r @ utf8 rs" "utf8 (rs @ rs') = utf8 rs @ utf8 rs'"
  by (simp_all add: utf8_def)

text \<open>The four lengths of a coding, with the digits it is made of.\<close>

lemma rune_codeE:
  assumes "ValidRune r"
  obtains "r < 128" "rune_code r = [r]"
    | a b where "rune_code r = [192 + a, 128 + b]" "r = a * 64 + b" "2 \<le> a" "a < 32" "b < 64"
    | a b c where "rune_code r = [224 + a, 128 + b, 128 + c]" "r = a * 4096 + b * 64 + c" "a < 16" "b < 64" "c < 64"
        "second_byte (224 + a) (128 + b)"
    | a b c d where "rune_code r = [240 + a, 128 + b, 128 + c, 128 + d]" "r = a * 262144 + b * 4096 + c * 64 + d"
        "a \<le> 4" "b < 64" "c < 64" "d < 64" "second_byte (240 + a) (128 + b)"
proof -
  consider "r < 128" | "128 \<le> r" "r < 2048" | "2048 \<le> r" "r < 65536" | "65536 \<le> r" by linarith
  then show thesis
  proof cases
    case 1
    then show thesis using that(1) by (simp add: rune_code_def)
  next
    case 2
    have "r = r div 64 * 64 + r mod 64" "2 \<le> r div 64" "r div 64 < 32" using 2 by simp_all
    with 2 show thesis using that(2) [of "r div 64" "r mod 64"] by (simp add: rune_code_def)
  next
    case 3
    let ?a = "r div 4096" and ?b = "r div 64 mod 64" and ?c = "r mod 64"
    have q: "r div 4096 = r div 64 div 64" by (simp flip: div_mult2_eq)
    have r: "r = ?a * 4096 + ?b * 64 + ?c"
      using div_mult_mod_eq [of r 64] div_mult_mod_eq [of "r div 64" 64] q by linarith
    have d: "?a < 16" "?b < 64" "?c < 64" using 3 by simp_all
    have "32 \<le> ?b" if "?a = 0" using that 3 r d by linarith
    moreover have "?b \<le> 31" if "?a = 13" using that 3 r d assms unfolding ValidRune_def by linarith
    ultimately have "second_byte (224 + ?a) (128 + ?b)" using d by (auto simp: second_byte_def)
    with 3 r d assms show thesis using that(3) [of ?a ?b ?c] by (simp add: rune_code_def)
  next
    case 4
    let ?a = "r div 262144" and ?b = "r div 4096 mod 64" and ?c = "r div 64 mod 64" and ?d = "r mod 64"
    have q: "r div 4096 = r div 64 div 64" "r div 262144 = r div 4096 div 64" by (simp_all flip: div_mult2_eq)
    have r: "r = ?a * 262144 + ?b * 4096 + ?c * 64 + ?d"
      using div_mult_mod_eq [of r 64] div_mult_mod_eq [of "r div 64" 64] div_mult_mod_eq [of "r div 4096" 64]
        q by linarith
    have d: "?b < 64" "?c < 64" "?d < 64" by simp_all
    have a: "?a \<le> 4" using assms 4 r unfolding ValidRune_def by linarith
    have "16 \<le> ?b" if "?a = 0" using that 4 r d by linarith
    moreover have "?b \<le> 15" if "?a = 4" using that 4 r d assms unfolding ValidRune_def by linarith
    ultimately have "second_byte (240 + ?a) (128 + ?b)" using a d by (auto simp: second_byte_def)
    with 4 r a d assms show thesis using that(4) [of ?a ?b ?c ?d] by (simp add: rune_code_def)
  qed
qed

lemma unat_codes: "\<forall>n \<in> set ns. n < 256 \<Longrightarrow> map (unat \<circ> (of_nat :: nat \<Rightarrow> byte)) ns = ns"
  by (induction ns) (simp_all add: unat_of_nat)

lemma unat_AppendRune:
  assumes "ValidRune r"
  shows "map unat (AppendRune r) = rune_code r"
proof -
  have "\<forall>n \<in> set (rune_code r). n < 256" using assms by (cases rule: rune_codeE) simp_all
  then show ?thesis unfolding AppendRune_def list.map_comp by (rule unat_codes)
qed

lemma DecodeRune_AppendRune:
  assumes "ValidRune r"
  shows "DecodeRune (AppendRune r @ rest) = (r, length (AppendRune r))"
proof -
  have len: "length (AppendRune r) = length (rune_code r)" by (simp add: AppendRune_def)
  have code: "map unat (AppendRune r @ rest) = rune_code r @ map unat rest" by (simp add: unat_AppendRune [OF assms])
  show ?thesis
    using assms
  proof (cases rule: rune_codeE)
    case 1
    then show ?thesis unfolding DecodeRune_def code len 1(2) by simp
  next
    case (2 a b)
    have "second_byte (192 + a) (128 + b)" using 2 by (simp add: second_byte_def)
    then show ?thesis unfolding DecodeRune_def code len 2(1) using 2(2-5) by simp
  next
    case (3 a b c)
    have "later_byte (128 + c)" using 3 by (simp add: later_byte_def)
    then show ?thesis unfolding DecodeRune_def code len 3(1) using 3(2-6) by simp
  next
    case (4 a b c d)
    have "later_byte (128 + c)" "later_byte (128 + d)" using 4 by (simp_all add: later_byte_def)
    then show ?thesis unfolding DecodeRune_def code len 4(1) using 4(2-7) by simp
  qed
qed

lemma AppendRune_not_Nil: "AppendRune r \<noteq> []"
  by (simp add: AppendRune_def rune_code_def)

lemma runes_AppendRune: "ValidRune r \<Longrightarrow> runes (AppendRune r @ rest) = r # runes rest"
  by (subst runes.simps) (simp add: DecodeRune_AppendRune AppendRune_not_Nil)

lemma runes_utf8: "\<forall>r \<in> set rs. ValidRune r \<Longrightarrow> runes (utf8 rs @ rest) = rs @ runes rest"
  by (induction rs) (simp_all add: runes_AppendRune)

lemma isSpace_valid: "isSpace r \<Longrightarrow> ValidRune r"
  by (auto simp: isSpace_def ValidRune_def)

section \<open>The word on a line\<close>

text \<open>The bytes of an input that has \<open>w\<close> as the first word of its first line; \<open>w\<close> is empty on an empty line.\<close>

definition first_word :: "rune list \<Rightarrow> bytes \<Rightarrow> bool" where
  "first_word w input \<longleftrightarrow> (\<forall>r \<in> set w. ValidRune r \<and> \<not> isSpace r) \<and>
     (\<exists>blanks rest. input = utf8 (blanks @ w) @ rest \<and> (\<forall>r \<in> set blanks. blank r) \<and>
       (rest = [] \<or> (\<exists>r rest'. isSpace r \<and> rest = AppendRune r @ rest' \<and> (w = [] \<longrightarrow> r = 10))))"

lemma Scanln_first_word:
  assumes "first_word w input"
  shows "fst (Scanln_string input) = utf8 w"
proof -
  from assms obtain blanks rest where w: "\<forall>r \<in> set w. ValidRune r \<and> \<not> isSpace r"
    and input: "input = utf8 (blanks @ w) @ rest" and blanks: "\<forall>r \<in> set blanks. blank r"
    and rest: "rest = [] \<or> (\<exists>r rest'. isSpace r \<and> rest = AppendRune r @ rest' \<and> (w = [] \<longrightarrow> r = 10))"
    by (auto simp: first_word_def)
  have valid: "\<forall>r \<in> set (blanks @ w). ValidRune r"
    using w blanks isSpace_valid by (auto simp: blank_def)
  have "runes rest = [] \<or> (\<exists>r rs. isSpace r \<and> runes rest = r # rs \<and> (w = [] \<longrightarrow> r = 10))"
    using rest runes_AppendRune isSpace_valid by (auto simp: runes.simps [of "[]"])
  then have stop: "takeWhile (\<lambda>r. \<not> isSpace r) (w @ runes rest) = w"
    and start: "dropWhile blank (w @ runes rest) = w @ runes rest"
    using w by (auto simp: blank_def dropWhile_eq_self_iff hd_append)
  have "dropWhile blank (runes input) = w @ runes rest"
    using runes_utf8 [OF valid, of rest] blanks start by (simp add: input)
  then show ?thesis using stop by (simp add: Scanln_string_def Let_def)
qed

end
