(* ===== verification/Command.thy ===== *)
theory Command
  imports Node Scanning
begin

text \<open>
  \<^verbatim>\<open>cmd/app/main.go\<close>: the command that reads a password from its standard input, starts a node with
  the default configuration and waits for a signal (\<open>Scanning\<close> has the reading of the line); and the buffer pool of \<^verbatim>\<open>pkg/utils\<close>.
\<close>

section \<open>The command\<close>

definition main_ListenAddr :: bytes where "main_ListenAddr = bytes_of_string ''0.0.0.0:4242''"
definition main_DatabasePath :: bytes where "main_DatabasePath = bytes_of_string ''./data''"

definition main_config :: "file_system \<Rightarrow> AppConfig \<times> file_system" where
  "main_config fs =
     (let (cfg, fs) = DefaultConfig fs
      in (cfg\<lparr>ListenAddr := main_ListenAddr, DatabasePath := main_DatabasePath\<rparr>, fs))"

text \<open>
  The line that the goroutine on the log channel prints for an entry.
\<close>

definition log_line :: "LogEntry \<Rightarrow> bytes" where
  "log_line logEntry =
     bytes_of_string ''['' @ le_Time logEntry @ bytes_of_string ''] '' @ le_Level logEntry @
     bytes_of_string '': '' @ le_Message logEntry @ [newline]"

text \<open>
  How the command ends: with an exit code, or by a panic (also \<^verbatim>\<open>log.Fatal\<close>, which exits). A node
  that has started runs until a signal arrives and is stopped.
\<close>

datatype ('db, 'c) command =
    Exit nat
  | Crash panic
  | Running "('db, 'c) Node" node_shell

definition command_main ::
  "'db node_env \<Rightarrow> slice \<Rightarrow> bytes \<Rightarrow> bytes \<Rightarrow> bytes result \<Rightarrow> bytes \<Rightarrow> (bytes \<Rightarrow> 'db result) \<Rightarrow>
   (nat \<Rightarrow> int) \<Rightarrow> (bytes option \<Rightarrow> bytes result) \<Rightarrow>
   (bytes \<Rightarrow> tls_Config option \<Rightarrow> quic_Config option \<Rightarrow> unit result) \<Rightarrow> file_system \<Rightarrow>
   ('db, 'c) command \<times> file_system" where
  "command_main N nil input entropy salt nonce open_db now listenUDP listen fs =
     (let (cfg, fs) = main_config fs;
          echoNode = NewNode nil cfg;
          (password, _) = Scanln_string input
      in (case Node_Start (N\<lparr>ne_Cfg := cfg\<rparr>) password entropy salt nonce (open_db (DatabasePath cfg)) now listenUDP listen of
            Inl (Panic p) \<Rightarrow> (Crash p, fs)
          | Inl (Err e) \<Rightarrow> (Exit 1, fs)
          | Inr node \<Rightarrow> (Running node echoNode, fs)))"

text \<open>
  After the signal: the node is stopped and \<^verbatim>\<open>main\<close> returns. What \<^verbatim>\<open>Start\<close> logged has been taken
  from the log channel and printed by then (\<open>log_line\<close>), so the node is stopped with the channel of
  the fresh shell.
\<close>

definition command_signal :: "store \<Rightarrow> bytes \<Rightarrow> ('db, 'c) command \<Rightarrow> ('db, 'c) command \<times> node_shell option" where
  "command_signal st time c =
     (case c of
        Running node shell \<Rightarrow> (Exit 0, Some (Node_Stop st time shell))
      | _ \<Rightarrow> (c, None))"

section \<open>The buffer pool\<close>

text \<open>
  A pool of buffers. \<^verbatim>\<open>Get\<close> of a \<^verbatim>\<open>sync.Pool\<close> gives any buffer that was put back, or a new one:
  \<open>choice\<close> is the index of the one it gives, if it is in the pool.
\<close>

definition MaxPacketSize :: nat where "MaxPacketSize = 65536"

definition GetBuffer :: "nat option \<Rightarrow> bytes list \<Rightarrow> bytes \<times> bytes list" where
  "GetBuffer choice bufPool =
     (case choice of
        Some n \<Rightarrow> if n < length bufPool then (bufPool ! n, take n bufPool @ drop (Suc n) bufPool)
                 else (replicate MaxPacketSize 0, bufPool)
      | None \<Rightarrow> (replicate MaxPacketSize 0, bufPool))"

definition PutBuffer :: "bytes \<Rightarrow> bytes list \<Rightarrow> bytes list" where
  "PutBuffer b bufPool = bufPool @ [b]"

section \<open>Lemmas\<close>

text \<open>What the command does with a line, by the first word on it.\<close>

lemma command_main_first_word:
  assumes "first_word w input" and "main_config fs = (cfg, fs')"
  shows "command_main N nil input e sa n open_db now udp listen fs =
    (case Node_Start (N\<lparr>ne_Cfg := cfg\<rparr>) (utf8 w) e sa n (open_db main_DatabasePath) now udp listen of
       Inl (Panic p) \<Rightarrow> (Crash p, fs')
     | Inl (Err x) \<Rightarrow> (Exit 1, fs')
     | Inr node \<Rightarrow> (Running node (NewNode nil cfg), fs'))"
proof -
  have "DatabasePath cfg = main_DatabasePath"
    using assms(2) by (auto simp: main_config_def Let_def split: prod.splits)
  then show ?thesis
    using assms(2) Scanln_first_word [OF assms(1)]
    by (simp add: command_main_def Let_def case_prod_beta split: sum.split exn.split)
qed

text \<open>Every buffer of the pool keeps the size, if only buffers of that size are put back.\<close>

lemma GetBuffer_size:
  assumes "\<forall>b \<in> set pool. length b = MaxPacketSize" and "GetBuffer choice pool = (b, pool')"
  shows "length b = MaxPacketSize \<and> (\<forall>b \<in> set pool'. length b = MaxPacketSize) \<and>
    (\<forall>b' \<in> set (PutBuffer b pool'). length b' = MaxPacketSize)"
  using assms by (auto simp: GetBuffer_def PutBuffer_def split: option.splits if_splits)
    (blast dest: in_set_takeD in_set_dropD)+

section \<open>Properties\<close>

text \<open>
  C39. The first word of the line is the passphrase: when the command has run on one line of input,
  and afterwards any history of the hash table and of the swarm has happened on its database, then
  running it again on any line with the same first word, whatever blanks, newlines or further words
  surround it, and with whatever configuration it finds, unlocks the same identity: the node has the
  same identifier, private and public key. Lines and words are texts in UTF-8; an empty line counts
  as the empty word. So the rest of a passphrase with blanks protects nothing.
\<close>

theorem command_password:
  assumes "badger_db B json view ok" and "ne_S N = BadgerStorage B json"
    and "secretbox_documented (ne_X N)" and "codec_documented (ne_P N)" and "codec_documented CB"
    and "length nonce = xchacha_NonceSize" and "first_word w input" and "first_word w input'"
    and "open_db main_DatabasePath = Inr db" and "ok db"
    and "command_main N nil input entropy salt nonce open_db now udp listen fs = (Running node shell, fs1)"
    and "s = fold (node_step (ne_S N) CB CN CP r d) xs (node_Swarm node)"
    and "open_db' main_DatabasePath = Inr (sw_db s)" and "machine_up (ne_T N) now' udp' listen'"
  shows "\<exists>(node' :: ('db, 'c) Node) shell' fs2.
    command_main N nil' input' entropy' salt' nonce' open_db' now' udp' listen' fs' = (Running node' shell', fs2) \<and>
    node_ID node' = node_ID node \<and> node_PrivKey node' = node_PrivKey node \<and> node_PubKey node' = node_PubKey node"
proof -
  obtain cfg fs3 cfg' fs4 where cfg: "main_config fs = (cfg, fs3)" "main_config fs' = (cfg', fs4)" by fastforce
  let ?N = "N\<lparr>ne_Cfg := cfg\<rparr>"
  have first: "Node_Start ?N (utf8 w) entropy salt nonce (Inr db) now udp listen = Inr node"
    using assms(11) [unfolded command_main_first_word [OF assms(7) cfg(1)] assms(9)] by (auto split: sum.splits exn.splits)
  have N: "ne_S ?N = BadgerStorage B json" "secretbox_documented (ne_X ?N)" "codec_documented (ne_P ?N)"
    "s = fold (node_step (ne_S ?N) CB CN CP r d) xs (node_Swarm node)" "machine_up (ne_T ?N) now' udp' listen'"
    "N\<lparr>ne_Cfg := cfg'\<rparr> = ?N\<lparr>ne_Cfg := cfg'\<rparr>"
    using assms by simp_all
  obtain node' :: "('db, 'c) Node" where
    "Node_Start (N\<lparr>ne_Cfg := cfg'\<rparr>) (utf8 w) entropy' salt' nonce' (Inr (sw_db s)) now' udp' listen' = Inr node'"
    "node_ID node' = node_ID node" "node_PrivKey node' = node_PrivKey node" "node_PubKey node' = node_PubKey node"
    using restart_same_keys [OF assms(1) N(1) assms(10) N(2,3) assms(5,6) first N(4,5,6)] by metis
  then show ?thesis unfolding command_main_first_word [OF assms(8) cfg(2)] assms(13) by simp
qed

text \<open>
  The witness: a line with the word, a no-break space and another word, and a line with the word alone.
\<close>

definition demo_lines :: "bytes \<times> bytes" where
  "demo_lines = ([32, 1, 194, 160, 99, 10], [1, 10])"

lemma demo_lines: "first_word [1] (fst demo_lines)" "first_word [1] (snd demo_lines)"
proof -
  have "fst demo_lines = utf8 ([32] @ [1]) @ AppendRune 160 @ [99, 10]"
    by (simp add: demo_lines_def AppendRune_def rune_code_def)
  moreover have "isSpace 160" by (simp add: isSpace_def)
  moreover have "\<forall>r \<in> set [32]. blank r" by (simp add: blank_def isSpace_def)
  moreover have word: "\<forall>r \<in> set [1]. ValidRune r \<and> \<not> isSpace r" by (simp add: ValidRune_def isSpace_def)
  ultimately show "first_word [1] (fst demo_lines)" unfolding first_word_def by blast
  have "snd demo_lines = utf8 ([] @ [1]) @ AppendRune 10 @ []"
    by (simp add: demo_lines_def AppendRune_def rune_code_def)
  moreover have "isSpace 10" by (simp add: isSpace_def)
  moreover have "\<forall>r \<in> set []. blank r" by simp
  ultimately show "first_word [1] (snd demo_lines)" using word unfolding first_word_def by blast
qed

definition demo_command :: "bytes \<Rightarrow> bytes \<Rightarrow> bytes result \<Rightarrow> bytes \<Rightarrow> memdb \<Rightarrow> (memdb, nat) command" where
  "demo_command input entropy salt nonce db = fst (command_main demo_node_env \<lparr>sl_array = 0, sl_len = 0\<rparr> input entropy salt
     nonce (\<lambda>path. Inr db) (\<lambda>_. 0) demo_udp demo_listen demo_fs)"

theorem command_password_witness:
  "\<exists>node shell node' shell'.
     demo_command (fst demo_lines) (replicate 32 5) (Inr (replicate 16 6)) (replicate 24 7) [] = Running node shell \<and>
     demo_command (snd demo_lines) [] (Inr []) [] (sw_db (node_Swarm node)) = Running node' shell' \<and>
     node_PrivKey node' = node_PrivKey node"
proof -
  obtain cfg fs' where cfg: "main_config demo_fs = (cfg, fs')" by force
  let ?N = "demo_node_env\<lparr>ne_Cfg := cfg\<rparr>"
  obtain node0 :: "(memdb, nat) Node" where node0: "Node_Start demo_node_env [1] (replicate 32 5) (Inr (replicate 16 6))
      (replicate 24 7) (Inr []) (\<lambda>_. 0) demo_udp demo_listen = Inr node0"
    using demo_node_starts by blast
  obtain k db' eng where k: "GetOrGenerateKeys (ne_S demo_node_env) (ne_E demo_node_env) (ne_X demo_node_env)
      (ne_P demo_node_env) (NewSecureKeyStore [1]) (replicate 32 5) (Inr (replicate 16 6)) (replicate 24 7) [] = (Inr k, db')"
    "64 \<le> length k" "NewEngine (ne_K demo_node_env) k = Inr eng"
    by (rule Node_StartE [OF node0]) blast
  obtain node :: "(memdb, nat) Node" where node: "Node_Start ?N [1] (replicate 32 5) (Inr (replicate 16 6))
      (replicate 24 7) (Inr []) (\<lambda>_. 0) demo_udp demo_listen = Inr node"
    using Node_Start_ok [of ?N "[1]" "replicate 32 5" "Inr (replicate 16 6)" "replicate 24 7" "[]" k db' eng "\<lambda>_. 0" demo_udp demo_listen]
      k demo_machine_up by auto
  have "utf8 [1] = [1]" by (simp add: AppendRune_def rune_code_def)
  with node have run: "command_main demo_node_env \<lparr>sl_array = 0, sl_len = 0\<rparr> (fst demo_lines) (replicate 32 5) (Inr (replicate 16 6))
      (replicate 24 7) (\<lambda>path. Inr []) (\<lambda>_. 0) demo_udp demo_listen demo_fs = (Running node (NewNode \<lparr>sl_array = 0, sl_len = 0\<rparr> cfg), fs')"
    unfolding command_main_first_word [OF demo_lines(1) cfg] by simp
  have env: "ne_S demo_node_env = BadgerStorage mem_badger null_json" "mem_ok []"
    "secretbox_documented (ne_X demo_node_env)" "codec_documented (ne_P demo_node_env)"
    by (simp_all add: demo_node_env_def mem_storage_def mem_ok_def demo_box_documented epk_codec_documented)
  have "length (replicate 24 7 :: bytes) = xchacha_NonceSize" by (simp add: xchacha_NonceSize_def)
  from command_password [where CN = node_codec and CP = pse_codec and r = "\<lambda>c. []" and d = "NewDHT [1]" and xs = "[]"
      and open_db' = "\<lambda>path. Inr (sw_db (node_Swarm node))" and entropy' = "[]" and salt' = "Inr []" and nonce' = "[]"
      and nil' = "\<lparr>sl_array = 0, sl_len = 0\<rparr>" and fs' = demo_fs,
      OF mem.badger_db_axioms env(1,3,4) bucket_codec_documented this demo_lines refl env(2) run refl _ demo_machine_up [of "\<lambda>_. 0"]]
  obtain node' :: "(memdb, nat) Node" and shell' fs2 where
    second: "command_main demo_node_env \<lparr>sl_array = 0, sl_len = 0\<rparr> (snd demo_lines) [] (Inr []) []
      (\<lambda>path. Inr (sw_db (node_Swarm node))) (\<lambda>_. 0) demo_udp demo_listen demo_fs = (Running node' shell', fs2)"
    and same: "node_PrivKey node' = node_PrivKey node" by auto
  have "demo_command (snd demo_lines) [] (Inr []) [] (sw_db (node_Swarm node)) = Running node' shell'"
    by (simp add: demo_command_def second)
  moreover have "demo_command (fst demo_lines) (replicate 32 5) (Inr (replicate 16 6)) (replicate 24 7) [] =
      Running node (NewNode \<lparr>sl_array = 0, sl_len = 0\<rparr> cfg)" by (simp add: demo_command_def run)
  ultimately show ?thesis using same by blast
qed

end
