(* ===== verification/Well_Typed.thy ===== *)
theory Well_Typed
  imports Node
begin

text \<open>
  A typing discipline for what the nodes send each other. The protobuf messages carry identifiers
  and keys as byte strings of any length, and the code converts them to arrays, which panics for
  short ones: the types are what makes these conversions succeed. \<open>app_run\<close> is the life of a
  node's application: packets its dispatcher processes, messages its user sends and changes of
  its swarm, in any order.
\<close>

section \<open>The types\<close>

definition wt_message :: "MessageData \<Rightarrow> bool" where
  "wt_message m \<longleftrightarrow> length (MessageId m) = 16 \<and> length (OriginId m) = 32 \<and>
     HopLimit m \<noteq> 0 \<and> HopLimit m \<le> 20 \<and> Payload m \<noteq> None"

definition wt_envelope :: "MessageData codec \<Rightarrow> Envelope \<Rightarrow> bool" where
  "wt_envelope M env \<longleftrightarrow> length (env_PubKey env) = 32 \<and> length (env_Signature env) = SignatureSize \<and>
     (case unmarshal M (env_Data env) of Inl e \<Rightarrow> False | Inr m \<Rightarrow> wt_message m)"

section \<open>The life of an application\<close>

datatype 'c app_event =
    Process IngressPacket
  | UserSend "bytes result" bytes u64 "PeerID list" PeerPublicKey bytes
  | SwarmChange "'c swarm_op"

text \<open>
  A user's message comes with the outcome of drawing the nonce, the identifier \<^verbatim>\<open>uuid.New\<close> made,
  the time, the order in which the peers are visited, and the recipient, whose key is an array.
\<close>

fun wt_event :: "MessageData codec \<Rightarrow> 'c app_event \<Rightarrow> bool" where
  "wt_event M (Process p) = wt_envelope M (ip_Envelope p)"
| "wt_event M (UserSend rnd i now order to data) = (\<not> is_panic rnd \<and> length i = 16)"
| "wt_event M (SwarmChange x) = True"

definition node_app :: "('db, 'c) Node \<Rightarrow> ('db, 'c) app_state" where
  "node_app node = \<lparr>app_swarm = node_Swarm node, app_gossip = node_gossip node, inbox = [], outbox = []\<rparr>"

fun app_step ::
  "'db node_env \<Rightarrow> PeerStoreEntry codec \<Rightarrow> ('c \<Rightarrow> bytes) \<Rightarrow> ('db, 'c) Node \<Rightarrow> 'c app_event \<Rightarrow>
   ('db, 'c) app_state \<Rightarrow> panic option \<times> ('db, 'c) app_state" where
  "app_step N C r node (Process p) st = processPacket (ne_M N) (ne_E N) (node_Dispatcher node) p st"
| "app_step N C r node (UserSend rnd i now order to data) st =
     (case Messenger_Send (ne_K N) (ne_U N) (node_Messenger node) rnd i now order to data st of
        (Inl e, st) \<Rightarrow> (exn_panic e, st)
      | (Inr _, st) \<Rightarrow> (None, st))"
| "app_step N C r node (SwarmChange x) st =
     (None, st\<lparr>app_swarm := swarm_step (ne_S N) C r x (app_swarm st)\<rparr>)"

text \<open>A panic ends the process.\<close>

fun app_run ::
  "'db node_env \<Rightarrow> PeerStoreEntry codec \<Rightarrow> ('c \<Rightarrow> bytes) \<Rightarrow> ('db, 'c) Node \<Rightarrow> 'c app_event list \<Rightarrow>
   ('db, 'c) app_state \<Rightarrow> panic option \<times> ('db, 'c) app_state" where
  "app_run N C r node [] st = (None, st)"
| "app_run N C r node (e # es) st =
     (case app_step N C r node e st of
        (Some p, st) \<Rightarrow> (Some p, st)
      | (None, st) \<Rightarrow> app_run N C r node es st)"

text \<open>The type of the application's state.\<close>

definition wt_app :: "('db, 'c) Node \<Rightarrow> ('db, 'c) app_state \<Rightarrow> bool" where
  "wt_app node st \<longleftrightarrow> myPrivKey (app_swarm st) = node_PrivKey node \<and>
     (\<forall>x \<in> set (outbox st). send_type x = TypeChatMessage \<and> wt_message (send_msg x))"

section \<open>Lemmas\<close>

lemma swarm_step_key [simp]: "myPrivKey (swarm_step S C r x s) = myPrivKey s"
  by (cases x)
    (auto simp: swarm_step_def registration_step_def AddPeer_eq RemovePeer_def BanPeer_def UnBanPeer_def
      Swarm_SavePeer_def Let_def split: option.split sum.split prod.split)

lemma Encrypt_no_panic:
  assumes K: "kx_no_panic K" and "\<not> is_panic rnd" and "Encrypt K e p to rnd = Inl x"
  shows "exn_panic x = None"
  using assms(3) computeSharedKey_no_panic [OF K] kx_no_panicD [OF K] not_panicD [OF assms(2)]
  by (auto simp: Encrypt_def split: sum.splits)

lemma wt_envelope_authentic:
  "wt_envelope M env \<Longrightarrow> authentic M E env m \<Longrightarrow> wt_message m"
  by (simp add: wt_envelope_def authentic_def)

text \<open>Routing only ever adds to the inbox.\<close>

lemma Messenger_Handle_outbox:
  assumes "Messenger_Handle K svc m i st = (p, st')"
  shows "outbox st' = outbox st \<and> app_swarm st' = app_swarm st"
  using assms by (auto simp: Messenger_Handle_def Let_def split: option.splits Payload.splits sum.splits)

lemma node_route_outbox:
  assumes "route (register_services N pub svc (NewDispatcher n)) m i st = (p, st')"
  shows "outbox st' = outbox st \<and> app_swarm st' = app_swarm st"
  using assms Messenger_Handle_outbox [of "ne_K N" svc m i st p st']
  by (auto simp: route_def Let_def register_services_handlers Discovery_Handle_noop split: if_splits)

lemma process_typed:
  assumes "kx_no_panic (ne_K N)" and "codec_documented (ne_M N)" and "wt_envelope (ne_M N) (ip_Envelope p)"
    and "processPacket (ne_M N) (ne_E N) (register_services N pub svc (NewDispatcher n)) p st = (x, st')"
  shows "x = None \<and> outbox st' = outbox st \<and> app_swarm st' = app_swarm st"
proof (cases "\<exists>m. authentic (ne_M N) (ne_E N) (ip_Envelope p) m")
  case True
  then obtain m where m: "authentic (ne_M N) (ne_E N) (ip_Envelope p) m" by blast
  then have "length (OriginId m) = 32" using wt_envelope_authentic [OF assms(3)] by (simp add: wt_message_def)
  then show ?thesis
    using assms(4) processPacket_authentic [OF m, of "register_services N pub svc (NewDispatcher n)" st]
      node_route_no_panic [OF assms(1), of m pub svc n "ip_PeerID p" st] node_route_outbox [of N pub svc n m "ip_PeerID p" st x st']
    by simp
next
  case False
  with processPacket_ignored [OF assms(2) _ False, of "register_services N pub svc (NewDispatcher n)" st] assms(3,4)
  show ?thesis by (simp add: wt_envelope_def)
qed

text \<open>A message of the user: the broadcast of a chat message does not panic.\<close>

lemma Broadcast_chat:
  assumes "Broadcast U order s t (PackChatMessage i now c (PeerPrivateKeyToPublic k) to) g = (p, sends, m, g')"
    and "uuid_documented U"
  shows "p = None"
  using assms(1) uuid_FromBytes_no_panic [OF assms(2), of i]
  by (auto simp: Broadcast_def Let_def broadcast_loop_long is_panic_Inl split: sum.splits if_splits prod.splits)

lemma send_typed:
  assumes K: "kx_no_panic K" and U: "uuid_documented U" and "\<not> is_panic rnd" and "length i = 16"
    and "Messenger_Send K U svc rnd i now order to data st = (r, st')"
  shows "\<not> is_panic r \<and> app_swarm st' = app_swarm st \<and>
    (\<forall>x \<in> set (outbox st'). x \<in> set (outbox st) \<or> send_type x = TypeChatMessage \<and> wt_message (send_msg x))"
proof (cases r)
  case (Inr u)
  from assms(5)[unfolded Inr] show ?thesis
    by (rule Messenger_Send_sends) (use assms(4) Inr in \<open>auto simp: wt_message_def\<close>)
next
  case (Inl e)
  have "Encrypt K (cryptoEngine svc) data to rnd = Inl e \<and> st' = st"
  proof (cases "Encrypt K (cryptoEngine svc) data to rnd")
    case (Inr c)
    let ?m = "PackChatMessage i now c (PeerPrivateKeyToPublic (ms_myPrivKey svc)) to"
    obtain p sends m g where b: "Broadcast U order (app_swarm st) TypeChatMessage ?m (app_gossip st) = (p, sends, m, g)"
      by (metis prod_cases4)
    from Broadcast_chat [OF b U] have "p = None" .
    with b Inr assms(5) Inl show ?thesis by (simp add: Messenger_Send_def)
  qed (use assms(5) Inl in \<open>simp add: Messenger_Send_def\<close>)
  with Encrypt_no_panic [OF K assms(3)] Inl show ?thesis by (auto simp: is_panic_Inl)
qed

text \<open>Preservation and progress for one step, and for a run.\<close>

lemma app_step_typed:
  assumes "kx_no_panic (ne_K N)" and "codec_documented (ne_M N)" and "uuid_documented (ne_U N)"
    and "node_Dispatcher node = register_services N pub svc (NewDispatcher n)"
    and "wt_event (ne_M N) e" and "wt_app node st"
  shows "\<exists>st'. app_step N C r node e st = (None, st') \<and> wt_app node st'"
proof (cases e)
  case (Process p)
  obtain x st' where p: "processPacket (ne_M N) (ne_E N) (node_Dispatcher node) p st = (x, st')" by force
  with process_typed [OF assms(1,2), of p pub svc n st x st'] assms(4-6) Process
  show ?thesis by (simp add: wt_app_def)
next
  case (UserSend rnd i now order to data)
  obtain x st' where s: "Messenger_Send (ne_K N) (ne_U N) (node_Messenger node) rnd i now order to data st = (x, st')" by force
  with send_typed [OF assms(1,3) _ _ s] assms(5,6) UserSend
  show ?thesis by (cases x) (auto simp: wt_app_def is_panic_Inl)
next
  case (SwarmChange x)
  with assms(6) show ?thesis by (simp add: wt_app_def)
qed

lemma app_run_typed:
  assumes "kx_no_panic (ne_K N)" and "codec_documented (ne_M N)" and "uuid_documented (ne_U N)"
    and "node_Dispatcher node = register_services N pub svc (NewDispatcher n)"
  shows "\<forall>e \<in> set es. wt_event (ne_M N) e \<Longrightarrow> wt_app node st \<Longrightarrow>
    \<exists>st'. app_run N C r node es st = (None, st') \<and> wt_app node st'"
proof (induction es arbitrary: st)
  case (Cons e es)
  from Cons.prems app_step_typed [OF assms, of e st C r]
  obtain st' where "app_step N C r node e st = (None, st')" "wt_app node st'" by auto
  with Cons.IH [of st'] Cons.prems(1) show ?case by simp
qed simp

text \<open>What the swarm signs of a typed message is typed.\<close>

lemma signed_typed:
  assumes "codec_documented M" and "ed_documented E keypair" and "keypair (myPrivKey s)"
    and "wt_message m" and "signMessageData M E m s = Inr env"
  shows "wt_envelope M env"
proof -
  have "length (env_Signature env) = SignatureSize"
    using assms(2,3,5) by (auto simp: signMessageData_def CreateSignature_def ed_documented_def SignatureSize_def Let_def
        split: sum.splits if_splits)
  with signMessageData_authentic [OF assms(1-3,5)] assms(4) show ?thesis by (auto simp: wt_envelope_def authentic_def)
qed

section \<open>Properties\<close>

text \<open>
  C9. Honest nodes do not crash each other. In whatever order a started node processes well-typed
  packets, sends messages of its user and gains, loses, bans and saves peers, it does not panic,
  everything it has sent is a well-typed chat message, and what its swarm signs of that is a
  well-typed packet again. So in a network of such nodes every packet stays well-typed, and the
  panics of \<^verbatim>\<open>processPacket\<close> and of the chat handler are reached by packets from outside only.
\<close>

theorem honest_nodes_well_typed:
  assumes "kx_no_panic (ne_K N)" and "codec_documented (ne_M N)" and "uuid_documented (ne_U N)"
    and "ed_documented (ne_E N) keypair" and "keypair (node_PrivKey node)"
    and "Node_Start N password entropy salt nonce (Inr db) now udp listen = Inr node"
    and "\<forall>e \<in> set es. wt_event (ne_M N) e" and "app_run N C r node es (node_app node) = (p, st)"
  shows "p = None \<and>
    (\<forall>x \<in> set (outbox st). wt_message (send_msg x) \<and>
       (\<forall>env. signMessageData (ne_M N) (ne_E N) (send_msg x) (app_swarm st) = Inr env \<longrightarrow> wt_envelope (ne_M N) env))"
proof -
  obtain pub svc where d: "node_Dispatcher node = register_services N pub svc (NewDispatcher (ne_numCPU N))"
    and key: "myPrivKey (node_Swarm node) = node_PrivKey node"
    by (rule Node_StartE [OF assms(6)]) (auto simp: NewSwarm_def)
  from key have "wt_app node (node_app node)" by (simp add: wt_app_def node_app_def)
  from app_run_typed [OF assms(1-3) d assms(7) this, of C r] assms(8)
  have "p = None \<and> wt_app node st" by auto
  then have p: "p = None" and st: "wt_app node st" by simp_all
  then have "keypair (myPrivKey (app_swarm st))" using assms(5) by (simp add: wt_app_def)
  from signed_typed [OF assms(2,4) this] st p show ?thesis by (auto simp: wt_app_def)
qed

text \<open>The witness: the user of a node writes to itself, and the node processes a signed greeting.\<close>

definition demo_chat_msg :: MessageData where
  "demo_chat_msg = (PackChatMessage (replicate 16 3) 0 [] (PeerPrivateKeyToPublic (demo_key 5)) [])\<lparr>HopLimit := 19\<rparr>"

lemma demo_chat_msg_typed: "wt_message demo_chat_msg"
  by (simp add: wt_message_def demo_chat_msg_def)

theorem honest_nodes_well_typed_witness:
  "\<exists>(node :: (memdb, nat) Node) env st. Node_Start demo_node_env [1] (replicate 32 5) (Inr (replicate 16 6)) (replicate 24 7)
      (Inr []) (\<lambda>_. 0) demo_udp demo_listen = Inr node \<and>
    signMessageData msg_codec demo_ed demo_chat_msg (node_Swarm node) = Inr env \<and>
    app_run demo_node_env pse_codec (\<lambda>c. []) node
      [UserSend (Inr (replicate 12 9)) (replicate 16 3) 0 [] (PeerPrivateKeyToPublic (demo_key 5)) [104, 105],
       Process \<lparr>ip_Envelope = env, ip_PeerID = zero32\<rparr>, SwarmChange (SwBan zero32)] (node_app node) = (None, st)"
proof -
  obtain node :: "(memdb, nat) Node" where node: "Node_Start demo_node_env [1] (replicate 32 5) (Inr (replicate 16 6))
      (replicate 24 7) (Inr []) (\<lambda>_. 0) demo_udp demo_listen = Inr node" "node_PrivKey node = demo_key 5"
    using demo_node_starts by blast
  have key: "myPrivKey (node_Swarm node) = demo_key 5"
    by (rule Node_StartE [OF node(1)]) (use node(2) in \<open>simp add: NewSwarm_def\<close>)
  obtain b where "marshal msg_codec demo_chat_msg = Inr b" using codecs_total(6) by blast
  then obtain env where sgn: "signMessageData msg_codec demo_ed demo_chat_msg (node_Swarm node) = Inr env"
    using signature_verifies [OF demo_ed_documented demo_key_keypair, of b 5] by (auto simp: signMessageData_def key)
  have typed: "wt_envelope msg_codec env"
    by (rule signed_typed [OF msg_codec_documented demo_ed_documented _ demo_chat_msg_typed sgn]) (simp add: key)
  let ?es = "[UserSend (Inr (replicate 12 9)) (replicate 16 3) 0 [] (PeerPrivateKeyToPublic (demo_key 5)) [104, 105],
       Process \<lparr>ip_Envelope = env, ip_PeerID = zero32\<rparr>, SwarmChange (SwBan zero32)]"
  obtain p st where run: "app_run demo_node_env pse_codec (\<lambda>c. []) node ?es (node_app node) = (p, st)" by force
  have lib: "kx_no_panic (ne_K demo_node_env)" "codec_documented (ne_M demo_node_env)" "uuid_documented (ne_U demo_node_env)"
    "ed_documented (ne_E demo_node_env) demo_keypair" "demo_keypair (node_PrivKey node)" "ne_M demo_node_env = msg_codec"
    by (simp_all add: demo_node_env_def demo_kx_no_panic msg_codec_documented demo_uuid_documented demo_ed_documented node(2))
  have "\<forall>e \<in> set ?es. wt_event (ne_M demo_node_env) e" by (simp add: lib(6) typed)
  from honest_nodes_well_typed [OF lib(1-5) node(1) this run] have "p = None" by blast
  with node(1) sgn run show ?thesis by blast
qed

end
