(* ===== verification/Registration.thy ===== *)
theory Registration
  imports Swarm
begin

text \<open>
  How announced connections become peers: the goroutines of the transport that send on \<^verbatim>\<open>connChan\<close>
  (\<^verbatim>\<open>newConn\<close> in \<^verbatim>\<open>internal/network/quic.go\<close>), the channel of ten events, the goroutine of
  \<^verbatim>\<open>registrationLoop\<close> in \<^verbatim>\<open>internal/p2p/swarm.go\<close>, and the lock \<^verbatim>\<open>mu\<close> that it shares with the rest of
  the swarm, as a step relation. \<^verbatim>\<open>AddPeer\<close> takes the lock twice, so other goroutines run between its
  two critical sections; a refinement shows that this makes no difference to the swarm.

  The lock is a \<^verbatim>\<open>sync.RWMutex\<close>: a writer waits until no reader holds it, and while a writer waits
  no reader gets it. The registration loop is the only goroutine that calls \<^verbatim>\<open>AddPeer\<close>. A call of
  \<^verbatim>\<open>Lock\<close> belongs to the step before the critical section; the goroutine that \<^verbatim>\<open>StartLoops\<close> runs in
  starts at once. The goroutines that store the announced peers only write to the store and are not
  part of these runs. A ban, which writes to the store, looks the peer up under a read lock and closes
  it, is one step, and so is a search, which takes the read lock once for each saved peer.
\<close>

section \<open>The parts of \<^verbatim>\<open>AddPeer\<close>\<close>

definition AddPeer_close :: "PeerID \<Rightarrow> ('db, 'c) Swarm \<Rightarrow> ('db, 'c) Swarm" where
  "AddPeer_close peerID s = (case activePeers s peerID of None \<Rightarrow> s | Some old \<Rightarrow> close_at old s)"

definition AddPeer_create ::
  "('c \<Rightarrow> bytes) \<Rightarrow> 'c NewConnEvent \<Rightarrow> ('db, 'c) Swarm \<Rightarrow> 'c Peer \<times> ('db, 'c) Swarm" where
  "AddPeer_create remoteAddr ev s =
     (let p = NewPeer (ev_PeerPubKey ev) (ev_Addr ev) (ev_IsOut ev);
          pw = NewPeerWrapper (ev_Conn ev);
          s = s\<lparr>pending_saves := pending_saves s @ [(ev_PeerPubKey ev, p_addr p, 100)]\<rparr>;
          pw = OnData pw;
          pw = OnNewStream pw
      in (SetTransport remoteAddr pw p, s))"

definition AddPeer_insert :: "PeerID \<Rightarrow> 'c Peer \<Rightarrow> ('db, 'c) Swarm \<Rightarrow> nat \<times> ('db, 'c) Swarm" where
  "AddPeer_insert peerID p s =
     (let a = length (peer_heap s)
      in (a, s\<lparr>peer_heap := peer_heap s @ [p], activePeers := (activePeers s)(peerID \<mapsto> a)\<rparr>))"

text \<open>One after the other they are \<^verbatim>\<open>AddPeer\<close>.\<close>

lemma AddPeer_parts:
  "AddPeer r (ev_PeerPubKey ev) (ev_PeerID ev) (ev_Conn ev) (ev_Addr ev) (ev_IsOut ev) s =
    (let (p, s1) = AddPeer_create r ev (AddPeer_close (ev_PeerID ev) s) in AddPeer_insert (ev_PeerID ev) p s1)"
  by (simp add: AddPeer_def AddPeer_close_def AddPeer_create_def AddPeer_insert_def Let_def NewPeer_def)

section \<open>The goroutines and the lock\<close>

text \<open>
  Where the registration loop is: waiting for an event, waiting for the lock to close the old peer,
  between the critical sections, or waiting for the lock to insert the new peer.
\<close>

datatype 'c reg_phase =
    Idle
  | Closing "'c NewConnEvent"
  | Creating "'c NewConnEvent"
  | Inserting "'c NewConnEvent" "'c Peer"

fun lock_wanted :: "'c reg_phase \<Rightarrow> bool" where
  "lock_wanted (Closing ev) = True"
| "lock_wanted (Inserting ev p) = True"
| "lock_wanted _ = False"

text \<open>\<open>rg_waiting\<close> are the events whose goroutines are blocked in \<^verbatim>\<open>newConn\<close>.\<close>

record ('db, 'c) reg_state =
  rg_swarm :: "('db, 'c) Swarm"
  connChan :: "'c NewConnEvent list"
  rg_waiting :: "'c NewConnEvent list"
  rg_phase :: "'c reg_phase"

definition Transport_ConnChan :: "('db, 'c) reg_state \<Rightarrow> 'c NewConnEvent list" where
  "Transport_ConnChan w = connChan w"

text \<open>
  \<open>Lookup\<close> is any operation under a read lock (\<^verbatim>\<open>GetPeer\<close>, \<^verbatim>\<open>GetAllPeers\<close>, \<^verbatim>\<open>ThisIsActivePeer\<close>),
  \<open>Search\<close> the goroutine of \<^verbatim>\<open>findAndConnectToPeers\<close>.
\<close>

datatype 'c reg_event =
    Announce "'c NewConnEvent"
  | Enqueue nat
  | Receive
  | CloseOld
  | Create
  | Insert "'c NewConnEvent"
  | Lookup PeerID
  | Remove PeerID
  | Ban PeerID
  | Search

inductive reg_step ::
  "'db Storage \<Rightarrow> PeerStoreEntry codec \<Rightarrow> ('c \<Rightarrow> bytes) \<Rightarrow> ('db, 'c) reg_state \<Rightarrow> 'c reg_event \<Rightarrow>
   ('db, 'c) reg_state \<Rightarrow> bool" for S C r where
  announce: "reg_step S C r w (Announce ev) (w\<lparr>rg_waiting := rg_waiting w @ [ev]\<rparr>)"
| enqueue: "n < length (rg_waiting w) \<Longrightarrow> length (connChan w) < connChan_capacity \<Longrightarrow>
    reg_step S C r w (Enqueue n) (w\<lparr>connChan := connChan w @ [rg_waiting w ! n],
      rg_waiting := take n (rg_waiting w) @ drop (Suc n) (rg_waiting w)\<rparr>)"
| receive: "rg_phase w = Idle \<Longrightarrow> Transport_ConnChan w = ev # evs \<Longrightarrow>
    reg_step S C r w Receive (w\<lparr>rg_phase := Closing ev, connChan := evs\<rparr>)"
| close_old: "rg_phase w = Closing ev \<Longrightarrow> rlocks (rg_swarm w) = 0 \<Longrightarrow>
    reg_step S C r w CloseOld
      (w\<lparr>rg_swarm := AddPeer_close (ev_PeerID ev) (rg_swarm w), rg_phase := Creating ev\<rparr>)"
| create: "rg_phase w = Creating ev \<Longrightarrow> AddPeer_create r ev (rg_swarm w) = (p, s) \<Longrightarrow>
    reg_step S C r w Create (w\<lparr>rg_swarm := s, rg_phase := Inserting ev p\<rparr>)"
| insert: "rg_phase w = Inserting ev p \<Longrightarrow> rlocks (rg_swarm w) = 0 \<Longrightarrow>
    AddPeer_insert (ev_PeerID ev) p (rg_swarm w) = (a, s) \<Longrightarrow>
    reg_step S C r w (Insert ev) (w\<lparr>rg_swarm := start_loops_at a s, rg_phase := Idle\<rparr>)"
| lookup: "\<not> lock_wanted (rg_phase w) \<Longrightarrow> reg_step S C r w (Lookup i) w"
| remove: "rlocks (rg_swarm w) = 0 \<Longrightarrow>
    reg_step S C r w (Remove i) (w\<lparr>rg_swarm := RemovePeer i (rg_swarm w)\<rparr>)"
| ban: "\<not> lock_wanted (rg_phase w) \<Longrightarrow>
    reg_step S C r w (Ban i) (w\<lparr>rg_swarm := BanPeer S i (rg_swarm w)\<rparr>)"
| search: "\<not> lock_wanted (rg_phase w) \<Longrightarrow> findAndConnectToPeers S C (rg_swarm w) = Inr (dials, s') \<Longrightarrow>
    reg_step S C r w Search (w\<lparr>rg_swarm := s'\<rparr>)"

inductive reg_run ::
  "'db Storage \<Rightarrow> PeerStoreEntry codec \<Rightarrow> ('c \<Rightarrow> bytes) \<Rightarrow> ('db, 'c) reg_state \<Rightarrow> 'c reg_event list \<Rightarrow>
   ('db, 'c) reg_state \<Rightarrow> bool" for S C r where
  reg_nil: "reg_run S C r w [] w"
| reg_cons: "reg_step S C r w e w' \<Longrightarrow> reg_run S C r w' es w'' \<Longrightarrow> reg_run S C r w (e # es) w''"

inductive_cases reg_runE: "reg_run S C r w (e # es) w'"

definition announcements :: "'c reg_event list \<Rightarrow> nat" where
  "announcements es = length (filter (\<lambda>e. case e of Announce _ \<Rightarrow> True | _ \<Rightarrow> False) es)"

lemma reg_run_append: "reg_run S C r w es w' \<Longrightarrow> reg_run S C r w' es' w'' \<Longrightarrow> reg_run S C r w (es @ es') w''"
  by (induction rule: reg_run.induct) (auto intro: reg_run.intros)

lemma reg_one: "reg_step S C r w e w' \<Longrightarrow> reg_run S C r w [e] w'"
  by (auto intro: reg_run.intros)

lemma reg_run_split:
  "reg_run S C r w (es @ es') w'' \<Longrightarrow> \<exists>w'. reg_run S C r w es w' \<and> reg_run S C r w' es' w''"
proof (induction es arbitrary: w)
  case Nil
  then show ?case by (auto intro: reg_nil)
next
  case (Cons e es)
  from Cons.prems obtain v where v: "reg_step S C r w e v" "reg_run S C r v (es @ es') w''"
    by (auto elim: reg_runE)
  with Cons.IH [OF v(2)] show ?case by (blast intro: reg_cons)
qed

section \<open>The critical sections as one\<close>

text \<open>
  The swarm in a phase of the loop, when \<open>t\<close> is the swarm with the peers that have been inserted.
\<close>

fun in_phase :: "('c \<Rightarrow> bytes) \<Rightarrow> 'c reg_phase \<Rightarrow> ('db, 'c) Swarm \<Rightarrow> ('db, 'c) Swarm" where
  "in_phase r (Creating ev) t = AddPeer_close (ev_PeerID ev) t"
| "in_phase r (Inserting ev p) t = snd (AddPeer_create r ev (AddPeer_close (ev_PeerID ev) t))"
| "in_phase r _ t = t"

definition new_peer :: "('c \<Rightarrow> bytes) \<Rightarrow> 'c NewConnEvent \<Rightarrow> 'c Peer" where
  "new_peer r ev = SetTransport r (OnNewStream (OnData (NewPeerWrapper (ev_Conn ev))))
     (NewPeer (ev_PeerPubKey ev) (ev_Addr ev) (ev_IsOut ev))"

fun peer_created :: "('c \<Rightarrow> bytes) \<Rightarrow> 'c reg_phase \<Rightarrow> bool" where
  "peer_created r (Inserting ev p) = (p = new_peer r ev)"
| "peer_created r _ = True"

text \<open>The atomic operations that a history amounts to: a registration counts when the peer is inserted.\<close>

fun atomic_op :: "'c reg_event \<Rightarrow> 'c swarm_op list" where
  "atomic_op (Insert ev) = [SwConn ev]"
| "atomic_op (Remove i) = [SwRemove i]"
| "atomic_op (Ban i) = [SwBan i]"
| "atomic_op _ = []"

definition atomic_ops :: "'c reg_event list \<Rightarrow> 'c swarm_op list" where
  "atomic_ops es = concat (map atomic_op es)"

lemma AddPeer_close_active [simp]: "activePeers (AddPeer_close j t) = activePeers t"
  by (simp add: AddPeer_close_def split: option.split)

lemma AddPeer_create_snd:
  "snd (AddPeer_create r ev s) = s\<lparr>pending_saves := pending_saves s @ [(ev_PeerPubKey ev, ev_Addr ev, 100)]\<rparr>"
  by (simp add: AddPeer_create_def NewPeer_def Let_def)

lemma AddPeer_create_fst: "fst (AddPeer_create r ev s) = new_peer r ev"
  by (simp add: AddPeer_create_def new_peer_def Let_def)

lemma activePeers_in_phase [simp]: "activePeers (in_phase r ph t) = activePeers t"
  by (cases ph) (simp_all add: AddPeer_create_snd)

lemma close_at_commute: "close_at a (close_at b s) = close_at b (close_at a s)"
proof (cases "a = b")
  case False
  then show ?thesis by (simp add: close_at_def list_update_swap)
qed simp

lemma close_at_twice [simp]: "close_at a (close_at a s) = close_at a s"
  by (cases "a < length (peer_heap s)") (simp_all add: close_at_def Peer_Close_def list_update_beyond)

lemma close_at_updates:
  "close_at a (s\<lparr>activePeers := m\<rparr>) = (close_at a s)\<lparr>activePeers := m\<rparr>"
  "close_at a (s\<lparr>sw_db := d\<rparr>) = (close_at a s)\<lparr>sw_db := d\<rparr>"
  "close_at a (s\<lparr>pending_saves := ps\<rparr>) = (close_at a s)\<lparr>pending_saves := ps\<rparr>"
  "close_at a (s\<lparr>rlocks := n\<rparr>) = (close_at a s)\<lparr>rlocks := n\<rparr>"
  by (simp_all add: close_at_def)

lemmas reg_commute = AddPeer_close_def RemovePeer_def BanPeer_def Let_def close_at_updates

lemma RemovePeer_close: "RemovePeer i (AddPeer_close j t) = AddPeer_close j (RemovePeer i t)"
  by (auto simp: reg_commute close_at_commute split: option.splits)

lemma BanPeer_close: "BanPeer S i (AddPeer_close j t) = AddPeer_close j (BanPeer S i t)"
  by (auto simp: reg_commute close_at_commute split: option.splits)

lemma RemovePeer_updates:
  "RemovePeer i (t\<lparr>pending_saves := ps\<rparr>) = (RemovePeer i t)\<lparr>pending_saves := ps\<rparr>"
  "RemovePeer i (t\<lparr>rlocks := n\<rparr>) = (RemovePeer i t)\<lparr>rlocks := n\<rparr>"
  "pending_saves (RemovePeer i t) = pending_saves t" "rlocks (RemovePeer i t) = rlocks t"
  by (auto simp: reg_commute close_at_def split: option.split)

lemma BanPeer_updates:
  "BanPeer S i (t\<lparr>pending_saves := ps\<rparr>) = (BanPeer S i t)\<lparr>pending_saves := ps\<rparr>"
  "BanPeer S i (t\<lparr>rlocks := n\<rparr>) = (BanPeer S i t)\<lparr>rlocks := n\<rparr>"
  "pending_saves (BanPeer S i t) = pending_saves t" "rlocks (BanPeer S i t) = rlocks t"
  by (auto simp: reg_commute close_at_def split: option.split)

lemma AddPeer_close_updates:
  "AddPeer_close j (t\<lparr>rlocks := n\<rparr>) = (AddPeer_close j t)\<lparr>rlocks := n\<rparr>"
  "pending_saves (AddPeer_close j t) = pending_saves t" "rlocks (AddPeer_close j t) = rlocks t"
  by (auto simp: reg_commute close_at_def split: option.split)

lemma RemovePeer_in_phase: "RemovePeer i (in_phase r ph t) = in_phase r ph (RemovePeer i t)"
  by (cases ph) (simp_all add: AddPeer_create_snd RemovePeer_close RemovePeer_updates AddPeer_close_updates)

lemma BanPeer_in_phase: "BanPeer S i (in_phase r ph t) = in_phase r ph (BanPeer S i t)"
  by (cases ph) (simp_all add: AddPeer_create_snd BanPeer_close BanPeer_updates AddPeer_close_updates)

lemma registration_parts:
  "registration_step r ev t =
    (let (a, s) = AddPeer_insert (ev_PeerID ev) (new_peer r ev) (in_phase r (Inserting ev p) t) in start_loops_at a s)"
  using AddPeer_create_fst [of r ev "AddPeer_close (ev_PeerID ev) t"]
  by (simp add: registration_step_def AddPeer_parts Let_def case_prod_beta)

lemma registration_rlocks:
  "registration_step r ev (t\<lparr>rlocks := n\<rparr>) = (registration_step r ev t)\<lparr>rlocks := n\<rparr>"
  by (simp add: registration_step_def AddPeer_eq Let_def close_at_def start_loops_at_def split: option.split)

lemma registration_step_locks [simp]: "rlocks (registration_step r ev s) = rlocks s"
  by (simp add: registration_step_def AddPeer_eq Let_def close_at_def start_loops_at_def split: option.split)

lemma in_phase_rlocks: "(in_phase r ph t)\<lparr>rlocks := n\<rparr> = in_phase r ph (t\<lparr>rlocks := n\<rparr>)"
  by (cases ph) (simp_all add: AddPeer_create_snd AddPeer_close_updates)

lemma connect_loop_locks:
  "connect_loop ps ds s = (ds', s') \<Longrightarrow> s' = s\<lparr>rlocks := rlocks s'\<rparr>"
proof (induction ps arbitrary: ds s)
  case (Cons p ps)
  from Cons.prems show ?case by (auto simp: Let_def split: if_splits dest!: Cons.IH)
qed simp

lemma findAndConnect_only_locks:
  assumes "findAndConnectToPeers S C s = Inr (dials, s')"
  shows "s' = s\<lparr>rlocks := rlocks s'\<rparr>"
proof -
  from assms obtain ps where h: "GetHistoryConnected S C 0 s = Inr ps"
    by (auto simp: findAndConnectToPeers_def split: sum.splits)
  obtain ds s1 where l: "connect_loop ps [] s = (ds, s1)" by force
  then obtain m where "s1 = s\<lparr>rlocks := m\<rparr>" using connect_loop_locks by blast
  with l assms h show ?thesis
    by (auto simp: findAndConnectToPeers_def Let_def split: if_splits)
qed

lemma rlocks_in_phase [simp]: "rlocks (in_phase r ph t) = rlocks t"
  by (cases ph) (simp_all add: AddPeer_create_snd AddPeer_close_updates)

text \<open>The relation between the swarm and the one with atomic registrations, and its preservation.\<close>

definition reg_rel :: "('c \<Rightarrow> bytes) \<Rightarrow> ('db, 'c) reg_state \<Rightarrow> ('db, 'c) Swarm \<Rightarrow> bool" where
  "reg_rel r w t \<longleftrightarrow> peer_created r (rg_phase w) \<and>
     (\<exists>n. rg_swarm w = in_phase r (rg_phase w) (t\<lparr>rlocks := n\<rparr>))"

lemma reg_rel_step:
  assumes "reg_step S C r w e w'" and "reg_rel r w t"
  shows "reg_rel r w' (fold (swarm_step S C r) (atomic_op e) t)"
  using assms
proof (induction rule: reg_step.induct)
  case (insert w ev p a s)
  then obtain n where p: "p = new_peer r ev" and w: "rg_swarm w = in_phase r (Inserting ev p) (t\<lparr>rlocks := n\<rparr>)"
    by (auto simp: reg_rel_def)
  have "start_loops_at a s = registration_step r ev (t\<lparr>rlocks := n\<rparr>)"
    using insert(3) p unfolding w registration_parts [of r ev _ p] by simp
  then show ?case by (auto simp: reg_rel_def swarm_step_def registration_rlocks)
next
  case (remove w i)
  then obtain n where "rg_swarm w = in_phase r (rg_phase w) (t\<lparr>rlocks := n\<rparr>)" by (auto simp: reg_rel_def)
  then have "RemovePeer i (rg_swarm w) = in_phase r (rg_phase w) ((RemovePeer i t)\<lparr>rlocks := n\<rparr>)"
    by (simp add: RemovePeer_in_phase RemovePeer_updates)
  with remove show ?case by (auto simp: reg_rel_def swarm_step_def)
next
  case (ban w i)
  then obtain n where "rg_swarm w = in_phase r (rg_phase w) (t\<lparr>rlocks := n\<rparr>)" by (auto simp: reg_rel_def)
  then have "BanPeer S i (rg_swarm w) = in_phase r (rg_phase w) ((BanPeer S i t)\<lparr>rlocks := n\<rparr>)"
    by (simp add: BanPeer_in_phase BanPeer_updates)
  with ban show ?case by (auto simp: reg_rel_def swarm_step_def)
next
  case (search w dials s')
  obtain m where "s' = (rg_swarm w)\<lparr>rlocks := m\<rparr>" using findAndConnect_only_locks [OF search(2)] by blast
  with search(3) show ?case by (auto simp: reg_rel_def in_phase_rlocks)
next
  case (create w ev p s)
  then show ?case
    using AddPeer_create_fst [of r ev "rg_swarm w"] AddPeer_create_snd [of r ev "rg_swarm w"]
    by (auto simp: reg_rel_def AddPeer_create_snd)
qed (auto simp: reg_rel_def)

lemma reg_rel_run:
  "reg_run S C r w es w' \<Longrightarrow> reg_rel r w t \<Longrightarrow> reg_rel r w' (fold (swarm_step S C r) (atomic_ops es) t)"
proof (induction arbitrary: t rule: reg_run.induct)
  case (reg_nil w)
  then show ?case by (simp add: atomic_ops_def)
next
  case (reg_cons w e w' es w'')
  from reg_cons.IH [OF reg_rel_step [OF reg_cons(1,4)]] show ?case by (simp add: atomic_ops_def)
qed

section \<open>Progress\<close>

text \<open>
  The swarm when the loop has finished the registration it is in the middle of, and what it has not
  begun, in the order of the channel.
\<close>

definition insert_and_start :: "'c NewConnEvent \<Rightarrow> 'c Peer \<Rightarrow> ('db, 'c) Swarm \<Rightarrow> ('db, 'c) Swarm" where
  "insert_and_start ev p s = (let (a, s) = AddPeer_insert (ev_PeerID ev) p s in start_loops_at a s)"

definition create_and_insert :: "('c \<Rightarrow> bytes) \<Rightarrow> 'c NewConnEvent \<Rightarrow> ('db, 'c) Swarm \<Rightarrow> ('db, 'c) Swarm" where
  "create_and_insert r ev s = (let (p, s) = AddPeer_create r ev s in insert_and_start ev p s)"

fun finish_phase :: "('c \<Rightarrow> bytes) \<Rightarrow> 'c reg_phase \<Rightarrow> ('db, 'c) Swarm \<Rightarrow> ('db, 'c) Swarm" where
  "finish_phase r Idle s = s"
| "finish_phase r (Closing ev) s = create_and_insert r ev (AddPeer_close (ev_PeerID ev) s)"
| "finish_phase r (Creating ev) s = create_and_insert r ev s"
| "finish_phase r (Inserting ev p) s = insert_and_start ev p s"

definition pending_conns :: "('db, 'c) reg_state \<Rightarrow> 'c NewConnEvent list" where
  "pending_conns w = connChan w @ rg_waiting w"

lemma finish_closing: "finish_phase r (Closing ev) s = registration_step r ev s"
  by (simp add: registration_step_def AddPeer_parts create_and_insert_def insert_and_start_def Let_def case_prod_beta)

lemma finish_run:
  fixes w :: "('db, 'c) reg_state"
  assumes "rlocks (rg_swarm w) = 0"
  shows "\<exists>es. reg_run S C r w es (w\<lparr>rg_swarm := finish_phase r (rg_phase w) (rg_swarm w), rg_phase := Idle\<rparr>)"
proof -
  have ins: "\<exists>es. reg_run S C r w es (w\<lparr>rg_swarm := finish_phase r (rg_phase w) (rg_swarm w), rg_phase := Idle\<rparr>)"
    if "rg_phase w = Inserting ev p" "rlocks (rg_swarm w) = 0" for w :: "('db, 'c) reg_state" and ev p
  proof -
    obtain a s where "AddPeer_insert (ev_PeerID ev) p (rg_swarm w) = (a, s)" by force
    with reg_one [OF reg_step.insert [OF that this]] that show ?thesis
      by (intro exI [of _ "[Insert ev]"]) (simp add: insert_and_start_def)
  qed
  have cre: "\<exists>es. reg_run S C r w es (w\<lparr>rg_swarm := finish_phase r (rg_phase w) (rg_swarm w), rg_phase := Idle\<rparr>)"
    if w: "rg_phase w = Creating ev" "rlocks (rg_swarm w) = 0" for w :: "('db, 'c) reg_state" and ev
  proof -
    obtain p s where p: "AddPeer_create r ev (rg_swarm w) = (p, s)" by force
    with AddPeer_create_snd [of r ev "rg_swarm w"] w have "rlocks s = 0" by simp
    with ins [of "w\<lparr>rg_swarm := s, rg_phase := Inserting ev p\<rparr>"] p w show ?thesis
      by (auto simp: create_and_insert_def intro: reg_cons [OF reg_step.create [OF w(1) p]])
  qed
  show ?thesis
  proof (cases "rg_phase w")
    case Idle
    then have "w\<lparr>rg_swarm := finish_phase r (rg_phase w) (rg_swarm w), rg_phase := Idle\<rparr> = w"
      by (cases w) simp
    then show ?thesis using reg_nil [of S C r w] by metis
  next
    case (Closing ev)
    with cre [of "w\<lparr>rg_swarm := AddPeer_close (ev_PeerID ev) (rg_swarm w), rg_phase := Creating ev\<rparr>"] assms
    show ?thesis by (auto simp: AddPeer_close_updates intro: reg_cons [OF reg_step.close_old])
  qed (use ins cre assms in simp_all)
qed

lemma register_next:
  fixes w :: "('db, 'c) reg_state"
  assumes "rg_phase w = Idle" and "rlocks (rg_swarm w) = 0" and "pending_conns w = ev # evs"
  shows "\<exists>es w'. reg_run S C r w es w' \<and> rg_phase w' = Idle \<and> pending_conns w' = evs \<and>
    rg_swarm w' = registration_step r ev (rg_swarm w)"
proof -
  have received: "\<exists>es w'. reg_run S C r w es w' \<and> rg_phase w' = Idle \<and> pending_conns w' = pending_conns (w\<lparr>connChan := q\<rparr>) \<and>
      rg_swarm w' = registration_step r ev (rg_swarm w)"
    if w: "rg_phase w = Idle" "rlocks (rg_swarm w) = 0" "connChan w = ev # q" for w :: "('db, 'c) reg_state" and q
  proof -
    have "reg_step S C r w Receive (w\<lparr>rg_phase := Closing ev, connChan := q\<rparr>)"
      using w by (intro reg_step.receive) (simp_all add: Transport_ConnChan_def)
    moreover obtain es where "reg_run S C r (w\<lparr>rg_phase := Closing ev, connChan := q\<rparr>) es
        (w\<lparr>connChan := q, rg_swarm := registration_step r ev (rg_swarm w), rg_phase := Idle\<rparr>)"
      using finish_run [of "w\<lparr>rg_phase := Closing ev, connChan := q\<rparr>" S C r] w(2)
      by (auto simp: finish_closing simp del: finish_phase.simps)
    ultimately show ?thesis by (fastforce intro: reg_cons simp: pending_conns_def)
  qed
  show ?thesis
  proof (cases "connChan w")
    case (Cons x q)
    with assms received [of w q] show ?thesis by (simp add: pending_conns_def)
  next
    case Nil
    then have q: "rg_waiting w = ev # evs" using assms(3) by (simp add: pending_conns_def)
    let ?v = "w\<lparr>connChan := [ev], rg_waiting := evs\<rparr>"
    have step: "reg_step S C r w (Enqueue 0) ?v"
      using reg_step.enqueue [of 0 w] Nil q by (simp add: connChan_capacity_def)
    obtain es w' where "reg_run S C r ?v es w'" "rg_phase w' = Idle" "pending_conns w' = evs"
      "rg_swarm w' = registration_step r ev (rg_swarm w)"
      using received [of ?v "[]"] assms(1,2) by (auto simp: pending_conns_def)
    with step show ?thesis by (blast intro: reg_cons)
  qed
qed

lemma register_rest:
  "rg_phase w = Idle \<Longrightarrow> rlocks (rg_swarm w) = 0 \<Longrightarrow> pending_conns w = evs \<Longrightarrow>
    \<exists>es w'. reg_run S C r w es w' \<and> rg_phase w' = Idle \<and> pending_conns w' = [] \<and>
      rg_swarm w' = fold (registration_step r) evs (rg_swarm w)"
proof (induction evs arbitrary: w)
  case Nil
  then show ?case by (auto intro!: exI [of _ "[]"] exI [of _ w] simp: reg_nil)
next
  case (Cons ev evs)
  obtain es v where v: "reg_run S C r w es v" "rg_phase v = Idle" "pending_conns v = evs"
    "rg_swarm v = registration_step r ev (rg_swarm w)"
    using register_next [OF Cons.prems] by blast
  obtain es' w' where "reg_run S C r v es' w'" "rg_phase w' = Idle" "pending_conns w' = []"
    "rg_swarm w' = fold (registration_step r) evs (rg_swarm v)"
    using Cons.IH [of v] v Cons.prems(2) by auto
  with v show ?case by (auto intro!: exI [of _ "es @ es'"] exI [of _ w'] reg_run_append)
qed

lemma finish_phase_locks [simp]: "rlocks (finish_phase r ph s) = rlocks s"
  by (cases ph) (simp_all add: create_and_insert_def insert_and_start_def AddPeer_create_def AddPeer_insert_def
      start_loops_at_def AddPeer_close_updates Let_def)

section \<open>The lock that is kept\<close>

lemma findAndConnect_more_locks:
  assumes "findAndConnectToPeers S C s = Inr (dials, s')"
  shows "rlocks s \<le> rlocks s'"
  using findAndConnect_locks [OF assms] by (auto split: if_splits)

lemma findAndConnect_active:
  assumes "findAndConnectToPeers S C s = Inr (dials, s')"
  shows "activePeers s' = activePeers s" "peer_heap s' = peer_heap s"
  by (subst findAndConnect_only_locks [OF assms], simp)+

text \<open>
  The state after a leak: a read lock is held that nobody releases, and the peers are those of \<open>s0\<close>.
\<close>

definition leaked :: "('db, 'c) Swarm \<Rightarrow> ('db, 'c) reg_state \<Rightarrow> bool" where
  "leaked s0 w \<longleftrightarrow> 0 < rlocks (rg_swarm w) \<and> activePeers (rg_swarm w) = activePeers s0 \<and>
     length (peer_heap (rg_swarm w)) = length (peer_heap s0) \<and> length (connChan w) \<le> connChan_capacity"

text \<open>How many more events the channel and the loop can still take.\<close>

definition room :: "('db, 'c) reg_state \<Rightarrow> nat" where
  "room w = (if rg_phase w = Idle then Suc connChan_capacity else connChan_capacity) - length (connChan w)"

lemma BanPeer_same [simp]:
  "activePeers (BanPeer S i s) = activePeers s" "length (peer_heap (BanPeer S i s)) = length (peer_heap s)"
  by (auto simp: BanPeer_def Let_def split: option.split)

lemma AddPeer_create_same:
  assumes "AddPeer_create r ev s = (p, s')"
  shows "activePeers s' = activePeers s \<and> peer_heap s' = peer_heap s \<and> rlocks s' = rlocks s"
  using AddPeer_create_snd [of r ev s] assms by simp

lemma leaked_step:
  assumes "reg_step S C r w e w'" and "leaked s0 w"
  shows "leaked s0 w' \<and> length (rg_waiting w) + announcements [e] + room w' \<le> length (rg_waiting w') + room w"
  using assms
proof (induction rule: reg_step.induct)
  case (search w dials s')
  then show ?case
    using findAndConnect_active [OF search(2)] findAndConnect_more_locks [OF search(2)]
    by (auto simp: leaked_def room_def announcements_def)
next
  case (create w ev p s)
  then show ?case
    using AddPeer_create_same [OF create(2)] by (auto simp: leaked_def room_def announcements_def)
qed (auto simp: leaked_def room_def announcements_def Transport_ConnChan_def BanPeer_updates split: if_splits)

text \<open>Once the loop waits for the lock, so does everything else.\<close>

fun announcing :: "'c reg_event \<Rightarrow> bool" where
  "announcing (Announce ev) = True"
| "announcing (Enqueue n) = True"
| "announcing _ = False"

lemma waiting_step:
  assumes "reg_step S C r w e w'" and "0 < rlocks (rg_swarm w)" and "lock_wanted (rg_phase w)"
  shows "announcing e \<and> rg_phase w' = rg_phase w"
  using assms by (induction rule: reg_step.induct) auto

lemma leaked_run:
  "reg_run S C r w es w' \<Longrightarrow> leaked s0 w \<Longrightarrow>
    leaked s0 w' \<and> length (rg_waiting w) + announcements es + room w' \<le> length (rg_waiting w') + room w"
proof (induction rule: reg_run.induct)
  case (reg_cons w e w' es w'')
  have "announcements (e # es) = announcements [e] + announcements es" by (simp add: announcements_def)
  with leaked_step [OF reg_cons(1,4)] reg_cons(3) show ?case by auto
qed (simp add: announcements_def)

lemma waiting_run:
  "reg_run S C r w es w' \<Longrightarrow> leaked s0 w \<Longrightarrow> lock_wanted (rg_phase w) \<Longrightarrow> \<forall>e \<in> set es. announcing e"
proof (induction rule: reg_run.induct)
  case (reg_cons w e w' es w'')
  have "announcing e \<and> rg_phase w' = rg_phase w"
    using waiting_step [OF reg_cons(1)] reg_cons(4,5) by (simp add: leaked_def)
  with leaked_step [OF reg_cons(1,4)] reg_cons(3,5) show ?case by simp
qed simp

section \<open>Properties\<close>

text \<open>
  C17. Registrations are atomic: although \<^verbatim>\<open>AddPeer\<close> gives up the lock between closing the old
  connection and inserting the new peer, in every interleaving with lookups, removals, bans and
  searches the map of active peers is at every moment the one of a history in which registrations,
  removals and bans happen one after the other, each registration at the moment its peer is
  inserted; and whenever the loop is idle the whole swarm, up to the read locks that are held, is
  the swarm of that history.
\<close>

theorem registration_atomic:
  assumes "reg_run S C r w es w'" and "rg_phase w = Idle"
    and "t = fold (swarm_step S C r) (atomic_ops es) (rg_swarm w)"
  shows "activePeers (rg_swarm w') = activePeers t \<and>
    (rg_phase w' = Idle \<longrightarrow> rg_swarm w' = t\<lparr>rlocks := rlocks (rg_swarm w')\<rparr>)"
proof -
  have "rg_swarm w = (rg_swarm w)\<lparr>rlocks := rlocks (rg_swarm w)\<rparr>" by simp
  then have "reg_rel r w (rg_swarm w)" using assms(2) by (auto simp: reg_rel_def intro!: exI [of _ "rlocks (rg_swarm w)"])
  from reg_rel_run [OF assms(1) this] assms(3) show ?thesis by (auto simp: reg_rel_def)
qed

text \<open>
  C18. Announced connections are registered: as long as no read lock is kept, from every state, with
  any number of goroutines waiting to announce a connection and whatever the loop is doing, the loop
  can go on until every connection is registered, and the swarm is then the one that finishing the
  current registration and registering the others in the order of the channel gives.
\<close>

theorem registration_progress:
  assumes "rlocks (rg_swarm w) = 0"
  shows "\<exists>es w'. reg_run S C r w es w' \<and> rg_phase w' = Idle \<and> pending_conns w' = [] \<and>
    rg_swarm w' = fold (registration_step r) (pending_conns w) (finish_phase r (rg_phase w) (rg_swarm w))"
proof -
  let ?v = "w\<lparr>rg_swarm := finish_phase r (rg_phase w) (rg_swarm w), rg_phase := Idle\<rparr>"
  obtain es where es: "reg_run S C r w es ?v" using finish_run [OF assms] by blast
  obtain es' w' where "reg_run S C r ?v es' w'" "rg_phase w' = Idle" "pending_conns w' = []"
    "rg_swarm w' = fold (registration_step r) (pending_conns w) (rg_swarm ?v)"
    using register_rest [of ?v "pending_conns w" S C r] assms by (auto simp: pending_conns_def)
  with es show ?thesis by (auto intro!: exI [of _ "es @ es'"] exI [of _ w'] reg_run_append)
qed

text \<open>Two connections of the same peer that wait to be announced.\<close>

definition demo_waiting :: "(memdb, nat) reg_state" where
  "demo_waiting = \<lparr>rg_swarm = NewSwarm [] (demo_key 1) [] 1, connChan = [],
     rg_waiting = [demo_event 0, demo_event 1], rg_phase = Idle\<rparr>"

theorem registration_progress_witness:
  "\<exists>es w'. reg_run mem_storage pse_codec (\<lambda>c. []) demo_waiting es w' \<and> pending_conns w' = [] \<and> rg_swarm w' = demo_swarm"
proof -
  have "rlocks (rg_swarm demo_waiting) = 0" by (simp add: demo_waiting_def NewSwarm_def)
  from registration_progress [OF this, of mem_storage pse_codec "\<lambda>c. []"]
  show ?thesis by (auto simp: demo_waiting_def pending_conns_def demo_swarm_def swarm_step_def)
qed

text \<open>A removal of the peer between the two critical sections of its second registration.\<close>

theorem registration_atomic_witness:
  "\<exists>w'. reg_run mem_storage pse_codec (\<lambda>c. [])
       \<lparr>rg_swarm = demo_swarm, connChan = [demo_event 2], rg_waiting = [], rg_phase = Idle\<rparr>
       [Receive, CloseOld, Remove (sha256 [1]), Create] w' \<and> activePeers (rg_swarm w') = Map.empty"
proof -
  let ?ev = "demo_event 2" and ?R = "reg_step mem_storage pse_codec (\<lambda>c :: nat. [])"
  let ?w = "\<lparr>rg_swarm = demo_swarm, connChan = [?ev], rg_waiting = [], rg_phase = Idle\<rparr>"
  let ?v1 = "?w\<lparr>rg_phase := Closing ?ev, connChan := []\<rparr>"
  let ?v2 = "?v1\<lparr>rg_swarm := AddPeer_close (ev_PeerID ?ev) (rg_swarm ?v1), rg_phase := Creating ?ev\<rparr>"
  let ?v3 = "?v2\<lparr>rg_swarm := RemovePeer (sha256 [1]) (rg_swarm ?v2)\<rparr>"
  obtain p s where p: "AddPeer_create (\<lambda>c. []) ?ev (rg_swarm ?v3) = (p, s)" by force
  let ?v4 = "?v3\<lparr>rg_swarm := s, rg_phase := Inserting ?ev p\<rparr>"
  have 1: "?R ?w Receive ?v1" by (rule reg_step.receive) (simp_all add: Transport_ConnChan_def)
  have 2: "?R ?v1 CloseOld ?v2" by (rule reg_step.close_old) (simp_all add: demo_swarm_eq)
  have 3: "?R ?v2 (Remove (sha256 [1])) ?v3"
    by (rule reg_step.remove) (simp add: demo_swarm_eq AddPeer_close_updates)
  have 4: "?R ?v3 Create ?v4" by (rule reg_step.create [OF _ p]) simp
  have run: "reg_run mem_storage pse_codec (\<lambda>c. []) ?w [Receive, CloseOld, Remove (sha256 [1]), Create] ?v4"
    by (rule reg_cons [OF 1 reg_cons [OF 2 reg_cons [OF 3 reg_cons [OF 4 reg_nil]]]])
  have "activePeers (rg_swarm ?v4) = Map.empty"
    using registration_atomic [OF run _ refl]
    by (simp add: atomic_ops_def swarm_step_def RemovePeer_def demo_swarm_eq)
  with run show ?thesis by blast
qed

text \<open>
  C19. A search for peers above the limit of connections stops the swarm: it keeps a read lock, and
  in whatever way the goroutines go on, no peer is ever registered or removed again. Of the
  connections that are announced afterwards at most eleven leave their goroutines, ten into the
  channel and one into the registration loop, and once an idle loop has received one, because it
  waits for the lock no lookup, removal, ban or search happens any more. Without a connection too
  many, the search leaves the swarm as it was. (Nothing in the program calls the search yet.)
\<close>

theorem search_stops_registration:
  assumes "findAndConnectToPeers S C (rg_swarm w0) = Inr (dials, s)" and "length (connChan w0) \<le> connChan_capacity"
    and "reg_run S C r (w0\<lparr>rg_swarm := s\<rparr>) es w"
  shows "if MaxConnections (rg_swarm w0) < int (card (dom (activePeers (rg_swarm w0))))
    then activePeers (rg_swarm w) = activePeers (rg_swarm w0) \<and>
      length (peer_heap (rg_swarm w)) = length (peer_heap (rg_swarm w0)) \<and>
      length (rg_waiting w0) + announcements es \<le> length (rg_waiting w) + 11 \<and>
      (\<forall>es1 es2. es = es1 @ Receive # es2 \<longrightarrow> (\<forall>e \<in> set es2. announcing e))
    else s = rg_swarm w0"
proof (cases "MaxConnections (rg_swarm w0) < int (card (dom (activePeers (rg_swarm w0))))")
  case True
  let ?w = "w0\<lparr>rg_swarm := s\<rparr>"
  have leak: "leaked (rg_swarm w0) ?w"
    using findAndConnect_locks [OF assms(1)] findAndConnect_active [OF assms(1)] assms(2) True by (simp add: leaked_def)
  have "room ?w \<le> 11" by (auto simp: room_def connChan_capacity_def)
  moreover have "\<forall>e \<in> set es2. announcing e" if es: "es = es1 @ Receive # es2" for es1 es2
  proof -
    obtain u v where u: "reg_run S C r ?w es1 u" "reg_step S C r u Receive v" "reg_run S C r v es2 w"
      using reg_run_split [OF assms(3) [unfolded es]] by (auto elim: reg_runE)
    have "leaked (rg_swarm w0) v" using leaked_step [OF u(2)] leaked_run [OF u(1) leak] by simp
    moreover have "lock_wanted (rg_phase v)" using u(2) by (cases rule: reg_step.cases) auto
    ultimately show ?thesis by (rule waiting_run [OF u(3)])
  qed
  ultimately show ?thesis using leaked_run [OF assms(3) leak] True by (auto simp: leaked_def)
next
  case False
  then show ?thesis using findAndConnect_locks [OF assms(1)] by simp
qed

theorem search_stops_registration_witness:
  "\<exists>s w. findAndConnectToPeers mem_storage pse_codec (demo_swarm\<lparr>MaxConnections := 0\<rparr>) = Inr ([], s) \<and>
     reg_run mem_storage pse_codec (\<lambda>c. [])
       \<lparr>rg_swarm = s, connChan = [], rg_waiting = replicate 20 (demo_event 2), rg_phase = Idle\<rparr>
       [Enqueue 0, Receive, Announce (demo_event 3)] w \<and>
     activePeers (rg_swarm w) = [sha256 [1] \<mapsto> 1] \<and> 10 \<le> length (rg_waiting w)"
proof -
  obtain s where s: "findAndConnectToPeers mem_storage pse_codec (demo_swarm\<lparr>MaxConnections := 0\<rparr>) = Inr ([], s)"
    using demo_search by blast
  let ?R = "reg_step mem_storage pse_codec (\<lambda>c :: nat. [])"
  let ?start = "\<lparr>rg_swarm = demo_swarm\<lparr>MaxConnections := 0\<rparr>, connChan = [],
    rg_waiting = replicate 20 (demo_event 2), rg_phase = Idle\<rparr>"
  let ?v0 = "?start\<lparr>rg_swarm := s\<rparr>"
  let ?v1 = "?v0\<lparr>connChan := [demo_event 2], rg_waiting := replicate 19 (demo_event 2)\<rparr>"
  let ?v2 = "?v1\<lparr>rg_phase := Closing (demo_event 2), connChan := []\<rparr>"
  let ?v3 = "?v2\<lparr>rg_waiting := rg_waiting ?v2 @ [demo_event 3]\<rparr>"
  have 1: "?R ?v0 (Enqueue 0) ?v1"
    using reg_step.enqueue [of 0 ?v0] by (simp add: connChan_capacity_def)
  have 2: "?R ?v1 Receive ?v2" by (rule reg_step.receive) (simp_all add: Transport_ConnChan_def)
  have 3: "?R ?v2 (Announce (demo_event 3)) ?v3" by (rule reg_step.announce)
  have run: "reg_run mem_storage pse_codec (\<lambda>c. []) ?v0 [Enqueue 0, Receive, Announce (demo_event 3)] ?v3"
    by (rule reg_cons [OF 1 reg_cons [OF 2 reg_cons [OF 3 reg_nil]]])
  have "findAndConnectToPeers mem_storage pse_codec (rg_swarm ?start) = Inr ([], s)" using s by simp
  from search_stops_registration [OF this _ run]
  have "activePeers s = [sha256 [1] \<mapsto> 1]" by (simp add: demo_swarm_eq)
  with s run show ?thesis by (intro exI [of _ s] exI [of _ ?v3]) simp
qed

end
