(* ===== verification/Dht_Spec.thy ===== *)
theory Dht_Spec
  imports Dht
begin

text \<open>
  What the distributed hash table of \<^verbatim>\<open>internal/p2p/dht\<close> promises its clients, as a state machine
  over a table of peers and a map of files, and that the code on its key-value store implements it:
  every history of calls is, with all its results, a run of that machine.
\<close>

section \<open>Calls and their results\<close>

datatype dht_call =
    CallSavePeer PeerID bytes bytes u64 u32
  | CallSaveFile bytes
  | CallGetNearPeers PeerID
  | CallGetFileChunk bytes

datatype dht_result =
    ResSavePeer "unit result"
  | ResSaveFile "bytes option result"
  | ResGetNearPeers "dht_PeerStoreEntry list result"
  | ResGetFileChunk "bytes result"

fun dht_exec ::
  "'db Storage \<Rightarrow> KBucket codec \<Rightarrow> MerkleNode codec \<Rightarrow> (bytes \<Rightarrow> MerkleNode) \<Rightarrow> DHT \<Rightarrow> dht_call \<Rightarrow> 'db \<Rightarrow>
   dht_result \<times> 'db" where
  "dht_exec S CB CN lo d (CallSavePeer i k a l t) db = map_prod ResSavePeer id (SavePeer S CB d i k a l t db)"
| "dht_exec S CB CN lo d (CallSaveFile file) db = map_prod ResSaveFile id (SaveFile S CN file db)"
| "dht_exec S CB CN lo d (CallGetNearPeers i) db = (ResGetNearPeers (GetNearPeers S CB d i db), db)"
| "dht_exec S CB CN lo d (CallGetFileChunk h) db = (ResGetFileChunk (GetFileChunk S CN lo h db), db)"

fun dht_execs ::
  "'db Storage \<Rightarrow> KBucket codec \<Rightarrow> MerkleNode codec \<Rightarrow> (bytes \<Rightarrow> MerkleNode) \<Rightarrow> DHT \<Rightarrow> dht_call list \<Rightarrow> 'db \<Rightarrow>
   dht_result list \<times> 'db" where
  "dht_execs S CB CN lo d [] db = ([], db)"
| "dht_execs S CB CN lo d (x # xs) db =
     (let (r, db1) = dht_exec S CB CN lo d x db; (rs, db2) = dht_execs S CB CN lo d xs db1
      in (r # rs, db2))"

text \<open>Identifiers are arrays of 32 bytes, and the length of a slice is an \<^verbatim>\<open>int\<close>.\<close>

fun call_wf :: "dht_call \<Rightarrow> bool" where
  "call_wf (CallSavePeer i k a l t) = (length i = 32)"
| "call_wf (CallSaveFile file) = (length file < 2 ^ 63)"
| "call_wf (CallGetNearPeers i) = (length i = 32)"
| "call_wf (CallGetFileChunk h) = True"

fun call_files :: "dht_call \<Rightarrow> bytes set" where
  "call_files (CallSaveFile file) = {file}"
| "call_files _ = {}"

section \<open>The specification\<close>

text \<open>
  \<open>sp_table\<close> has the peers of each bucket, \<open>None\<close> for a bucket that was never saved to; \<open>sp_files\<close>
  has what was saved under each key that \<^verbatim>\<open>SaveFile\<close> returned.
\<close>

record dht_spec =
  sp_table :: "nat \<Rightarrow> dht_PeerStoreEntry list option"
  sp_files :: "bytes \<rightharpoonup> bytes"

definition spec_peers :: "dht_spec \<Rightarrow> nat \<Rightarrow> dht_PeerStoreEntry list" where
  "spec_peers \<sigma> b = (case sp_table \<sigma> b of None \<Rightarrow> [] | Some ps \<Rightarrow> ps)"

text \<open>
  A save of a peer appends to its bucket, or fails because the bucket has 20 peers, or fails for
  some other reason while there is room; in both failures nothing changes. The store decides which
  saves fail and whether a file is taken for known; what a key gives under which no file was saved
  is left open.
\<close>

inductive spec_step :: "PeerID \<Rightarrow> dht_spec \<Rightarrow> dht_call \<Rightarrow> dht_result \<Rightarrow> dht_spec \<Rightarrow> bool" for my where
  peer_saved: "b = getBucketIndex my i \<Longrightarrow> length (spec_peers \<sigma> b) < 20 \<Longrightarrow>
    spec_step my \<sigma> (CallSavePeer i k a l t) (ResSavePeer (Inr ()))
      (\<sigma>\<lparr>sp_table := (sp_table \<sigma>)(b \<mapsto> spec_peers \<sigma> b @ [\<lparr>dpe_PubKey = k, dpe_HashId = i,
        dpe_LastKnownAddr = a, dpe_LastSeen = l, dpe_TrustScore = t\<rparr>])\<rparr>)"
| peer_refused: "length (spec_peers \<sigma> (getBucketIndex my i)) = 20 \<Longrightarrow>
    spec_step my \<sigma> (CallSavePeer i k a l t) (ResSavePeer (Inl (Err (ErrNew ''bucket cap'')))) \<sigma>"
| peer_failed: "length (spec_peers \<sigma> (getBucketIndex my i)) < 20 \<Longrightarrow>
    spec_step my \<sigma> (CallSavePeer i k a l t) (ResSavePeer (Inl (Err e))) \<sigma>"
| file_saved:
    "spec_step my \<sigma> (CallSaveFile file) (ResSaveFile (Inr (Some key))) (\<sigma>\<lparr>sp_files := (sp_files \<sigma>)(key \<mapsto> file)\<rparr>)"
| file_known: "spec_step my \<sigma> (CallSaveFile file) (ResSaveFile (Inr None)) \<sigma>"
| file_failed: "spec_step my \<sigma> (CallSaveFile file) (ResSaveFile (Inl (Err e))) \<sigma>"
| near: "spec_step my \<sigma> (CallGetNearPeers i) (ResGetNearPeers
    (case sp_table \<sigma> (getBucketIndex my i) of None \<Rightarrow> Inl (Err ErrKeyNotFound) | Some ps \<Rightarrow> Inr ps)) \<sigma>"
| file_read: "sp_files \<sigma> h = Some file \<Longrightarrow>
    spec_step my \<sigma> (CallGetFileChunk h) (ResGetFileChunk (Inr file)) \<sigma>"
| file_other: "sp_files \<sigma> h = None \<Longrightarrow> spec_step my \<sigma> (CallGetFileChunk h) (ResGetFileChunk r) \<sigma>"

inductive spec_run :: "PeerID \<Rightarrow> dht_spec \<Rightarrow> dht_call list \<Rightarrow> dht_result list \<Rightarrow> dht_spec \<Rightarrow> bool" for my where
  spec_nil: "spec_run my \<sigma> [] [] \<sigma>"
| spec_cons: "spec_step my \<sigma> x r \<sigma>1 \<Longrightarrow> spec_run my \<sigma>1 xs rs \<sigma>2 \<Longrightarrow> spec_run my \<sigma> (x # xs) (r # rs) \<sigma>2"

section \<open>The simulation\<close>

text \<open>The table that a store represents.\<close>

definition table_of :: "('db \<Rightarrow> bytes \<rightharpoonup> bytes) \<Rightarrow> KBucket codec \<Rightarrow> 'db \<Rightarrow> nat \<Rightarrow> dht_PeerStoreEntry list option" where
  "table_of view C db b =
     (if view db (intToKey routing_prefix (int b)) = None then None else bucket_of view C (int b) db)"

definition represents ::
  "bytes set \<Rightarrow> ('db \<Rightarrow> bytes \<rightharpoonup> bytes) \<Rightarrow> KBucket codec \<Rightarrow> MerkleNode codec \<Rightarrow> 'db \<Rightarrow> dht_spec \<Rightarrow> bool" where
  "represents N view CB CN db \<sigma> \<longleftrightarrow>
     buckets_bounded view CB db \<and> (\<forall>b < 256. sp_table \<sigma> b = table_of view CB db b) \<and>
     (\<forall>h f. sp_files \<sigma> h = Some f \<longrightarrow>
        length f < 2 ^ 63 \<and> node_encodings CN f \<subseteq> N \<and> stored CN (view db) h f)"

lemma table_of_cong:
  "view db' (intToKey routing_prefix (int b)) = view db (intToKey routing_prefix (int b)) \<Longrightarrow>
    table_of view C db' b = table_of view C db b"
  by (simp add: table_of_def bucket_of_def)

lemma spec_peers_bucket:
  assumes "represents N view CB CN db \<sigma>" and "b < 256"
  shows "bucket_of view CB (int b) db = Some (spec_peers \<sigma> b) \<and> length (spec_peers \<sigma> b) \<le> 20"
proof -
  have "int b \<in> {0..<256}" using assms(2) by simp
  then obtain ps where ps: "bucket_of view CB (int b) db = Some ps" "length ps \<le> MaxBucketSize"
    using assms(1) unfolding represents_def buckets_bounded_def by blast
  moreover have "sp_table \<sigma> b = table_of view CB db b" using assms by (simp add: represents_def)
  ultimately show ?thesis
    by (auto simp: spec_peers_def table_of_def bucket_of_def MaxBucketSize_def split: option.splits)
qed

lemma stored_keeps: "stored C m h f \<Longrightarrow> saved m' (node_encodings C f) \<Longrightarrow> stored C m' h f"
  by (simp add: stored_def)

lemma stored_saved: "stored C m h f \<Longrightarrow> saved m (node_encodings C f)"
  by (simp add: stored_def)

lemma saved_elsewhere:
  "saved m B \<Longrightarrow> (\<And>h. m' (dag_key h) = m (dag_key h)) \<Longrightarrow> saved m' B"
  by (simp add: saved_def)

lemma routing_key_ne_dag [simp]: "dag_key h \<noteq> intToKey routing_prefix i"
  by (metis dag_key_def prefixI routing_key_not_dag)

context kv_storage
begin

text \<open>A save of a file fails with an error, it does not panic.\<close>

lemma chunk_loop_error:
  assumes C: "codec_documented C"
  shows "ok db \<Longrightarrow> chunk_loop S C data i keys db = (Inl e, db') \<Longrightarrow> \<exists>x. e = Err x"
proof (induction data i arbitrary: keys db rule: pieces.induct)
  case (1 data i)
  show ?case
  proof (cases "i < length data")
    case False
    then show ?thesis using "1.prems" by (simp add: chunk_loop.simps)
  next
    case True
    let ?p = "take ChunkSize (drop i data)"
    show ?thesis
    proof (cases "marshal C (chunk_node ?p)")
      case (Inl x)
      then show ?thesis
        using "1.prems"(2) True codec_no_panic(1) [OF C, of "chunk_node ?p"]
        by (cases x) (auto simp: chunk_loop_step Let_def)
    next
      case (Inr b)
      obtain r1 db1 where save: "saveAndHashData S b db = (r1, db1)" by force
      show ?thesis
      proof (cases r1)
        case (Inl y)
        then show ?thesis
          using "1.prems" True Inr save saveAndHashData_failed [of db b y db1]
          by (simp add: chunk_loop_step Let_def)
      next
        case Inr2: (Inr key)
        have "ok db1" using saveAndHashData_done [OF "1.prems"(1) save [unfolded Inr2]] by simp
        moreover have "chunk_loop S C data (i + ChunkSize) (keys @ [key]) db1 = (Inl e, db')"
          using "1.prems"(2) True Inr save Inr2 by (simp add: chunk_loop_step Let_def)
        ultimately show ?thesis by (rule "1.IH" [OF True])
      qed
    qed
  qed
qed

lemma store_root_error:
  assumes C: "codec_documented C" and ok: "ok db"
    and "(case marshal C n of Inl e \<Rightarrow> (Inl e, db) | Inr b \<Rightarrow> saveAndHashData S b db) = (Inl e, db')"
  shows "\<exists>x. e = Err x"
  using assms codec_no_panic(1) [OF C, of n] saveAndHashData_failed [OF ok]
  by (cases e) (auto split: sum.splits)

lemma SaveFile_error:
  assumes C: "codec_documented C" and ok: "ok db" and sv: "SaveFile S C data db = (Inl e, db')"
  shows "\<exists>x. e = Err x"
proof -
  have calc: "calculateFileChunk S C data db = (Inl e, db')"
    using sv by (auto simp: SaveFile_def split: if_splits sum.splits prod.splits)
  show ?thesis
  proof (cases "length data \<le> ChunkSize")
    case True
    with calc show ?thesis
      by (intro store_root_error [OF C ok]) (simp add: calculateFileChunk_def createMetaLink_def)
  next
    case False
    obtain r1 db1 where loop: "chunk_loop S C data 0 [] db = (r1, db1)" by force
    show ?thesis
    proof (cases r1)
      case (Inl x)
      with calc False loop chunk_loop_error [OF C ok] show ?thesis by (auto simp: calculateFileChunk_def)
    next
      case (Inr ks)
      have "ok db1" using chunk_loop_elsewhere [OF ok loop] by simp
      with calc False loop Inr show ?thesis
        by (intro store_root_error [OF C]) (auto simp: calculateFileChunk_def createMetaLink_def)
    qed
  qed
qed

lemma represents_save_peer:
  assumes CB: "codec_documented CB" and my: "length my = 32" "dht_myID d = my" and i: "length i = 32"
    and rep: "represents N view CB CN db \<sigma>" and ok: "ok db"
    and sv: "SavePeer S CB d i k a l t db = (r, db')"
  shows "\<exists>\<sigma>'. spec_step my \<sigma> (CallSavePeer i k a l t) (ResSavePeer r) \<sigma>' \<and> represents N view CB CN db' \<sigma>' \<and> ok db'"
proof -
  let ?b = "getBucketIndex my i"
  let ?p = "\<lparr>dpe_PubKey = k, dpe_HashId = i, dpe_LastKnownAddr = a, dpe_LastSeen = l, dpe_TrustScore = t\<rparr>"
  have b: "?b < 256" "int ?b \<in> {0..<256}" using getBucketIndex_range [OF my(1) i] by simp_all
  have save: "saveInKBucket S CB (int ?b) ?p db = (r, db')" using sv my by (simp add: SavePeer_def Let_def)
  have bucket: "bucket_of view CB (int ?b) db = Some (spec_peers \<sigma> ?b)" "length (spec_peers \<sigma> ?b) \<le> 20"
    using spec_peers_bucket [OF rep b(1)] by simp_all
  have bounded: "buckets_bounded view CB db'"
    using saveInKBucket_bounded [OF CB ok b(2) _ save] rep by (simp add: represents_def)
  show ?thesis
  proof (cases r)
    case (Inr u)
    then obtain room: "length (spec_peers \<sigma> ?b) < 20"
      and new: "bucket_of view CB (int ?b) db' = Some (spec_peers \<sigma> ?b @ [?p])" and ok': "ok db'"
      and frame: "\<And>k. k \<noteq> intToKey routing_prefix (int ?b) \<Longrightarrow> view db' k = view db k"
      using saveInKBucket_done [OF CB ok] save bucket(1) by (fastforce simp: MaxBucketSize_def)
    let ?s = "\<sigma>\<lparr>sp_table := (sp_table \<sigma>)(?b \<mapsto> spec_peers \<sigma> ?b @ [?p])\<rparr>"
    have "table_of view CB db' ?b = Some (spec_peers \<sigma> ?b @ [?p])"
      using new by (auto simp: table_of_def bucket_of_def split: option.splits)
    moreover have "table_of view CB db' j = table_of view CB db j" if "j < 256" "j \<noteq> ?b" for j
      using that b by (intro table_of_cong frame) (simp add: intToKey_inject)
    moreover have "stored CN (view db') h f" if "stored CN (view db) h f" for h f
      using that by (rule stored_keeps) (rule saved_elsewhere [OF stored_saved [OF that]], simp add: frame)
    ultimately have "represents N view CB CN db' ?s"
      using rep bounded by (simp add: represents_def)
    with Inr ok' room show ?thesis by (auto intro: peer_saved)
  next
    case (Inl e)
    then obtain x where x: "view db' = view db" "ok db'" "e = Err x"
      using saveInKBucket_failed [OF CB ok] save by blast
    have "represents N view CB CN db' \<sigma>"
      using rep bounded x(1) by (simp add: represents_def table_of_def bucket_of_def)
    moreover have "spec_step my \<sigma> (CallSavePeer i k a l t) (ResSavePeer r) \<sigma>"
    proof (cases "length (spec_peers \<sigma> ?b) < 20")
      case True
      with Inl x(3) show ?thesis by (simp add: peer_failed)
    next
      case False
      then have "r = Inl (Err (ErrNew ''bucket cap''))"
        using saveInKBucket_full [OF ok bucket(1)] save by (simp add: MaxBucketSize_def)
      with False bucket(2) show ?thesis by (simp add: peer_refused)
    qed
    ultimately show ?thesis using x(2) by blast
  qed
qed

lemma represents_save_file:
  assumes CN: "codec_documented CN" and inj: "inj_on sha256 N" and N: "node_encodings CN file \<subseteq> N"
    and len: "length file < 2 ^ 63" and rep: "represents N view CB CN db \<sigma>" and ok: "ok db"
    and sv: "SaveFile S CN file db = (r, db')"
  shows "\<exists>\<sigma>'. spec_step my \<sigma> (CallSaveFile file) (ResSaveFile r) \<sigma>' \<and> represents N view CB CN db' \<sigma>' \<and> ok db'"
proof -
  have el: "ok db'" "same_elsewhere (view db) (view db')" using SaveFile_elsewhere [OF ok sv] by simp_all
  have keeps: "saved (view db') (node_encodings CN f)"
    if "node_encodings CN f \<subseteq> N" "saved (view db) (node_encodings CN f)" for f
  proof (cases "hashExists S (sha256 file) db")
    case True
    with sv that show ?thesis by (simp add: SaveFile_def)
  next
    case False
    obtain r1 where "calculateFileChunk S CN file db = (r1, db')"
      using sv False by (auto simp: SaveFile_def split: sum.splits prod.splits)
    from calculateFileChunk_keeps [OF inj N that(1) ok that(2) this] show ?thesis by simp
  qed
  have table: "table_of view CB db' b = table_of view CB db b" for b
    using el(2) by (intro table_of_cong) (simp add: same_elsewhere_def)
  have rep': "represents N view CB CN db' \<sigma>"
    using rep table buckets_bounded_elsewhere [OF el(2)] keeps
    by (auto simp: represents_def stored_def)
  show ?thesis
  proof (cases r)
    case (Inl e)
    with SaveFile_error [OF CN ok] sv obtain x where "e = Err x" by blast
    with Inl rep' el(1) show ?thesis by (auto intro: file_failed)
  next
    case (Inr key)
    show ?thesis
    proof (cases key)
      case None
      with Inr rep' el(1) show ?thesis by (auto intro: file_known)
    next
      case (Some k)
      with sv Inr have "calculateFileChunk S CN file db = (Inr k, db')"
        by (auto simp: SaveFile_def split: if_splits sum.splits prod.splits)
      from calculateFileChunk_done [OF inj N ok this] have "stored CN (view db') k file" by simp
      with rep' len N have "represents N view CB CN db' (\<sigma>\<lparr>sp_files := (sp_files \<sigma>)(k \<mapsto> file)\<rparr>)"
        by (simp add: represents_def)
      with Some Inr el(1) show ?thesis by (auto intro: file_saved)
    qed
  qed
qed

lemma dht_simulation:
  assumes C: "codec_documented CB" "codec_documented CN" and my: "length my = 32" "dht_myID d = my"
    and inj: "inj_on sha256 N" and N: "\<forall>f \<in> call_files x. node_encodings CN f \<subseteq> N" and x: "call_wf x"
    and rep: "represents N view CB CN db \<sigma>" and ok: "ok db" and ex: "dht_exec S CB CN lo d x db = (r, db')"
  shows "\<exists>\<sigma>'. spec_step my \<sigma> x r \<sigma>' \<and> represents N view CB CN db' \<sigma>' \<and> ok db'"
proof (cases x)
  case (CallSavePeer i k a l t)
  with ex obtain r1 where "SavePeer S CB d i k a l t db = (r1, db')" "r = ResSavePeer r1"
    by (cases "SavePeer S CB d i k a l t db") auto
  with represents_save_peer [OF C(1) my _ rep ok] CallSavePeer x show ?thesis by simp
next
  case (CallSaveFile f)
  with ex obtain r1 where "SaveFile S CN f db = (r1, db')" "r = ResSaveFile r1"
    by (cases "SaveFile S CN f db") auto
  with represents_save_file [OF C(2) inj _ _ rep ok] CallSaveFile x N show ?thesis by simp
next
  case (CallGetNearPeers i)
  let ?b = "getBucketIndex my i"
  have b: "?b < 256" using getBucketIndex_range [OF my(1), of i] CallGetNearPeers x by simp
  have "sp_table \<sigma> ?b = table_of view CB db ?b" using rep b by (simp add: represents_def)
  moreover have "bucket_of view CB (int ?b) db = Some (spec_peers \<sigma> ?b)" using spec_peers_bucket [OF rep b] by simp
  ultimately have "GetNearPeers S CB d i db =
    (case sp_table \<sigma> ?b of None \<Rightarrow> Inl (Err ErrKeyNotFound) | Some ps \<Rightarrow> Inr ps)"
    using my(2) by (auto simp: GetNearPeers_def GetPeers_bucket [OF ok] table_of_def bucket_of_def
        split: option.splits sum.splits)
  with ex CallGetNearPeers rep ok near [of my \<sigma> i] show ?thesis by auto
next
  case (CallGetFileChunk h)
  show ?thesis
  proof (cases "sp_files \<sigma> h")
    case None
    with ex CallGetFileChunk rep ok show ?thesis by (auto intro: file_other)
  next
    case (Some f)
    with rep have "length f < 2 ^ 63" "stored CN (view db) h f" by (auto simp: represents_def)
    with stored_find [OF ok C(2)] have "GetFileChunk S CN lo h db = Inr f" by (simp add: GetFileChunk_def)
    with Some ex CallGetFileChunk rep ok show ?thesis by (auto intro: file_read)
  qed
qed

lemma dht_simulation_run:
  assumes C: "codec_documented CB" "codec_documented CN" and my: "length my = 32" "dht_myID d = my"
    and inj: "inj_on sha256 N"
  shows "\<forall>x \<in> set xs. call_wf x \<and> (\<forall>f \<in> call_files x. node_encodings CN f \<subseteq> N) \<Longrightarrow>
    represents N view CB CN db \<sigma> \<Longrightarrow> ok db \<Longrightarrow> dht_execs S CB CN lo d xs db = (rs, db') \<Longrightarrow>
    \<exists>\<sigma>'. spec_run my \<sigma> xs rs \<sigma>' \<and> represents N view CB CN db' \<sigma>'"
proof (induction xs arbitrary: db \<sigma> rs)
  case Nil
  then show ?case by (auto intro: spec_nil)
next
  case (Cons x xs)
  obtain r db1 where 1: "dht_exec S CB CN lo d x db = (r, db1)" by force
  obtain rs1 where 2: "dht_execs S CB CN lo d xs db1 = (rs1, db')" and rs: "rs = r # rs1"
    using Cons.prems(4) 1 by (auto split: prod.splits)
  obtain \<sigma>1 where "spec_step my \<sigma> x r \<sigma>1" and rep: "represents N view CB CN db1 \<sigma>1" "ok db1"
    using dht_simulation [OF C my inj _ _ Cons.prems(2,3) 1] Cons.prems(1) by auto
  moreover obtain \<sigma>2 where "spec_run my \<sigma>1 xs rs1 \<sigma>2" "represents N view CB CN db' \<sigma>2"
    using Cons.IH [OF _ rep 2] Cons.prems(1) by auto
  ultimately show ?case unfolding rs by (blast intro: spec_cons)
qed

end

section \<open>The property\<close>

text \<open>
  C28. The distributed hash table implements its specification: on a database that behaves as
  documented, every history of saves and lookups of peers and files, whichever of them the database
  lets fail, gives the results of a run of the specification, and the store represents its final
  table. So a lookup of a peer gives exactly the saves to its bucket that succeeded, in order; a
  save fails with \<^verbatim>\<open>bucket cap\<close> just when there are twenty; and a key that \<^verbatim>\<open>SaveFile\<close> returned
  gives back the file for ever after, as long as SHA-256 does not collide on the nodes of the files
  of the history.
\<close>

theorem dht_implements_spec:
  assumes "badger_db B json view ok" and "codec_documented CB" and "codec_documented CN" and "ok db"
    and "buckets_bounded view CB db" and "\<forall>x \<in> set xs. call_wf x"
    and "inj_on sha256 (\<Union>x \<in> set xs. \<Union>f \<in> call_files x. node_encodings CN f)"
    and "dht_execs (BadgerStorage B json) CB CN lo (NewDHT pub) xs db = (rs, db')"
  shows "\<exists>\<sigma>. spec_run (sha256 pub) \<lparr>sp_table = table_of view CB db, sp_files = Map.empty\<rparr> xs rs \<sigma> \<and>
    (\<forall>b < 256. sp_table \<sigma> b = table_of view CB db' b)"
proof -
  let ?N = "\<Union>x \<in> set xs. \<Union>f \<in> call_files x. node_encodings CN f"
  have rep: "represents ?N view CB CN db \<lparr>sp_table = table_of view CB db, sp_files = Map.empty\<rparr>"
    using assms(5) by (simp add: represents_def)
  have "\<forall>x \<in> set xs. call_wf x \<and> (\<forall>f \<in> call_files x. node_encodings CN f \<subseteq> ?N)"
    using assms(6) by blast
  then obtain \<sigma> where "spec_run (sha256 pub) \<lparr>sp_table = table_of view CB db, sp_files = Map.empty\<rparr> xs rs \<sigma>"
    "represents ?N view CB CN db' \<sigma>"
    using kv_storage.dht_simulation_run [OF badger_kv [OF assms(1)] assms(2,3) _ _ assms(7) _ rep assms(4,8)]
    by (force simp: NewDHT_def)
  then show ?thesis by (auto simp: represents_def)
qed

text \<open>A history with a file and with more saves than the bucket of the peer has room for.\<close>

definition demo_calls :: "dht_call list" where
  "demo_calls = CallSaveFile [104, 105] # replicate 22 (CallSavePeer (sha256 [2]) [2] [97] 7 100) @
     [CallGetNearPeers (sha256 [2])]"

theorem dht_implements_spec_witness:
  "\<exists>rs db' \<sigma>. dht_execs demo_store bucket_codec node_codec (\<lambda>b. chunk_node []) (NewDHT [1]) demo_calls [] = (rs, db') \<and>
     spec_run (sha256 [1]) \<lparr>sp_table = (\<lambda>b. None), sp_files = Map.empty\<rparr> demo_calls rs \<sigma> \<and>
     sp_table \<sigma> 7 = table_of map_of bucket_codec db' 7"
proof -
  obtain rs db' where ex: "dht_execs demo_store bucket_codec node_codec (\<lambda>b. chunk_node []) (NewDHT [1]) demo_calls [] = (rs, db')"
    by force
  have wf: "\<forall>x \<in> set demo_calls. call_wf x" by (auto simp: demo_calls_def)
  have files: "(\<Union>x \<in> set demo_calls. \<Union>f \<in> call_files x. node_encodings node_codec f) = node_encodings node_codec [104, 105]"
    by (auto simp: demo_calls_def)
  have empty: "table_of map_of bucket_codec [] = (\<lambda>b. None)" by (auto simp: table_of_def)
  have "inj_on sha256 (node_encodings node_codec [104, 105])"
    by (rule inj_on_small) (simp add: ChunkSize_def)
  then show ?thesis
    using dht_implements_spec [OF mem.badger_db_axioms bucket_codec_documented node_codec_documented _ _ wf _ ex [unfolded demo_store_def]] ex
    unfolding files empty by (fastforce simp: mem_ok_def buckets_bounded_def bucket_of_def)
qed

end
