(* ===== verification/Gossip_Calls.thy ===== *)
theory Gossip_Calls
  imports Gossip
begin

text \<open>
  Many goroutines call one gossip manager: the steps of \<^verbatim>\<open>HandleIncoming\<close> and \<^verbatim>\<open>Broadcast\<close> of
  \<^verbatim>\<open>internal/p2p/gossip/manager.go\<close> between which others run. \<^verbatim>\<open>HandleIncoming\<close> asks under the read
  lock whether the identifier was seen, and \<^verbatim>\<open>Broadcast\<close> asks again under the write lock and marks it;
  the peers are asked for later, when the lock has been given up.
\<close>

section \<open>The parts of a call\<close>

text \<open>
  Where a call is: \<open>Arrived\<close> at \<^verbatim>\<open>HandleIncoming\<close>, at the beginning of \<^verbatim>\<open>Broadcast\<close>, past its lock, or
  returned, with what it sent, without having marked anything, or with a panic.
\<close>

datatype call_stage =
    Arrived
  | Checked
  | Entered
  | Sent "panic option" "send list"
  | Dropped
  | Crashed panic

definition call_failed :: "exn \<Rightarrow> call_stage" where
  "call_failed e = (case exn_panic e of None \<Rightarrow> Dropped | Some p \<Rightarrow> Crashed p)"

definition HandleIncoming_check :: "uuid_lib \<Rightarrow> MessageData \<Rightarrow> Manager \<Rightarrow> call_stage" where
  "HandleIncoming_check U msgData g =
     (case ParseMessageID U (MessageId msgData) of
        Inl e \<Rightarrow> call_failed e
      | Inr mesID \<Rightarrow> if seenCache g mesID then Dropped else Checked)"

definition Broadcast_enter :: "uuid_lib \<Rightarrow> MessageData \<Rightarrow> Manager \<Rightarrow> call_stage \<times> Manager" where
  "Broadcast_enter U msgData g =
     (case ParseMessageID U (MessageId msgData) of
        Inl e \<Rightarrow> (call_failed e, g)
      | Inr mesID \<Rightarrow>
          if seenCache g mesID then (Dropped, g)
          else (Entered, g\<lparr>seenCache := (seenCache g)(mesID := True)\<rparr>))"

definition Broadcast_send ::
  "PeerID list \<Rightarrow> ('db, 'c) Swarm \<Rightarrow> MessageType \<Rightarrow> MessageData \<Rightarrow> panic option \<times> send list \<times> MessageData" where
  "Broadcast_send order s msgType msgData =
     (let msgData = msgData\<lparr>HopLimit := HopLimit msgData - 1\<rparr>
      in if HopLimit msgData \<le> 0 then (None, [], msgData)
         else (let (p, sends) = broadcast_loop msgType msgData (GetAllPeers order s) [] in (p, sends, msgData)))"

text \<open>One after the other they are \<^verbatim>\<open>Broadcast\<close>.\<close>

lemma Broadcast_parts:
  "Broadcast U order s t m g =
    (case Broadcast_enter U m g of
       (Entered, g') \<Rightarrow> (let (p, sends, m') = Broadcast_send order s t m in (p, sends, m', g'))
     | (Crashed p, g') \<Rightarrow> (Some p, [], m, g')
     | (_, g') \<Rightarrow> (None, [], m, g'))"
  by (auto simp: Broadcast_def Broadcast_enter_def Broadcast_send_def call_failed_def Let_def
      split: sum.split option.split prod.split)

section \<open>The goroutines\<close>

record gossip_call =
  gc_type :: MessageType
  gc_msg :: MessageData
  gc_stage :: call_stage

record gossip_state =
  gw_manager :: Manager
  gw_calls :: "gossip_call list"

datatype ('db, 'c) gossip_event =
    CallHandleIncoming MessageType MessageData
  | CallBroadcast MessageType MessageData
  | Check nat
  | Enter nat
  | Send nat "PeerID list" "('db, 'c) Swarm"

definition set_stage :: "nat \<Rightarrow> call_stage \<Rightarrow> gossip_call list \<Rightarrow> gossip_call list" where
  "set_stage n st cs = cs[n := (cs ! n)\<lparr>gc_stage := st\<rparr>]"

text \<open>\<open>Send n order s\<close>: the \<open>n\<close>th call sends to the peers that \<open>s\<close> has at that time.\<close>

inductive gossip_step ::
  "uuid_lib \<Rightarrow> gossip_state \<Rightarrow> ('db, 'c) gossip_event \<Rightarrow> gossip_state \<Rightarrow> bool" for U where
  call_incoming: "gossip_step U w (CallHandleIncoming t m)
    (w\<lparr>gw_calls := gw_calls w @ [\<lparr>gc_type = t, gc_msg = m, gc_stage = Arrived\<rparr>]\<rparr>)"
| call_broadcast: "gossip_step U w (CallBroadcast t m)
    (w\<lparr>gw_calls := gw_calls w @ [\<lparr>gc_type = t, gc_msg = m, gc_stage = Checked\<rparr>]\<rparr>)"
| check: "n < length (gw_calls w) \<Longrightarrow> gc_stage (gw_calls w ! n) = Arrived \<Longrightarrow>
    gossip_step U w (Check n)
      (w\<lparr>gw_calls := set_stage n (HandleIncoming_check U (gc_msg (gw_calls w ! n)) (gw_manager w)) (gw_calls w)\<rparr>)"
| enter: "n < length (gw_calls w) \<Longrightarrow> gc_stage (gw_calls w ! n) = Checked \<Longrightarrow>
    Broadcast_enter U (gc_msg (gw_calls w ! n)) (gw_manager w) = (st, g) \<Longrightarrow>
    gossip_step U w (Enter n) (w\<lparr>gw_manager := g, gw_calls := set_stage n st (gw_calls w)\<rparr>)"
| send: "n < length (gw_calls w) \<Longrightarrow> gc_stage (gw_calls w ! n) = Entered \<Longrightarrow>
    Broadcast_send order s (gc_type (gw_calls w ! n)) (gc_msg (gw_calls w ! n)) = (p, sends, m) \<Longrightarrow>
    gossip_step U w (Send n order s) (w\<lparr>gw_calls := set_stage n (Sent p sends) (gw_calls w)\<rparr>)"

inductive gossip_steps ::
  "uuid_lib \<Rightarrow> gossip_state \<Rightarrow> ('db, 'c) gossip_event list \<Rightarrow> gossip_state \<Rightarrow> bool" for U where
  gossip_nil: "gossip_steps U w [] w"
| gossip_cons: "gossip_step U w e w' \<Longrightarrow> gossip_steps U w' es w'' \<Longrightarrow> gossip_steps U w (e # es) w''"

text \<open>The calls that got past the lock and those that have returned.\<close>

fun entered :: "call_stage \<Rightarrow> bool" where
  "entered Entered = True"
| "entered (Sent p sends) = True"
| "entered _ = False"

fun returned_stage :: "call_stage \<Rightarrow> bool" where
  "returned_stage (Sent p sends) = True"
| "returned_stage Dropped = True"
| "returned_stage (Crashed p) = True"
| "returned_stage _ = False"

definition winners :: "MessageID \<Rightarrow> gossip_call list \<Rightarrow> nat" where
  "winners i cs = length (filter (\<lambda>c. MessageId (gc_msg c) = i \<and> entered (gc_stage c)) cs)"

section \<open>The invariant\<close>

lemma winners_snoc [simp]:
  "winners i (cs @ [c]) = winners i cs + (if MessageId (gc_msg c) = i \<and> entered (gc_stage c) then 1 else 0)"
  by (simp add: winners_def)

lemma winners_set_stage:
  assumes "n < length cs" and "\<not> entered (gc_stage (cs ! n))"
  shows "winners i (set_stage n st cs) =
    winners i cs + (if MessageId (gc_msg (cs ! n)) = i \<and> entered st then 1 else 0)"
proof -
  have cs: "cs = take n cs @ cs ! n # drop (Suc n) cs" using assms(1) by (rule id_take_nth_drop)
  have upd: "set_stage n st cs = take n cs @ (cs ! n)\<lparr>gc_stage := st\<rparr> # drop (Suc n) cs"
    using assms(1) by (simp add: set_stage_def upd_conv_take_nth_drop)
  have "winners i cs = winners i (take n cs) + winners i (drop (Suc n) cs)"
    using assms(2) by (subst cs) (simp add: winners_def)
  then show ?thesis by (simp add: upd winners_def)
qed

lemma winners_sent:
  assumes "n < length cs" and "gc_stage (cs ! n) = Entered"
  shows "winners i (set_stage n (Sent p sends) cs) = winners i cs"
proof -
  have cs: "cs = take n cs @ cs ! n # drop (Suc n) cs" using assms(1) by (rule id_take_nth_drop)
  have upd: "set_stage n (Sent p sends) cs = take n cs @ (cs ! n)\<lparr>gc_stage := Sent p sends\<rparr> # drop (Suc n) cs"
    using assms(1) by (simp add: set_stage_def upd_conv_take_nth_drop)
  show ?thesis unfolding upd by (subst (2) cs) (simp add: winners_def assms(2))
qed

lemma set_stage_mem: "c \<in> set (set_stage n st cs) \<Longrightarrow> c = (cs ! n)\<lparr>gc_stage := st\<rparr> \<or> c \<in> set cs"
  using set_update_subset_insert [of cs n] by (auto simp: set_stage_def)

definition calls_ok :: "Manager \<Rightarrow> gossip_state \<Rightarrow> bool" where
  "calls_ok g0 w \<longleftrightarrow>
     (\<forall>i. winners i (gw_calls w) + (if seenCache g0 i then 1 else 0) = (if seenCache (gw_manager w) i then 1 else 0)) \<and>
     (\<forall>c \<in> set (gw_calls w). length (MessageId (gc_msg c)) = 16 \<longrightarrow> entered (gc_stage c) \<or> returned_stage (gc_stage c) \<longrightarrow>
        seenCache (gw_manager w) (MessageId (gc_msg c)))"

lemma HandleIncoming_check_cases:
  assumes "uuid_documented U"
  shows "\<not> entered (HandleIncoming_check U m g)"
    and "length (MessageId m) = 16 \<Longrightarrow> returned_stage (HandleIncoming_check U m g) \<Longrightarrow> seenCache g (MessageId m)"
  using uuid_FromBytes_Inr [OF assms, of "MessageId m" "MessageId m"]
  by (auto simp: HandleIncoming_check_def ParseMessageID_def call_failed_def split: sum.split option.split if_splits)

lemma Broadcast_enter_cases:
  assumes "uuid_documented U" and "Broadcast_enter U m g = (st, g')"
  shows "if entered st
    then \<not> seenCache g (MessageId m) \<and> g' = g\<lparr>seenCache := (seenCache g)(MessageId m := True)\<rparr>
    else g' = g \<and> (length (MessageId m) = 16 \<longrightarrow> seenCache g (MessageId m))"
proof (cases "length (MessageId m) = 16")
  case True
  then have "uuid_FromBytes U (MessageId m) = Inr (MessageId m)" by (simp add: uuid_FromBytes_Inr [OF assms(1)])
  with assms(2) show ?thesis by (auto simp: Broadcast_enter_def ParseMessageID_def split: if_splits)
next
  case False
  then have "is_err (uuid_FromBytes U (MessageId m))" using assms(1) by (simp add: uuid_documented_def)
  with assms(2) False show ?thesis by (auto simp: Broadcast_enter_def ParseMessageID_def call_failed_def is_err_iff)
qed

lemma calls_ok_step:
  assumes "uuid_documented U" and "gossip_step U w e w'" and "calls_ok g0 w"
  shows "calls_ok g0 w'"
  using assms(2,3)
proof (induction rule: gossip_step.induct)
  case (check n w)
  let ?m = "gc_msg (gw_calls w ! n)" and ?st = "HandleIncoming_check U (gc_msg (gw_calls w ! n)) (gw_manager w)"
  have "winners i (set_stage n ?st (gw_calls w)) = winners i (gw_calls w)" for i
    using check(1,2) HandleIncoming_check_cases(1) [OF assms(1)] by (simp add: winners_set_stage)
  then show ?case
    using check HandleIncoming_check_cases [OF assms(1), of ?m "gw_manager w"]
    by (auto simp: calls_ok_def dest!: set_stage_mem)
next
  case (enter n w st g)
  note c = Broadcast_enter_cases [OF assms(1) enter(3)]
  have w: "winners i (set_stage n st (gw_calls w)) = winners i (gw_calls w) +
      (if MessageId (gc_msg (gw_calls w ! n)) = i \<and> entered st then 1 else 0)" for i
    using enter(1,2) by (simp add: winners_set_stage)
  have old: "winners i (gw_calls w) + (if seenCache g0 i then 1 else 0) = (if seenCache (gw_manager w) i then 1 else 0)" for i
    using enter(4) by (simp add: calls_ok_def)
  have "winners i (set_stage n st (gw_calls w)) + (if seenCache g0 i then 1 else 0) = (if seenCache g i then 1 else 0)" for i
    using c w [of i] old [of i] by (auto split: if_splits)
  moreover have "seenCache (gw_manager w) i \<Longrightarrow> seenCache g i" for i using c by (auto split: if_splits)
  ultimately show ?case
    using enter c by (auto simp: calls_ok_def split: if_splits dest!: set_stage_mem)
next
  case (send n w order s p sends m)
  then show ?case by (auto simp: calls_ok_def winners_sent dest!: set_stage_mem)
qed (auto simp: calls_ok_def)

lemma calls_ok_steps:
  "gossip_steps U w es w' \<Longrightarrow> uuid_documented U \<Longrightarrow> calls_ok g0 w \<Longrightarrow> calls_ok g0 w'"
  by (induction rule: gossip_steps.induct) (simp_all add: calls_ok_step)

section \<open>What was sent\<close>

fun copies_sent :: "call_stage \<Rightarrow> send list" where
  "copies_sent (Sent p sends) = sends"
| "copies_sent _ = []"

text \<open>The copies of a message that the calls have sent.\<close>

definition forwarded :: "MessageID \<Rightarrow> gossip_call list \<Rightarrow> send list" where
  "forwarded i cs = concat (map (\<lambda>c. if MessageId (gc_msg c) = i then copies_sent (gc_stage c) else []) cs)"

lemma concat_at_most_one:
  "length (filter P cs) \<le> 1 \<Longrightarrow> \<forall>c \<in> set cs. \<not> P c \<longrightarrow> f c = [] \<Longrightarrow>
    if filter P cs = [] then concat (map f cs) = [] else \<exists>n < length cs. P (cs ! n) \<and> concat (map f cs) = f (cs ! n)"
proof (induction cs)
  case (Cons c cs)
  show ?case
  proof (cases "P c")
    case True
    with Cons have "concat (map f cs) = []" by simp
    with True show ?thesis by (auto intro!: exI [of _ 0])
  next
    case False
    with Cons.prems have c: "f c = []" "length (filter P cs) \<le> 1" "\<forall>c \<in> set cs. \<not> P c \<longrightarrow> f c = []" by simp_all
    show ?thesis
    proof (cases "filter P cs = []")
      case True
      with Cons.IH [OF c(2,3)] c(1) False show ?thesis by simp
    next
      case some: False
      with Cons.IH [OF c(2,3)] obtain n where "n < length cs" "P (cs ! n)" "concat (map f cs) = f (cs ! n)" by auto
      then have "Suc n < length (c # cs) \<and> P ((c # cs) ! Suc n) \<and> concat (map f (c # cs)) = f ((c # cs) ! Suc n)"
        using c(1) by simp
      with some False show ?thesis unfolding filter.simps if_not_P [OF False] if_not_P [OF some] by blast
    qed
  qed
qed simp

lemma copies_not_entered: "\<not> entered st \<Longrightarrow> copies_sent st = []"
  by (cases st) auto

lemma forwarded_winner:
  assumes "winners i cs \<le> 1"
  shows "if winners i cs = 0 then forwarded i cs = []
    else \<exists>n < length cs. MessageId (gc_msg (cs ! n)) = i \<and> entered (gc_stage (cs ! n)) \<and>
      forwarded i cs = copies_sent (gc_stage (cs ! n))"
proof -
  let ?P = "\<lambda>c. MessageId (gc_msg c) = i \<and> entered (gc_stage c)"
  let ?f = "\<lambda>c. if MessageId (gc_msg c) = i then copies_sent (gc_stage c) else []"
  have "length (filter ?P cs) \<le> 1" using assms by (simp add: winners_def)
  from concat_at_most_one [OF this, of ?f]
  have c: "if filter ?P cs = [] then concat (map ?f cs) = [] else \<exists>n < length cs. ?P (cs ! n) \<and> concat (map ?f cs) = ?f (cs ! n)"
    using copies_not_entered by auto
  show ?thesis
  proof (cases "filter ?P cs = []")
    case True
    with c show ?thesis unfolding forwarded_def winners_def by simp
  next
    case False
    with c obtain n where n: "n < length cs" "?P (cs ! n)" "concat (map ?f cs) = ?f (cs ! n)" by auto
    then have "forwarded i cs = copies_sent (gc_stage (cs ! n))" by (simp add: forwarded_def)
    with n(1,2) False show ?thesis unfolding winners_def by auto
  qed
qed

text \<open>A call that has sent did so in a step of its own, to the peers at that time.\<close>

definition sent_in :: "('db, 'c) gossip_event list \<Rightarrow> nat \<Rightarrow> gossip_call \<Rightarrow> bool" where
  "sent_in es n c \<longleftrightarrow> (\<forall>p sends. gc_stage c = Sent p sends \<longrightarrow>
     (\<exists>order s m. Send n order s \<in> set es \<and> Broadcast_send order s (gc_type c) (gc_msg c) = (p, sends, m)))"

lemma HandleIncoming_check_not_sent: "HandleIncoming_check U m g \<noteq> Sent p sends"
  by (simp add: HandleIncoming_check_def call_failed_def split: sum.split option.split)

lemma Broadcast_enter_not_sent: "fst (Broadcast_enter U m g) \<noteq> Sent p sends"
  by (simp add: Broadcast_enter_def call_failed_def split: sum.split option.split)

lemma sent_in_step:
  assumes "gossip_step U w e w'" and "\<forall>n < length (gw_calls w). sent_in es n (gw_calls w ! n)"
  shows "\<forall>n < length (gw_calls w'). sent_in (es @ [e]) n (gw_calls w' ! n)"
proof -
  have old: "sent_in (es @ [e]) n (gw_calls w ! n)" if "n < length (gw_calls w)" for n
    using assms(2) that by (fastforce simp: sent_in_def)
  show ?thesis
    using assms(1) old
  proof (induction rule: gossip_step.induct)
    case (call_incoming w t m)
    then show ?case by (auto simp: sent_in_def nth_append)
  next
    case (call_broadcast w t m)
    then show ?case by (auto simp: sent_in_def nth_append)
  next
    case (check n w)
    then show ?case by (auto simp: sent_in_def set_stage_def nth_list_update HandleIncoming_check_not_sent)
  next
    case (enter n w st g)
    then show ?case
      using Broadcast_enter_not_sent [of U "gc_msg (gw_calls w ! n)" "gw_manager w"]
      by (auto simp: sent_in_def set_stage_def nth_list_update)
  next
    case (send n w order s p sends m)
    have "sent_in (es @ [Send n order s]) k (set_stage n (Sent p sends) (gw_calls w) ! k)" if "k < length (gw_calls w)" for k
    proof (cases "k = n")
      case True
      with send(1,3) show ?thesis by (auto simp: sent_in_def set_stage_def)
    next
      case False
      with send(4) [OF that] show ?thesis by (simp add: set_stage_def)
    qed
    then show ?case by (simp add: set_stage_def)
  qed
qed

lemma sent_in_steps:
  "gossip_steps U w es w' \<Longrightarrow> \<forall>n < length (gw_calls w). sent_in es0 n (gw_calls w ! n) \<Longrightarrow>
    \<forall>n < length (gw_calls w'). sent_in (es0 @ es) n (gw_calls w' ! n)"
proof (induction arbitrary: es0 rule: gossip_steps.induct)
  case (gossip_cons w e w' es w'')
  from gossip_cons.IH [OF sent_in_step [OF gossip_cons(1,4)]] show ?case by simp
qed simp

lemma Broadcast_send_copies:
  assumes "Broadcast_send order s t m = (p, sends, m')" and "swarm_ok s" and "visits order s"
  shows "distinct (map to_peer sends)"
    and "32 \<le> length (OriginId m) \<Longrightarrow> set sends = (if HopLimit m = 1 then {}
      else {\<lparr>to_peer = j, send_type = t, send_msg = m\<lparr>HopLimit := HopLimit m - 1\<rparr>\<rparr> | j.
        ThisIsActivePeer j s \<and> j \<noteq> take 32 (OriginId m)})"
proof -
  let ?m = "m\<lparr>HopLimit := HopLimit m - 1\<rparr>"
  have sends: "sends = (if HopLimit m = 1 then [] else snd (broadcast_loop t ?m (GetAllPeers order s) []))"
    using assms(1) by (auto simp: Broadcast_send_def Let_def split: if_splits prod.splits)
  note loop = sends_of_order [OF assms(2,3), of ?m t]
  have d: "distinct order" "set order = dom (activePeers s)" using assms(3) by (simp_all add: visits_def)
  show "distinct (map to_peer sends)"
    using loop d(1) broadcast_loop_short [of ?m t "GetAllPeers order s" "[]"]
    by (cases "32 \<le> length (OriginId m)") (auto simp: sends comp_def)
  show "set sends = (if HopLimit m = 1 then {} else {\<lparr>to_peer = j, send_type = t, send_msg = ?m\<rparr> | j.
      ThisIsActivePeer j s \<and> j \<noteq> take 32 (OriginId m)})" if "32 \<le> length (OriginId m)"
    using loop that d(2) by (auto simp: sends ThisIsActivePeer_def)
qed

section \<open>The property\<close>

text \<open>
  C26. A message is forwarded once, however the goroutines that call the manager interleave. All
  calls of \<^verbatim>\<open>HandleIncoming\<close> and \<^verbatim>\<open>Broadcast\<close> for one message identifier together never send a peer
  more than one copy, and none at all if the identifier was seen before. When all calls have
  returned and there was one for a well-formed identifier that had not been seen, the copies they
  have sent are those of one of them: if the origin in its message has at least 32 bytes, then one
  for every peer that is active when it sends and whose identifier is not equal to the origin's
  first 32 bytes, with the hop limit decremented, or none if the hop limit was one. (A shorter
  origin is a panic as soon as there is a peer.)
\<close>

theorem forwarded_once_concurrently:
  assumes "uuid_documented U" and "gossip_steps U \<lparr>gw_manager = g, gw_calls = []\<rparr> es w"
    and "\<forall>n order s. Send n order s \<in> set es \<longrightarrow> swarm_ok s \<and> visits order s"
  shows "distinct (map to_peer (forwarded i (gw_calls w))) \<and>
    (seenCache g i \<longrightarrow> forwarded i (gw_calls w) = []) \<and>
    ((\<forall>c \<in> set (gw_calls w). returned_stage (gc_stage c)) \<and> i \<in> (MessageId \<circ> gc_msg) ` set (gw_calls w) \<and>
        length i = 16 \<and> \<not> seenCache g i \<longrightarrow>
      (\<exists>n order s m. n < length (gw_calls w) \<and> Send n order s \<in> set es \<and> gc_msg (gw_calls w ! n) = m \<and> MessageId m = i \<and>
        (32 \<le> length (OriginId m) \<longrightarrow>
          set (forwarded i (gw_calls w)) = (if HopLimit m = 1 then {}
            else {\<lparr>to_peer = j, send_type = gc_type (gw_calls w ! n), send_msg = m\<lparr>HopLimit := HopLimit m - 1\<rparr>\<rparr> | j.
              ThisIsActivePeer j s \<and> j \<noteq> take 32 (OriginId m)}))))"
proof -
  have "calls_ok g \<lparr>gw_manager = g, gw_calls = []\<rparr>" by (simp add: calls_ok_def winners_def)
  from calls_ok_steps [OF assms(2,1) this]
  have w: "winners i (gw_calls w) + (if seenCache g i then 1 else 0) = (if seenCache (gw_manager w) i then 1 else 0)"
    and seen: "\<And>c. c \<in> set (gw_calls w) \<Longrightarrow> length (MessageId (gc_msg c)) = 16 \<Longrightarrow> returned_stage (gc_stage c) \<Longrightarrow>
      seenCache (gw_manager w) (MessageId (gc_msg c))"
    by (simp_all add: calls_ok_def)
  have one: "winners i (gw_calls w) \<le> 1" using w by (simp split: if_splits)
  have history: "sent_in es n (gw_calls w ! n)" if "n < length (gw_calls w)" for n
    using sent_in_steps [OF assms(2), of "[]"] that by simp
  have copies: "\<exists>order s m'. Send n order s \<in> set es \<and> swarm_ok s \<and> visits order s \<and>
      Broadcast_send order s (gc_type (gw_calls w ! n)) (gc_msg (gw_calls w ! n)) = (p, sends, m')"
    if "n < length (gw_calls w)" "gc_stage (gw_calls w ! n) = Sent p sends" for n p sends
    using history [OF that(1)] that(2) assms(3) unfolding sent_in_def by blast
  note winner = forwarded_winner [OF one]
  have "distinct (map to_peer (forwarded i (gw_calls w)))"
  proof (cases "winners i (gw_calls w) = 0")
    case True
    with winner show ?thesis by simp
  next
    case False
    with winner obtain n where n: "n < length (gw_calls w)" "entered (gc_stage (gw_calls w ! n))"
      "forwarded i (gw_calls w) = copies_sent (gc_stage (gw_calls w ! n))" by auto
    show ?thesis
    proof (cases "gc_stage (gw_calls w ! n)")
      case (Sent p sends)
      from copies [OF n(1) this] Broadcast_send_copies(1) n(3) Sent show ?thesis by fastforce
    qed (use n in simp_all)
  qed
  moreover have "forwarded i (gw_calls w) = []" if "seenCache g i"
    using that w winner by (simp split: if_splits)
  moreover have "\<exists>n order s m. n < length (gw_calls w) \<and> Send n order s \<in> set es \<and> gc_msg (gw_calls w ! n) = m \<and> MessageId m = i \<and>
      (32 \<le> length (OriginId m) \<longrightarrow> set (forwarded i (gw_calls w)) = (if HopLimit m = 1 then {}
        else {\<lparr>to_peer = j, send_type = gc_type (gw_calls w ! n), send_msg = m\<lparr>HopLimit := HopLimit m - 1\<rparr>\<rparr> | j.
          ThisIsActivePeer j s \<and> j \<noteq> take 32 (OriginId m)}))"
    if bk: "\<forall>c \<in> set (gw_calls w). returned_stage (gc_stage c)" and i: "i \<in> (MessageId \<circ> gc_msg) ` set (gw_calls w)"
      "length i = 16" "\<not> seenCache g i"
  proof -
    have "seenCache (gw_manager w) i" using i(1,2) bk seen by auto
    then have "winners i (gw_calls w) \<noteq> 0" using w i(3) by simp
    with winner obtain n where n: "n < length (gw_calls w)" "MessageId (gc_msg (gw_calls w ! n)) = i"
      "entered (gc_stage (gw_calls w ! n))" "forwarded i (gw_calls w) = copies_sent (gc_stage (gw_calls w ! n))" by auto
    moreover have "returned_stage (gc_stage (gw_calls w ! n))" using bk n(1) by simp
    ultimately obtain p sends where "gc_stage (gw_calls w ! n) = Sent p sends"
      by (cases "gc_stage (gw_calls w ! n)") simp_all
    with copies [OF n(1) this] Broadcast_send_copies(2) n show ?thesis by fastforce
  qed
  ultimately show ?thesis by blast
qed

text \<open>Two calls for one identifier that both find it unseen before either marks it.\<close>

theorem forwarded_once_concurrently_witness:
  "\<exists>w. gossip_steps demo_uuid \<lparr>gw_manager = NewManager, gw_calls = []\<rparr>
       [CallHandleIncoming TypeGossip (demo_gossip_msg 5), CallHandleIncoming TypeGossip (demo_gossip_msg 4), Check 0, Check 1,
        Enter 1, Enter 0, Send 1 [sha256 [1]] demo_swarm] w \<and> map to_peer (forwarded (replicate 16 3) (gw_calls w)) = [sha256 [1]]"
proof -
  let ?id = "replicate 16 (3 :: byte)"
  let ?c = "\<lambda>h st. \<lparr>gc_type = TypeGossip, gc_msg = demo_gossip_msg h, gc_stage = st\<rparr>"
  let ?g = "NewManager\<lparr>seenCache := (seenCache NewManager)(?id := True)\<rparr>"
  let ?w = "\<lambda>g st st'. \<lparr>gw_manager = g, gw_calls = [?c 5 st, ?c 4 st']\<rparr>"
  have id: "MessageId (demo_gossip_msg h) = ?id" for h by (simp add: demo_gossip_msg_def)
  have "uuid_FromBytes demo_uuid ?id = Inr ?id" by (simp add: uuid_FromBytes_Inr [OF demo_uuid_documented])
  then have parse: "ParseMessageID demo_uuid ?id = Inr ?id" by (simp add: ParseMessageID_def)
  have chk: "HandleIncoming_check demo_uuid (demo_gossip_msg h) NewManager = Checked" for h
    unfolding HandleIncoming_check_def id parse by (simp add: NewManager_def)
  have ent: "Broadcast_enter demo_uuid (demo_gossip_msg h) NewManager = (Entered, ?g)"
    "Broadcast_enter demo_uuid (demo_gossip_msg h) ?g = (Dropped, ?g)" for h
    unfolding Broadcast_enter_def id parse by (simp_all add: NewManager_def)
  obtain p sends m where s: "Broadcast_send [sha256 [1]] demo_swarm TypeGossip (demo_gossip_msg 4) = (p, sends, m)"
    by (metis prod_cases3)
  let ?R = "gossip_step demo_uuid :: _ \<Rightarrow> (memdb, nat) gossip_event \<Rightarrow> _"
  have 1: "?R \<lparr>gw_manager = NewManager, gw_calls = []\<rparr> (CallHandleIncoming TypeGossip (demo_gossip_msg 5))
      \<lparr>gw_manager = NewManager, gw_calls = [?c 5 Arrived]\<rparr>"
    using gossip_step.call_incoming [of demo_uuid "\<lparr>gw_manager = NewManager, gw_calls = []\<rparr>"] by simp
  have 2: "?R \<lparr>gw_manager = NewManager, gw_calls = [?c 5 Arrived]\<rparr> (CallHandleIncoming TypeGossip (demo_gossip_msg 4))
      (?w NewManager Arrived Arrived)"
    using gossip_step.call_incoming [of demo_uuid "\<lparr>gw_manager = NewManager, gw_calls = [?c 5 Arrived]\<rparr>"] by simp
  have 3: "?R (?w NewManager Arrived Arrived) (Check 0) (?w NewManager Checked Arrived)"
    using gossip_step.check [of 0 "?w NewManager Arrived Arrived" demo_uuid] by (simp add: chk set_stage_def)
  have 4: "?R (?w NewManager Checked Arrived) (Check 1) (?w NewManager Checked Checked)"
    using gossip_step.check [of 1 "?w NewManager Checked Arrived" demo_uuid] by (simp add: chk set_stage_def)
  have 5: "?R (?w NewManager Checked Checked) (Enter 1) (?w ?g Checked Entered)"
    using gossip_step.enter [of 1 "?w NewManager Checked Checked" demo_uuid] by (simp add: ent set_stage_def)
  have 6: "?R (?w ?g Checked Entered) (Enter 0) (?w ?g Dropped Entered)"
    using gossip_step.enter [of 0 "?w ?g Checked Entered" demo_uuid] by (simp add: ent set_stage_def)
  have 7: "?R (?w ?g Dropped Entered) (Send 1 [sha256 [1]] demo_swarm) (?w ?g Dropped (Sent p sends))"
    using gossip_step.send [of 1 "?w ?g Dropped Entered"] s by (simp add: set_stage_def)
  note run = gossip_cons [OF 1 gossip_cons [OF 2 gossip_cons [OF 3 gossip_cons [OF 4 gossip_cons [OF 5
    gossip_cons [OF 6 gossip_cons [OF 7 gossip_nil]]]]]]]
  have ok: "swarm_ok demo_swarm \<and> visits [sha256 [1]] demo_swarm" by (simp add: demo_swarm_ok demo_visits)
  let ?calls = "gw_calls (?w ?g Dropped (Sent p sends))"
  have active: "ThisIsActivePeer j demo_swarm \<longleftrightarrow> j = sha256 [1]" for j
    using demo_visits by (auto simp: ThisIsActivePeer_def visits_def)
  have msg: "HopLimit (demo_gossip_msg 4) = 4" "OriginId (demo_gossip_msg 4) = demo_origin" by (simp_all add: demo_gossip_msg_def)
  from forwarded_once_concurrently [OF demo_uuid_documented run, of ?id] ok
  have d: "distinct (map to_peer (forwarded ?id ?calls))" and "to_peer ` set (forwarded ?id ?calls) = {sha256 [1]}"
    by (auto simp: id NewManager_def active msg image_iff)
  then have "set (map to_peer (forwarded ?id ?calls)) = {sha256 [1]}" by simp
  moreover have "xs = [x]" if "distinct xs" "set xs = {x}" for xs and x :: PeerID
  proof -
    have "length xs = 1" using distinct_card [OF that(1)] that(2) by simp
    then obtain y where "xs = [y]" by (auto simp: length_Suc_conv)
    with that(2) show ?thesis by simp
  qed
  ultimately have "map to_peer (forwarded ?id ?calls) = [sha256 [1]]" using d by blast
  from conjI [OF run this] show ?thesis by (rule exI)
qed

end
