(* ===== verification/Session_Streams.thy ===== *)
theory Session_Streams
  imports Sessions "HOL-Library.Multiset"
begin

text \<open>
  The streams of transfer sessions over time (\<^verbatim>\<open>internal/p2p/sessions.go\<close>, and the handler of new
  streams in \<^verbatim>\<open>internal/p2p/swarm.go\<close>). Every new stream is handled by a goroutine of its own, and
  \<^verbatim>\<open>AddStream\<close> holds no lock while it waits to send the stream on the session's channel, so the
  calls interleave.
\<close>

section \<open>The parts of \<^verbatim>\<open>AddStream\<close>\<close>

definition AddStream_find :: "SessionID \<Rightarrow> SessionManager \<Rightarrow> nat option" where
  "AddStream_find i sm = sessions sm i"

definition AddStream_add :: "nat \<Rightarrow> nat \<Rightarrow> SessionManager \<Rightarrow> SessionManager" where
  "AddStream_add a stream sm = update_session a (addStream stream) sm"

definition AddStream_send :: "nat \<Rightarrow> nat \<Rightarrow> SessionManager \<Rightarrow> SessionManager option" where
  "AddStream_send a stream sm =
     (if length (NewStreams (session_store sm ! a)) < NewStreams_capacity
      then Some (update_session a (\<lambda>t. t\<lparr>NewStreams := NewStreams t @ [stream]\<rparr>) sm)
      else None)"

lemma AddStream_parts:
  "AddStream i stream choice sm =
    (case AddStream_find i sm of
       None \<Rightarrow> Some (False, sm)
     | Some a \<Rightarrow>
         (let sm' = AddStream_add a stream sm
          in case choice of
               CaseSend \<Rightarrow> map_option (Pair True) (AddStream_send a stream sm')
             | CaseDone \<Rightarrow> if ts_done (session_store sm' ! a) then Some (False, sm') else None))"
  by (simp add: AddStream_def AddStream_find_def AddStream_add_def AddStream_send_def Let_def
      split: option.split select_case.split)

text \<open>The session that a stream asks for with its first message.\<close>

definition requested_session ::
  "uuid_lib \<Rightarrow> ContentMessage codec \<Rightarrow> (MessageType \<times> bytes) option \<Rightarrow> SessionID option" where
  "requested_session U C first =
     (case first of
        None \<Rightarrow> None
      | Some (t, payload) \<Rightarrow>
          if t = TypeStreamInitRequest then
            (case unmarshal C payload of
               Inl _ \<Rightarrow> None
             | Inr msg \<Rightarrow>
               (case cm_Payload msg of
                  Some (ContentMessage_ChunkReq req) \<Rightarrow>
                    (case uuid_ParseBytes U (cr_SessionId req) of Inl _ \<Rightarrow> None | Inr i \<Rightarrow> Some i)
                | _ \<Rightarrow> None))
          else None)"

lemma handler_requested:
  "requested_session U C first = Some i \<Longrightarrow>
    OnNewStream_handler U C stream first choice sm = AddStream i stream choice sm"
  "requested_session U C first = None \<Longrightarrow> \<exists>closed. OnNewStream_handler U C stream first choice sm = Some (closed, sm)"
  by (auto simp: requested_session_def OnNewStream_handler_def
      split: option.splits prod.splits if_splits sum.splits ContentPayload.splits bool.splits)

section \<open>The goroutines\<close>

text \<open>
  \<open>sw_found\<close> are the streams whose session, given by its address, was found in the map and to which
  they are not added yet, \<open>sw_waiting\<close> those that are added and wait to be sent on its channel; the other lists are the history of what was sent, was received by the user of the
  session, and was given up because the session is closed.
\<close>

record session_world =
  sw_manager :: SessionManager
  sw_found :: "(nat \<times> nat) list"
  sw_waiting :: "(nat \<times> nat) list"
  sw_queued :: "(nat \<times> nat) list"
  sw_taken :: "(nat \<times> nat) list"
  sw_refused :: "(nat \<times> nat) list"

definition new_session_world :: session_world where
  "new_session_world =
     \<lparr>sw_manager = NewSessionManager, sw_found = [], sw_waiting = [], sw_queued = [], sw_taken = [], sw_refused = []\<rparr>"

datatype session_event =
    SessCreate SessionID ContentHash PeerID
  | SessRegister SessionID nat
  | SessNewStream nat "(MessageType \<times> bytes) option"
  | SessAdd nat
  | SessQueue nat
  | SessRefuse nat
  | SessTake nat
  | SessClose nat

inductive session_step ::
  "uuid_lib \<Rightarrow> ContentMessage codec \<Rightarrow> session_world \<Rightarrow> session_event \<Rightarrow> session_world \<Rightarrow> bool" for U C where
  create: "session_step U C w (SessCreate i root peer)
    (w\<lparr>sw_manager := snd (CreateNewSession i root peer (sw_manager w))\<rparr>)"
| register: "a < length (session_store (sw_manager w)) \<Longrightarrow>
    session_step U C w (SessRegister i a) (w\<lparr>sw_manager := Session_Register i a (sw_manager w)\<rparr>)"
| ignored: "requested_session U C first = None \<Longrightarrow> session_step U C w (SessNewStream stream first) w"
| unknown: "requested_session U C first = Some i \<Longrightarrow> AddStream_find i (sw_manager w) = None \<Longrightarrow>
    session_step U C w (SessNewStream stream first) w"
| found: "requested_session U C first = Some i \<Longrightarrow> AddStream_find i (sw_manager w) = Some a \<Longrightarrow>
    session_step U C w (SessNewStream stream first) (w\<lparr>sw_found := sw_found w @ [(stream, a)]\<rparr>)"
| added: "n < length (sw_found w) \<Longrightarrow> sw_found w ! n = (stream, a) \<Longrightarrow>
    session_step U C w (SessAdd n)
      (w\<lparr>sw_manager := AddStream_add a stream (sw_manager w),
         sw_found := take n (sw_found w) @ drop (Suc n) (sw_found w),
         sw_waiting := sw_waiting w @ [(stream, a)]\<rparr>)"
| queue: "n < length (sw_waiting w) \<Longrightarrow> sw_waiting w ! n = (stream, a) \<Longrightarrow>
    AddStream_send a stream (sw_manager w) = Some sm \<Longrightarrow>
    session_step U C w (SessQueue n)
      (w\<lparr>sw_manager := sm, sw_waiting := take n (sw_waiting w) @ drop (Suc n) (sw_waiting w),
         sw_queued := sw_queued w @ [(stream, a)]\<rparr>)"
| refuse: "n < length (sw_waiting w) \<Longrightarrow> sw_waiting w ! n = (stream, a) \<Longrightarrow>
    ts_done (session_store (sw_manager w) ! a) \<Longrightarrow>
    session_step U C w (SessRefuse n)
      (w\<lparr>sw_waiting := take n (sw_waiting w) @ drop (Suc n) (sw_waiting w),
         sw_refused := sw_refused w @ [(stream, a)]\<rparr>)"
| take_stream: "a < length (session_store (sw_manager w)) \<Longrightarrow>
    NewStreams (session_store (sw_manager w) ! a) = stream # rest \<Longrightarrow>
    session_step U C w (SessTake a)
      (w\<lparr>sw_manager := update_session a (\<lambda>t. t\<lparr>NewStreams := rest\<rparr>) (sw_manager w),
         sw_taken := sw_taken w @ [(stream, a)]\<rparr>)"
| close: "a < length (session_store (sw_manager w)) \<Longrightarrow>
    session_step U C w (SessClose a)
      (w\<lparr>sw_manager := update_session a TransferSession_Close (sw_manager w)\<rparr>)"

inductive session_run ::
  "uuid_lib \<Rightarrow> ContentMessage codec \<Rightarrow> session_world \<Rightarrow> session_event list \<Rightarrow> session_world \<Rightarrow> bool" for U C where
  session_nil: "session_run U C w [] w"
| session_cons: "session_step U C w e w' \<Longrightarrow> session_run U C w' es w'' \<Longrightarrow> session_run U C w (e # es) w''"

section \<open>The invariant\<close>

text \<open>The streams in a list that belong to the session at an address.\<close>

definition streams_of :: "nat \<Rightarrow> (nat \<times> nat) list \<Rightarrow> nat list" where
  "streams_of a xs = map fst (filter (\<lambda>(s, b). b = a) xs)"

lemma streams_of_simps [simp]:
  "streams_of a [] = []" "streams_of a (xs @ ys) = streams_of a xs @ streams_of a ys"
  "streams_of a ((s, b) # xs) = (if b = a then s # streams_of a xs else streams_of a xs)"
  by (simp_all add: streams_of_def)

lemma streams_of_remove:
  assumes "n < length xs" and "xs ! n = (s, b)"
  shows "mset (streams_of a xs) = mset (streams_of a (take n xs @ drop (Suc n) xs)) + (if b = a then {#s#} else {#})"
  by (subst id_take_nth_drop [OF assms(1)]) (simp add: assms(2) del: take_drop)

lemma streams_of_none: "\<forall>x \<in> set xs. snd x < a \<Longrightarrow> streams_of a xs = []"
  by (induction xs) auto

definition session_ok :: "session_world \<Rightarrow> nat \<Rightarrow> bool" where
  "session_ok w a \<longleftrightarrow>
     (let t = session_store (sw_manager w) ! a
      in length (NewStreams t) \<le> NewStreams_capacity \<and>
         streams_of a (sw_queued w) = streams_of a (sw_taken w) @ NewStreams t \<and>
         mset (ts_Streams t) =
           mset (streams_of a (sw_queued w)) + mset (streams_of a (sw_waiting w)) + mset (streams_of a (sw_refused w)))"

definition world_ok :: "session_world \<Rightarrow> bool" where
  "world_ok w \<longleftrightarrow>
     (\<forall>i a. sessions (sw_manager w) i = Some a \<longrightarrow> a < length (session_store (sw_manager w))) \<and>
     (\<forall>x \<in> set (sw_found w @ sw_waiting w @ sw_queued w @ sw_taken w @ sw_refused w). snd x < length (session_store (sw_manager w))) \<and>
     (\<forall>a < length (session_store (sw_manager w)). session_ok w a)"

lemma world_okD:
  assumes "world_ok w"
  shows "sessions (sw_manager w) i = Some a \<Longrightarrow> a < length (session_store (sw_manager w))"
    and "x \<in> set (sw_found w) \<union> set (sw_waiting w) \<union> set (sw_queued w) \<union> set (sw_taken w) \<union> set (sw_refused w) \<Longrightarrow>
      snd x < length (session_store (sw_manager w))"
    and "a < length (session_store (sw_manager w)) \<Longrightarrow> session_ok w a"
  using assms by (auto simp: world_ok_def)

lemma AddStream_sendD:
  assumes "AddStream_send a stream sm = Some sm'"
  shows "length (NewStreams (session_store sm ! a)) < NewStreams_capacity \<and>
    sm' = update_session a (\<lambda>t. t\<lparr>NewStreams := NewStreams t @ [stream]\<rparr>) sm"
  using assms by (auto simp: AddStream_send_def split: if_splits)

lemma set_remove: "set (take n xs @ drop (Suc n) xs) \<subseteq> set xs"
  using set_take_subset [of n xs] set_drop_subset [of "Suc n" xs] by auto

lemma world_ok_step:
  assumes "session_step U C w e w'" and ok: "world_ok w"
  shows "world_ok w'"
  using assms
proof (induction rule: session_step.induct)
  case (create w i root peer)
  let ?n = "length (session_store (sw_manager w))"
  have "\<forall>x \<in> set xs. snd x < ?n" if "set xs \<subseteq> set (sw_waiting w) \<union> set (sw_queued w) \<union> set (sw_taken w) \<union> set (sw_refused w)" for xs
    using world_okD(2) [OF create] that by blast
  then have none: "streams_of ?n (sw_waiting w) = []" "streams_of ?n (sw_queued w) = []"
    "streams_of ?n (sw_taken w) = []" "streams_of ?n (sw_refused w) = []"
    by (auto intro!: streams_of_none)
  have "session_ok (w\<lparr>sw_manager := snd (CreateNewSession i root peer (sw_manager w))\<rparr>) a" if "a < Suc ?n" for a
  proof (cases "a = ?n")
    case True
    with none show ?thesis
      by (simp add: session_ok_def CreateNewSession_def NewTransferSession_def Let_def)
  next
    case False
    with that world_okD(3) [OF create, of a] show ?thesis
      by (simp add: session_ok_def CreateNewSession_def Let_def nth_append)
  qed
  then show ?case
    using create by (auto simp: world_ok_def CreateNewSession_def Let_def less_Suc_eq split: if_splits)
next
  case (register a w i)
  then show ?case by (auto simp: world_ok_def session_ok_def Session_Register_def split: if_splits)
next
  case (ignored first w stream)
  then show ?case by simp
next
  case (unknown first i w stream)
  then show ?case by simp
next
  case (found first i w b stream)
  then show ?case
    using world_okD(1) [OF found(3), of i b] by (auto simp: world_ok_def session_ok_def AddStream_find_def)
next
  case (added n w stream b)
  let ?rest = "take n (sw_found w) @ drop (Suc n) (sw_found w)"
  have "(stream, b) \<in> set (sw_found w)" using nth_mem [OF added(1)] added(2) by simp
  with world_okD(2) [OF added(3)] have b: "b < length (session_store (sw_manager w))" by fastforce
  have "session_ok (w\<lparr>sw_manager := AddStream_add b stream (sw_manager w), sw_found := ?rest,
      sw_waiting := sw_waiting w @ [(stream, b)]\<rparr>) a"
    if "a < length (session_store (sw_manager w))" for a
    using world_okD(3) [OF added(3) that] b
    by (cases "a = b") (simp_all add: session_ok_def AddStream_add_def addStream_def Let_def del: take_drop)
  then show ?case using added(3) b set_remove [of n "sw_found w"] by (auto simp: world_ok_def AddStream_add_def)
next
  case (queue n w stream b sm)
  let ?rest = "take n (sw_waiting w) @ drop (Suc n) (sw_waiting w)"
  have sm: "sm = update_session b (\<lambda>t. t\<lparr>NewStreams := NewStreams t @ [stream]\<rparr>) (sw_manager w)"
    and room: "length (NewStreams (session_store (sw_manager w) ! b)) < NewStreams_capacity"
    using AddStream_sendD [OF queue(3)] by simp_all
  have b: "b < length (session_store (sw_manager w))"
    using world_okD(2) [OF queue(4), of "(stream, b)"] nth_mem [OF queue(1)] queue(2) by auto
  have "session_ok (w\<lparr>sw_manager := sm, sw_waiting := ?rest, sw_queued := sw_queued w @ [(stream, b)]\<rparr>) a"
    if "a < length (session_store (sw_manager w))" for a
    using world_okD(3) [OF queue(4) that] b room streams_of_remove [OF queue(1,2), of a]
    by (cases "a = b") (simp_all add: session_ok_def sm Let_def del: streams_of_simps(2) add: streams_of_simps(2) [of _ "sw_queued w"])
  then show ?case using queue(4) b set_remove [of n "sw_waiting w"] by (auto simp: world_ok_def sm)
next
  case (refuse n w stream b)
  let ?rest = "take n (sw_waiting w) @ drop (Suc n) (sw_waiting w)"
  have b: "b < length (session_store (sw_manager w))"
    using world_okD(2) [OF refuse(4), of "(stream, b)"] nth_mem [OF refuse(1)] refuse(2) by auto
  have "session_ok (w\<lparr>sw_waiting := ?rest, sw_refused := sw_refused w @ [(stream, b)]\<rparr>) a"
    if "a < length (session_store (sw_manager w))" for a
    using world_okD(3) [OF refuse(4) that] b streams_of_remove [OF refuse(1,2), of a]
    by (cases "a = b") (simp_all add: session_ok_def Let_def del: streams_of_simps(2) add: streams_of_simps(2) [of _ "sw_refused w"])
  then show ?case using refuse(4) b set_remove [of n "sw_waiting w"] by (auto simp: world_ok_def)
next
  case (take_stream b w stream rest)
  have "session_ok (w\<lparr>sw_manager := update_session b (\<lambda>t. t\<lparr>NewStreams := rest\<rparr>) (sw_manager w),
      sw_taken := sw_taken w @ [(stream, b)]\<rparr>) a" if "a < length (session_store (sw_manager w))" for a
    using world_okD(3) [OF take_stream(3) that] take_stream(1,2)
    by (cases "a = b") (simp_all add: session_ok_def Let_def)
  then show ?case using take_stream(1,3) by (auto simp: world_ok_def)
next
  case (close b w)
  have "session_ok (w\<lparr>sw_manager := update_session b TransferSession_Close (sw_manager w)\<rparr>) a"
    if "a < length (session_store (sw_manager w))" for a
    using world_okD(3) [OF close(2) that] close(1)
    by (cases "a = b") (simp_all add: session_ok_def TransferSession_Close_def Let_def)
  then show ?case using close(2) by (auto simp: world_ok_def)
qed

lemma world_ok_run: "session_run U C w es w' \<Longrightarrow> world_ok w \<Longrightarrow> world_ok w'"
  by (induction rule: session_run.induct) (simp_all add: world_ok_step)

section \<open>The property\<close>

text \<open>
  C30. No stream of a session is lost, however the goroutines interleave: every session in the map
  exists, and in every session the channel of new streams holds at most ten, the streams that were
  sent on the channel are, in order, those that the user has received followed by those in the
  channel, and every stream that was added was sent, waits to be sent, or was given up because the
  session is closed. (The order in which they were added is not kept.)
\<close>

theorem session_streams_conserved:
  assumes "session_run U C new_session_world es w" and "t = session_store (sw_manager w) ! a"
  shows "(\<forall>i b. sessions (sw_manager w) i = Some b \<longrightarrow> b < length (session_store (sw_manager w))) \<and>
    (a < length (session_store (sw_manager w)) \<longrightarrow>
      length (NewStreams t) \<le> 10 \<and>
      streams_of a (sw_queued w) = streams_of a (sw_taken w) @ NewStreams t \<and>
      mset (ts_Streams t) = mset (streams_of a (sw_queued w)) + mset (streams_of a (sw_waiting w)) +
        mset (streams_of a (sw_refused w)))"
proof -
  have "world_ok new_session_world" by (simp add: world_ok_def new_session_world_def NewSessionManager_def)
  from world_ok_run [OF assms(1) this] assms(2) show ?thesis
    by (auto simp: world_ok_def session_ok_def Let_def NewStreams_capacity_def)
qed

text \<open>Two streams that ask for the same session; the second is sent on the channel first.\<close>

definition demo_session :: "nat list \<Rightarrow> nat list \<Rightarrow> SessionManager" where
  "demo_session added queued =
     \<lparr>sessions = [replicate 16 7 \<mapsto> 0], session_store = [(NewTransferSession (replicate 16 7) zero32 zero32 True)
       \<lparr>ts_Streams := added, NewStreams := queued\<rparr>]\<rparr>"

lemma demo_request: "\<exists>b. requested_session demo_uuid cm_codec (Some (TypeStreamInitRequest, b)) = Some (replicate 16 7)"
proof -
  let ?msg = "\<lparr>cm_Payload = Some (ContentMessage_ChunkReq \<lparr>cr_SessionId = replicate 32 7, ChunkHash = []\<rparr>)\<rparr>"
  obtain b where "marshal cm_codec ?msg = Inr b" using codecs_total(7) by blast
  then have "unmarshal cm_codec b = Inr ?msg" by (rule codec_roundtrip [OF cm_codec_documented])
  then have "requested_session demo_uuid cm_codec (Some (TypeStreamInitRequest, b)) = Some (replicate 16 7)"
    by (simp add: requested_session_def demo_uuid_def)
  then show ?thesis ..
qed

theorem session_streams_conserved_witness:
  "\<exists>first w. session_run demo_uuid cm_codec new_session_world
       [SessCreate (replicate 16 7) zero32 zero32, SessNewStream 2 first, SessNewStream 3 first,
        SessAdd 0, SessAdd 0, SessQueue 1, SessQueue 0] w \<and>
     sw_manager w = demo_session [2, 3] [3, 2] \<and> streams_of 0 (sw_queued w) = [3, 2]"
proof -
  obtain b where req: "requested_session demo_uuid cm_codec (Some (TypeStreamInitRequest, b)) = Some (replicate 16 7)"
    using demo_request by blast
  let ?first = "Some (TypeStreamInitRequest, b)"
  let ?w = "\<lambda>sm found waiting queued. \<lparr>sw_manager = sm, sw_found = found, sw_waiting = waiting, sw_queued = queued,
    sw_taken = [], sw_refused = []\<rparr>"
  let ?R = "session_step demo_uuid cm_codec"
  have found: "AddStream_find (replicate 16 7) (demo_session xs []) = Some 0" for xs
    by (simp add: AddStream_find_def demo_session_def)
  have add: "AddStream_add 0 s (demo_session xs []) = demo_session (xs @ [s]) []" for s xs
    by (simp add: AddStream_add_def demo_session_def update_session_def addStream_def)
  have snd: "AddStream_send 0 s (demo_session xs q) = Some (demo_session xs (q @ [s]))" if "length q < 10" for s xs q
    using that by (simp add: AddStream_send_def demo_session_def update_session_def NewStreams_capacity_def)
  let ?w1 = "?w (demo_session [] []) [] [] []" and ?w2 = "?w (demo_session [] []) [(2, 0)] [] []"
    and ?w3 = "?w (demo_session [] []) [(2, 0), (3, 0)] [] []" and ?w4 = "?w (demo_session [2] []) [(3, 0)] [(2, 0)] []"
    and ?w5 = "?w (demo_session [2, 3] []) [] [(2, 0), (3, 0)] []"
    and ?w6 = "?w (demo_session [2, 3] [3]) [] [(2, 0)] [(3, 0)]"
    and ?w7 = "?w (demo_session [2, 3] [3, 2]) [] [] [(3, 0), (2, 0)]"
  have 1: "?R new_session_world (SessCreate (replicate 16 7) zero32 zero32) ?w1"
    using session_step.create [of demo_uuid cm_codec new_session_world "replicate 16 7" zero32 zero32]
    by (simp add: new_session_world_def CreateNewSession_def NewSessionManager_def demo_session_def
        NewTransferSession_def Let_def)
  have 2: "?R ?w1 (SessNewStream 2 ?first) ?w2"
    using session_step.found [OF req, of ?w1 0 2] found [of "[]"] by simp
  have 3: "?R ?w2 (SessNewStream 3 ?first) ?w3"
    using session_step.found [OF req, of ?w2 0 3] found [of "[]"] by simp
  have 4: "?R ?w3 (SessAdd 0) ?w4"
    using session_step.added [of 0 ?w3 2 0 demo_uuid cm_codec] add [of 2 "[]"] by simp
  have 5: "?R ?w4 (SessAdd 0) ?w5"
    using session_step.added [of 0 ?w4 3 0 demo_uuid cm_codec] add [of 3 "[2]"] by simp
  have 6: "?R ?w5 (SessQueue 1) ?w6"
    using session_step.queue [of 1 ?w5 3 0] snd [of "[]" 3 "[2, 3]"] by simp
  have 7: "?R ?w6 (SessQueue 0) ?w7"
    using session_step.queue [of 0 ?w6 2 0] snd [of "[3]" 2 "[2, 3]"] by simp
  note run = session_cons [OF 1 session_cons [OF 2 session_cons [OF 3 session_cons [OF 4
    session_cons [OF 5 session_cons [OF 6 session_cons [OF 7 session_nil]]]]]]]
  from session_streams_conserved [OF run refl, of 0]
  have "streams_of 0 (sw_queued ?w7) = [3, 2]" by (simp add: demo_session_def)
  moreover have "sw_manager ?w7 = demo_session [2, 3] [3, 2]" by simp
  ultimately show ?thesis using run by blast
qed

end
