(* ===== verification/Spec2Isabelle.thy ===== *)
theory Spec2Isabelle
  imports Connections Content Flooding Garbage Command Well_Typed Registration Dht_Spec Gossip_Calls
    Session_Streams
begin

text \<open>
  EchoFog is a peer-to-peer node written in Go. Nodes find each other, authenticate connections
  over QUIC with their Ed25519 identities, flood signed messages, exchange encrypted chat
  messages, and keep files and peers in a local store with the layout of a Kademlia table.

  \<^bold>\<open>The parts and their theories.\<close>

  \<^item> \<open>Prelude\<close>: bytes, errors and panics as values (\<open>result\<close>), arrays and slices, big-endian
    integers, hexadecimal and decimal text; \<open>Hashes\<close>: SHA-256 and SHA-512, executable.
  \<^item> \<open>Types\<close>: \<^verbatim>\<open>pkg/api/types/types.go\<close>. \<open>Messages\<close>: the message types of the \<^verbatim>\<open>*.pb.go\<close> files,
    and \<open>codec\<close>, the protobuf runtime, as a parameter. \<open>Wire_Instance\<close>: one codec for every type, on
    which the hypothesis about the runtime is proved; concrete runs use it.
  \<^item> \<open>Storage\<close>: \<^verbatim>\<open>internal/storage\<close>. The database is a parameter; the locale \<open>badger_db\<close> states what
    is relied on, \<open>kv_storage\<close> is the contract of the \<^verbatim>\<open>Storage\<close> interface that its clients use, and
    \<open>badger_kv\<close> that \<^verbatim>\<open>BadgerStorage\<close> keeps it. An association list is an instance of \<open>badger_db\<close>.
    \<open>Garbage\<close>: its garbage collecting worker.
  \<^item> \<open>Framing\<close>: \<^verbatim>\<open>length-prefix.go\<close>, \<^verbatim>\<open>quic_frame.go\<close> and the read loop of \<^verbatim>\<open>stream.go\<close>.
    \<open>Tls_Config\<close>: \<^verbatim>\<open>GenerateTLSConfig\<close> and what TLS accepts under it. \<open>Handshake\<close>: \<^verbatim>\<open>handshake.go\<close> and the \<^verbatim>\<open>QuicTransport\<close> of \<^verbatim>\<open>quic.go\<close>. \<open>Streams\<close>: \<^verbatim>\<open>stream.go\<close>
    and the \<^verbatim>\<open>PeerWrapper\<close>. \<open>Connections\<close>: its accepting loops and the path of a gossip frame.
  \<^item> \<open>Crypto\<close>: \<^verbatim>\<open>signature.go\<close> and \<^verbatim>\<open>engine.go\<close>. \<open>Keystore\<close>: \<^verbatim>\<open>security_keys.go\<close>.
  \<^item> \<open>Kademlia\<close>, \<open>Routing_Table\<close>, \<open>Merkle_Dag\<close>, \<open>Dht\<close>: the files of \<^verbatim>\<open>internal/p2p/dht\<close>.
    \<open>Dht_Spec\<close>: what they promise together, as a machine over a table and a map of files, and the
    simulation of that machine by the code.
  \<^item> \<open>Dispatcher\<close>: \<^verbatim>\<open>internal/dispatcher\<close>; the locale \<open>service\<close> is the contract of a service, with
    the chat and the discovery service as interpretations. \<open>Sessions\<close>, \<open>Swarm\<close>, \<open>Gossip\<close>: the
    files of \<^verbatim>\<open>internal/p2p\<close>. \<open>Messenger\<close>, \<open>Discovery\<close>: the services. \<open>Logger\<close>, \<open>Config\<close>: the packages
    of that name. \<open>Registration\<close>: the goroutines that announce connections, the registration loop
    with the two critical sections of \<^verbatim>\<open>AddPeer\<close>, and the lock of the swarm. \<open>Gossip_Calls\<close>: many
    goroutines that call one gossip manager. \<open>Session_Streams\<close>: the streams of sessions, with a
    goroutine for each new stream. \<open>Content\<close>: the services that are not written yet, and the
    machine's addresses.
    \<open>Node\<close>: \<^verbatim>\<open>pkg/node/node.go\<close>. \<open>Command\<close>: \<^verbatim>\<open>cmd/app/main.go\<close> and the buffer pool;
    \<open>Scanning\<close>: the scanning of its input line, with the coding of runes.
  \<^item> \<open>Flooding\<close>: many nodes with the managers of \<open>Gossip\<close>, and the copies that are in flight between
    them. \<open>Well_Typed\<close>: types for what nodes send each other, and the life of a node's application.

  \<^bold>\<open>How they interact.\<close> \<open>Node_Start\<close> unlocks the identity (\<open>GetOrGenerateKeys\<close>) and registers the
  services with the dispatcher. The transport authenticates a connection (\<open>DialEarly\<close>,
  \<open>AcceptConn_handler\<close>) and announces it (\<open>newConn\<close>); the swarm registers it (\<open>registration_step\<close>).
  A chat message is encrypted (\<open>Encrypt\<close>), flooded (\<open>Broadcast\<close>), signed and written as a frame
  (\<open>SendDataForPeer\<close>, \<open>SendGossipMessage\<close>), read (\<open>handleGossipStream\<close>), queued (\<open>OnData_handler\<close>,
  \<open>PushMessage\<close>), verified (\<open>processPacket\<close>) and decrypted by the handler (\<open>Messenger_Handle\<close>).

  \<^bold>\<open>Conventions.\<close> A function that can fail returns \<open>exn + 'a\<close>, where \<open>exn\<close> is an error or a
  panic. Effects are returned states; the store is a value of a type variable. Random bytes, times,
  the order in which a map is visited and the outcomes of the network are inputs. Goroutines that
  share state are step relations with their histories (\<open>dispatch_step\<close>, \<open>stream_step\<close>, \<open>reg_step\<close>,
  \<open>gossip_step\<close>, \<open>session_step\<close>, \<open>gc_step\<close>), as is the delivery of messages between nodes (\<open>deliver\<close>); peers,
  sessions and arrays that are shared by pointer live in explicit heaps. Loops are structural
  recursions over what they read, except the read loop of a stream, the loop over the bytes of an
  identifier, the loop that cuts a file into chunks and the decoding of runes, whose termination is
  proved with the number of bytes left as measure, and the loop of the garbage collector, which may
  not end: each call is a step of \<open>gc_step\<close>. No definition of the program uses fuel; the decoder of lists in
  \<open>Wire_Instance\<close> has the length of its input as fuel, which \<open>dec_list_fuel_enough\<close> shows is enough.

  \<^bold>\<open>What the lemmas show.\<close> Per theory: the round trips of framing, encryption, files, configuration
  and discovery records; the invariants of the k-buckets, of the swarm's heap of peers, of the
  sessions, of a stream and of the queue of the dispatcher; the exact conditions under which reading
  a frame, checking a handshake, processing a packet and handling a chat message panic; and
  where the code does not do what it means to, a theorem that says what it does. A flood of a
  message through a network of nodes ends after a bounded number of deliveries and reaches every
  node when the hop limit is at least the number of nodes, and none that is as many links away as the
  hop limit; nodes that send each other only what
  the program makes them send do not crash. Registrations behave as if they were atomic, and every
  connection that is announced is registered, unless a search for peers has kept the lock, and then
  none is. However the calls of a gossip manager interleave, they send no peer a message twice,
  and no stream of a session is lost. The hash table refines a table of bounded lists and a map of
  files. The first word of the command's input line unlocks the identity, again and again. The present
  theory has the properties that span components: a chat message from the sender's text to the recipient's
  log, what a peer that the swarm knows has proved about itself, and that the handshake signs
  whatever a peer asks for.

  \<^bold>\<open>Parameters and hypotheses.\<close> \<open>codec_documented\<close>: the protobuf runtime decodes what it encoded and
  does not panic. \<open>badger_db\<close>: the database is a map, and a failed operation changes nothing.
  \<open>ed_documented\<close>, \<open>kx_documented\<close>, \<open>secretbox_documented\<close>: signatures verify, key agreement is
  symmetric, opening inverts sealing. \<open>uuid_documented\<close>: the lengths of identifiers.
  \<open>gc_documented\<close>: a collection changes nothing that is stored. \<open>machine_up\<close>: a start at which
  certificate, socket and listener are available. Each has a
  concrete instance (\<open>demo_ed\<close>, \<open>demo_kx\<close>, \<open>demo_box\<close>, \<open>demo_uuid\<close>, \<open>mem_badger\<close>) that the witnesses
  use. Collisions of SHA-256 are excluded only as a hypothesis on the values at hand.

  \<^bold>\<open>Not modelled.\<close> The reflection glue and accessors of the generated protobuf code, whose types are
  in \<open>Messages\<close>; the encoding of certificates, the QUIC and STUN libraries and the sockets of the
  operating system, which are arguments; the attributes of log messages; the methods with empty
  bodies. Timeouts occur as outcomes, not as durations.
\<close>

section \<open>From the sender's text to the recipient's log\<close>

text \<open>The engine of a started node belongs to its identity.\<close>

lemma node_engine:
  assumes "Node_Start N password entropy salt nonce (Inr db) now udp listen = Inr node"
  obtains eng pub svc where "NewEngine (ne_K N) (node_PrivKey node) = Inr eng"
    "node_Messenger node = NewMessageService (node_PrivKey node) eng"
    "node_PubKey node = PeerPrivateKeyToPublic (node_PrivKey node)"
    "node_Dispatcher node = register_services N pub (node_Messenger node) (NewDispatcher (ne_numCPU N))"
proof -
  obtain k eng where len: "64 \<le> length k" and k: "NewEngine (ne_K N) k = Inr eng" "node_PrivKey node = take 64 k"
    "node_PubKey node = PeerPrivateKeyToPublic (take 64 k)" "node_Messenger node = NewMessageService (take 64 k) eng"
    "node_Dispatcher node = register_services N (node_PubKey node) (node_Messenger node) (NewDispatcher (ne_numCPU N))"
    by (rule Node_StartE [OF assms]) blast
  moreover have "edPrivToX25519 (take 64 k) = edPrivToX25519 k" by (simp add: edPrivToX25519_def)
  ultimately show thesis using that len by (simp add: NewEngine_def)
qed

text \<open>What a frame with a signed message does at the node that reads it.\<close>

lemma frame_reaches_handler:
  assumes V: "codec_documented V" and b: "marshal V env = Inr b" and m: "authentic M E env m"
    and t: "framable (t, b)" and q: "rbuf q = frame t b" and room: "length (ingressChan d) < ingress_capacity"
  shows "handleGossipStream (OnNewStream (OnData (NewPeerWrapper c))) q = (None, Some (t, b, zero32)) \<and>
    OnData_handler V t b zero32 d =
      (None, d\<lparr>ingressChan := ingressChan d @ [\<lparr>ip_Envelope = env, ip_PeerID = zero32\<rparr>]\<rparr>) \<and>
    processPacket M E d \<lparr>ip_Envelope = env, ip_PeerID = zero32\<rparr> st = route d m zero32 st"
proof -
  have "handleGossipStream (OnNewStream (OnData (NewPeerWrapper c))) q = (None, Some (t, b, zero32))"
    using handleGossipStream_frame [of q t b "[]" "OnNewStream (OnData (NewPeerWrapper c))"] q t by simp
  moreover have "unmarshal V b = Inr env" by (rule codec_roundtrip [OF V b])
  moreover have "processPacket M E d \<lparr>ip_Envelope = env, ip_PeerID = zero32\<rparr> st = route d m zero32 st"
    using processPacket_authentic [of M E "\<lparr>ip_Envelope = env, ip_PeerID = zero32\<rparr>"] m by simp
  ultimately show ?thesis using room by (simp add: OnData_handler_def PushMessage_def)
qed

text \<open>
  C1. A chat message arrives: let two nodes have started, and let the first send a text to the
  public key of the second. Every send that the broadcast put into the outbox is, once the swarm
  has signed it and written it on a fresh stream, a frame that the second node reads, queues and
  processes, and its chat handler appends exactly that text to its log, without a panic. The
  peer the packet is attributed to is the zero identifier, whoever sent it.
\<close>

theorem chat_end_to_end:
  assumes "ed_documented (ne_E N) keypair" and "kx_documented (ne_K N) keypair"
    and "codec_documented (ne_M N)" and "codec_documented (ne_V N)"
    and "Node_Start N pwa ea sla na (Inr dba) nowa udpa lisa = Inr a"
    and "Node_Start N pwb eb slb nb (Inr dbb) nowb udpb lisb = Inr b"
    and "keypair (node_PrivKey a)" and "keypair (node_PrivKey b)"
    and "myPrivKey (app_swarm sta) = node_PrivKey a"
    and "Messenger_Send (ne_K N) U (node_Messenger a) (Inr nonce) i now order (node_PubKey b) data sta = (Inr (), sta')"
    and "length nonce = gcm_NonceSize" and "x \<in> set (drop (length (outbox sta)) (outbox sta'))"
    and "SendDataForPeer (ne_M N) (ne_V N) (ne_E N) (to_peer x) (send_type x) (send_msg x) (Inr q) (Inr ())
      (app_swarm sta') = (Inr (), Some q')"
    and "wbuf q = []" and "wlimit q = None" and "length (wbuf q') < 2 ^ 32" and "rbuf qb = wbuf q'"
    and "length (ingressChan d) < ingress_capacity" and "handlers d = handlers (node_Dispatcher b)"
  shows "\<exists>payload packet.
    handleGossipStream (OnNewStream (OnData (NewPeerWrapper c))) qb = (None, Some (TypeChatMessage, payload, zero32)) \<and>
    OnData_handler (ne_V N) TypeChatMessage payload zero32 d = (None, d\<lparr>ingressChan := ingressChan d @ [packet]\<rparr>) \<and>
    processPacket (ne_M N) (ne_E N) d packet stb = (None, stb\<lparr>inbox := inbox stb @ [data]\<rparr>)"
proof -
  obtain enga where a: "NewEngine (ne_K N) (node_PrivKey a) = Inr enga"
    "node_Messenger a = NewMessageService (node_PrivKey a) enga"
    by (rule node_engine [OF assms(5)]) blast
  obtain engb pub where b: "NewEngine (ne_K N) (node_PrivKey b) = Inr engb"
    "node_Messenger b = NewMessageService (node_PrivKey b) engb"
    "node_PubKey b = PeerPrivateKeyToPublic (node_PrivKey b)"
    "node_Dispatcher b = register_services N pub (node_Messenger b) (NewDispatcher (ne_numCPU N))"
    by (rule node_engine [OF assms(6)]) blast
  let ?pa = "PeerPrivateKeyToPublic (node_PrivKey a)"
  obtain ct sends where ct: "Encrypt (ne_K N) enga data (node_PubKey b) (Inr nonce) = Inr ct"
    and out: "outbox sta' = outbox sta @ sends" "app_swarm sta' = app_swarm sta"
    and sends: "\<And>x. x \<in> set sends \<Longrightarrow> send_type x = TypeChatMessage \<and>
      send_msg x = (PackChatMessage i now ct ?pa (node_PubKey b))\<lparr>HopLimit := 19\<rparr>"
    by (rule Messenger_Send_sends [OF assms(10)]) (simp add: a NewMessageService_def)
  have len: "length (node_PrivKey a) = 64" "length (node_PrivKey b) = 64"
    using keypair_length [OF assms(1)] assms(7,8) by blast+
  have x: "send_type x = TypeChatMessage" "Payload (send_msg x) = Some (MessageData_ChatMessage \<lparr>EncryptedPayload = ct\<rparr>)"
    "OriginId (send_msg x) = ?pa"
    using sends [of x] assms(12) out(1) by simp_all
  obtain env bs where env: "signMessageData (ne_M N) (ne_E N) (send_msg x) (app_swarm sta') = Inr env"
    and bs: "marshal (ne_V N) env = Inr bs" "wbuf q' = frame TypeChatMessage bs"
    by (rule SendDataForPeer_writes [OF assms(13,15)]) (simp add: assms(14) x(1))
  have auth: "authentic (ne_M N) (ne_E N) env (send_msg x)"
    using signMessageData_authentic [OF assms(3,1) _ env] assms(7,9) out(2) by simp
  have framable: "framable (TypeChatMessage, bs)"
    using assms(16) bs(2) by (simp add: framable_def frame_def msgtype_defs)
  have "Decrypt (ne_K N) engb ct ?pa = Inr data"
    using Decrypt_of_Encrypt [OF assms(2,7,8) len a(1) b(1)] ct b(3) assms(11) by simp
  then have handled: "Messenger_Handle (ne_K N) (node_Messenger b) (send_msg x) zero32 stb =
      (None, stb\<lparr>inbox := inbox stb @ [data]\<rparr>)"
    by (intro Messenger_Handle_chat [OF x(2,3)]) (simp_all add: b(2) NewMessageService_def len(1) PeerPrivateKeyToPublic_eq)
  have "route d (send_msg x) zero32 stb = (None, stb\<lparr>inbox := inbox stb @ [data]\<rparr>)"
    using handled assms(19) b(4) x(2) by (simp add: route_def TypeOf_def register_services_handlers)
  then show ?thesis
    using frame_reaches_handler [OF assms(4) bs(1) auth framable _ assms(18), of qb c stb] assms(17) bs(2) by auto
qed

text \<open>Two concrete nodes, and the state of the first: one peer is connected.\<close>

definition demo_sender :: "(memdb, nat) app_state" where
  "demo_sender = (demo_app 1)\<lparr>app_swarm := (app_swarm (demo_app 1))\<lparr>activePeers := [zero32 \<mapsto> 0],
     peer_heap := [(NewPeer [1] [] True)\<lparr>p_id := zero32\<rparr>]\<rparr>\<rparr>"

lemma zero32_no_key: "zero32 \<noteq> PeerPrivateKeyToPublic (demo_key x)"
proof
  assume "zero32 = PeerPrivateKeyToPublic (demo_key x)"
  then have "edPrivToX25519 (replicate 32 x) ! 31 = zero32 ! 31" by (simp add: PeerPrivateKeyToPublic_eq demo_key_def)
  moreover have "edPrivToX25519 (replicate 32 x) ! 31 AND 64 = 64"
    by (simp add: edPrivToX25519_def Let_def bit_simps)
  ultimately show False by (simp add: zero32_def)
qed

lemma demo_sender_sends:
  assumes "length i = 16"
  shows "\<exists>ct. length ct = 12 + (length data + 32) \<and>
    Messenger_Send demo_kx demo_uuid (demo_service 1) (Inr (replicate 12 7)) i 9 [zero32]
      (PeerPrivateKeyToPublic (demo_key 2)) data demo_sender =
    (Inr (), demo_sender\<lparr>app_gossip := \<lparr>seenCache = (\<lambda>_. False)(i := True)\<rparr>,
       outbox := [\<lparr>to_peer = zero32, send_type = TypeChatMessage,
         send_msg = (PackChatMessage i 9 ct (PeerPrivateKeyToPublic (demo_key 1))
           (PeerPrivateKeyToPublic (demo_key 2)))\<lparr>HopLimit := 19\<rparr>\<rparr>]\<rparr>)"
proof -
  have "\<exists>ct. length ct = 12 + (length data + 32) \<and> Encrypt demo_kx \<lparr>myDiffieHellmanKey = edPrivToX25519 (demo_key 1)\<rparr>
      data (PeerPrivateKeyToPublic (demo_key 2)) (Inr (replicate 12 7)) = Inr ct"
    by (simp add: Encrypt_def computeSharedKey_def EdPubKeyToX25519_def demo_kx_def)
  then obtain ct where ct: "length ct = 12 + (length data + 32)" "Encrypt demo_kx
      \<lparr>myDiffieHellmanKey = edPrivToX25519 (demo_key 1)\<rparr> data (PeerPrivateKeyToPublic (demo_key 2)) (Inr (replicate 12 7)) = Inr ct"
    by blast
  let ?m = "PackChatMessage i 9 ct (PeerPrivateKeyToPublic (demo_key 1)) (PeerPrivateKeyToPublic (demo_key 2))"
  have len: "length (PeerPrivateKeyToPublic (demo_key 1)) = 32" by (simp add: PeerPrivateKeyToPublic_eq)
  have "Broadcast demo_uuid [zero32] (app_swarm demo_sender) TypeChatMessage ?m NewManager =
    (None, [\<lparr>to_peer = zero32, send_type = TypeChatMessage, send_msg = ?m\<lparr>HopLimit := 19\<rparr>\<rparr>], ?m\<lparr>HopLimit := 19\<rparr>,
      \<lparr>seenCache = (\<lambda>_. False)(i := True)\<rparr>)"
    using assms len zero32_no_key [of 1]
    by (subst Broadcast_fresh) (simp_all add: demo_uuid_def NewManager_def demo_sender_def GetAllPeers_def
        broadcast_loop_long Let_def)
  then show ?thesis
    using ct by (intro exI [of _ ct]) (simp add: Messenger_Send_def demo_service_def NewMessageService_def demo_sender_def
        demo_app_def)
qed

lemma demo_sender_writes:
  assumes "length (EncryptedPayload c) < 1000" and "length i = 16" and "m = \<lparr>MessageId = i, OriginId = o1, TargetId = o2,
    Timestamp = t, HopLimit = h, Payload = Some (MessageData_ChatMessage c)\<rparr>" and "length o1 = 32" and "length o2 = 32"
  shows "\<exists>q'. SendDataForPeer msg_codec env_codec demo_ed zero32 TypeChatMessage m (Inr demo_stream) (Inr ())
      (app_swarm demo_sender) = (Inr (), Some q') \<and> length (wbuf q') < 2 ^ 32"
proof -
  obtain b where b: "marshal msg_codec m = Inr b" "length b < 2300"
    using assms by (simp add: msg_codec_def wire_codec_def rep_msg_def enc_pair_def enc_payload_def)
  have "CreateSignature demo_ed b (demo_key 1) = Inr (sha512 (PeerPrivateKeyToPublic (demo_key 1) @ b))"
    by (simp add: CreateSignature_def PrivateKeySize_def demo_ed_def PeerPrivateKeyToPublic_eq)
  moreover have "myPrivKey (app_swarm demo_sender) = demo_key 1" by (simp add: demo_sender_def demo_app_def)
  ultimately have "signMessageData msg_codec demo_ed m (app_swarm demo_sender) =
      Inr \<lparr>env_Data = b, env_Signature = sha512 (PeerPrivateKeyToPublic (demo_key 1) @ b),
        env_PubKey = PeerPrivateKeyToPublic (demo_key 1)\<rparr>"
    using b(1) by (simp add: signMessageData_def)
  moreover obtain e where "marshal env_codec \<lparr>env_Data = b, env_Signature = sha512 (PeerPrivateKeyToPublic (demo_key 1) @ b),
      env_PubKey = PeerPrivateKeyToPublic (demo_key 1)\<rparr> = Inr e" "length e < 5000"
    using b(2) by (simp add: env_codec_def wire_codec_def rep_env_def enc_pair_def PeerPrivateKeyToPublic_eq)
  moreover have "activePeers (app_swarm demo_sender) zero32 \<noteq> None" by (simp add: demo_sender_def)
  ultimately show ?thesis
    by (auto simp: SendDataForPeer_def GetPeer_def Peer_Send_def SendGossipMessage_ok demo_stream_def frame_def)
qed

lemma register_services_ingress: "ingressChan (register_services N pub svc (NewDispatcher n)) = []"
  by (simp add: register_services_def Let_def NewDispatcher_def)

theorem chat_end_to_end_witness:
  "\<exists>(a :: (memdb, nat) Node) (b :: (memdb, nat) Node) payload packet.
     Node_Start demo_node_env [1] (replicate 32 1) (Inr (replicate 16 6)) (replicate 24 7) (Inr []) (\<lambda>_. 0) demo_udp demo_listen = Inr a \<and>
     Node_Start demo_node_env [1] (replicate 32 2) (Inr (replicate 16 6)) (replicate 24 7) (Inr []) (\<lambda>_. 0) demo_udp demo_listen = Inr b \<and>
     OnData_handler env_codec TypeChatMessage payload zero32 (node_Dispatcher b) =
       (None, (node_Dispatcher b)\<lparr>ingressChan := [packet]\<rparr>) \<and>
     processPacket msg_codec demo_ed (node_Dispatcher b) packet (demo_app 2) =
       (None, (demo_app 2)\<lparr>inbox := [[104, 105]]\<rparr>)"
proof -
  obtain a :: "(memdb, nat) Node" where a: "Node_Start demo_node_env [1] (replicate 32 1) (Inr (replicate 16 6)) (replicate 24 7)
      (Inr []) (\<lambda>_. 0) demo_udp demo_listen = Inr a" "node_PrivKey a = demo_key 1"
    using demo_node_starts by blast
  obtain b :: "(memdb, nat) Node" where b: "Node_Start demo_node_env [1] (replicate 32 2) (Inr (replicate 16 6)) (replicate 24 7)
      (Inr []) (\<lambda>_. 0) demo_udp demo_listen = Inr b" "node_PrivKey b = demo_key 2"
    using demo_node_starts by blast
  have env: "ne_K demo_node_env = demo_kx" "ne_M demo_node_env = msg_codec" "ne_V demo_node_env = env_codec"
    "ne_E demo_node_env = demo_ed"
    by (simp_all add: demo_node_env_def)
  have svc: "node_Messenger a = demo_service 1" "node_PubKey b = PeerPrivateKeyToPublic (demo_key 2)"
    using node_engine [OF a(1)] node_engine [OF b(1)]
    by (metis a(2) b(2) demo_NewEngine demo_service_def env(1) sum.inject(2))+
  obtain ct where ct: "length ct = 46" "Messenger_Send demo_kx demo_uuid (demo_service 1) (Inr (replicate 12 7))
      (replicate 16 3) 9 [zero32] (PeerPrivateKeyToPublic (demo_key 2)) [104, 105] demo_sender =
    (Inr (), demo_sender\<lparr>app_gossip := \<lparr>seenCache = (\<lambda>_. False)(replicate 16 3 := True)\<rparr>,
       outbox := [\<lparr>to_peer = zero32, send_type = TypeChatMessage,
         send_msg = (PackChatMessage (replicate 16 3) 9 ct (PeerPrivateKeyToPublic (demo_key 1))
           (PeerPrivateKeyToPublic (demo_key 2)))\<lparr>HopLimit := 19\<rparr>\<rparr>]\<rparr>)" (is "_ = (_, ?st)")
    using demo_sender_sends [of "replicate 16 3" "[104, 105]"] by auto
  let ?x = "hd (outbox ?st)"
  obtain q' where q': "SendDataForPeer msg_codec env_codec demo_ed (to_peer ?x) (send_type ?x) (send_msg ?x) (Inr demo_stream)
      (Inr ()) (app_swarm ?st) = (Inr (), Some q')" "length (wbuf q') < 2 ^ 32"
    using demo_sender_writes [of "\<lparr>EncryptedPayload = ct\<rparr>" "replicate 16 3" "send_msg ?x"] ct(1)
    by (auto simp: PackChatMessage_def PeerPrivateKeyToPublic_eq)
  have st: "myPrivKey (app_swarm demo_sender) = demo_key 1" "?x \<in> set (drop (length (outbox demo_sender)) (outbox ?st))"
    by (simp_all add: demo_sender_def demo_app_def)
  have room: "length (ingressChan (node_Dispatcher b)) < ingress_capacity"
    by (rule node_engine [OF b(1)]) (simp add: register_services_ingress ingress_capacity_def)
  note run = chat_end_to_end [OF _ _ _ _ a(1) b(1), unfolded env svc a(2) b(2), OF demo_ed_documented demo_kx_documented
      msg_codec_documented env_codec_documented demo_key_keypair demo_key_keypair st(1) ct(2) _ st(2) q'(1) _ _ q'(2) _ room refl]
  have "ingressChan (node_Dispatcher b) = []"
    by (rule node_engine [OF b(1)]) (simp add: register_services_ingress)
  with run [of "demo_stream\<lparr>rbuf := wbuf q'\<rparr>" 0 "demo_app 2"] a(1) b(1) show ?thesis
    by (simp add: gcm_NonceSize_def demo_stream_def demo_app_def) blast
qed

section \<open>The handshake and the messages\<close>

text \<open>
  C23. The answer to a nonce is a signature for an envelope: a peer that wants a message of a node
  chooses, as its nonce, the encoding of the message without the node's public key at its end (a
  chat message whose ciphertext ends with that key has such an encoding). Whenever the node
  answers, it hands out a signature with which the envelope of that message is authentic for
  every dispatcher, although the node never sent the message.
\<close>

theorem handshake_signs_envelopes:
  assumes "codec_documented M" and "ed_documented E keypair" and "keypair k"
    and "marshal M m = Inr (d @ PeerPrivateKeyToPublic k)"
    and "readFrame s = (Inr (TypeHandshake, i), s1)" and "unmarshal M i = Inr (hs_init d)"
    and "acceptHandshake M E k v s = (Inr u, s')" and "wlimit s = None"
  shows "\<exists>sig r. wbuf s' = wbuf s @ frame TypeHandshake r \<and>
    unmarshal M r = Inr (hs_response (PeerPrivateKeyToPublic k) sig v) \<and>
    authentic M E \<lparr>env_Data = d @ PeerPrivateKeyToPublic k, env_Signature = sig,
      env_PubKey = PeerPrivateKeyToPublic k\<rparr> m"
proof -
  let ?pub = "PeerPrivateKeyToPublic k"
  obtain sig r where sig: "CreateSignature E (d @ ?pub) k = Inr sig" and r: "marshal M (hs_response ?pub sig v) = Inr r"
    and w: "writeFrame TypeHandshake r s1 = (Inr u, s')"
    by (rule acceptHandshake_InrD [OF assms(7)]) (use assms(5,6) in auto)
  have "wbuf s1 = wbuf s" "wlimit s1 = None" using readFrame_rest [OF assms(5)] assms(8) by simp_all
  with w have "wbuf s' = wbuf s @ frame TypeHandshake r" by (auto simp: writeFrame_ok)
  moreover have "VerifySignature E ?pub (d @ ?pub) sig" using signature_verifies [OF assms(2,3), of "d @ ?pub"] sig by auto
  moreover have "length ?pub = 32" using keypair_length [OF assms(2,3)] by (simp add: PeerPrivateKeyToPublic_eq)
  ultimately show ?thesis
    using codec_roundtrip [OF assms(1) r] codec_roundtrip [OF assms(1,4)] by (auto simp: authentic_def)
qed

text \<open>The message that is forged in a concrete run: a chat message whose ciphertext is the key.\<close>

definition forged :: MessageData where
  "forged = PackChatMessage (replicate 16 3) 9 (PeerPrivateKeyToPublic (demo_key 1)) (replicate 32 0) []"

lemma forged_encoding: "\<exists>d. marshal msg_codec forged = Inr (d @ PeerPrivateKeyToPublic (demo_key 1)) \<and> length d < 1000"
proof -
  have "marshal msg_codec forged = Inr (e @ enc_bytes (PeerPrivateKeyToPublic (demo_key 1))) \<Longrightarrow> ?thesis" if "length e < 900" for e
    using that by (auto simp: enc_bytes_def PeerPrivateKeyToPublic_eq)
  then show ?thesis
    by (simp add: forged_def msg_codec_def wire_codec_def rep_msg_def PackChatMessage_def enc_pair_def enc_payload_def
        enc_bytes_def PeerPrivateKeyToPublic_eq)
qed

theorem handshake_signs_envelopes_witness:
  "\<exists>d i s' sig. authentic msg_codec demo_ed \<lparr>env_Data = d @ PeerPrivateKeyToPublic (demo_key 1), env_Signature = sig,
      env_PubKey = PeerPrivateKeyToPublic (demo_key 1)\<rparr> forged \<and>
    acceptHandshake msg_codec demo_ed (demo_key 1) 1 (demo_stream\<lparr>rbuf := frame TypeHandshake i\<rparr>) = (Inr (), s') \<and>
    unmarshal msg_codec i = Inr (hs_init d)"
proof -
  let ?pub = "PeerPrivateKeyToPublic (demo_key 1)"
  obtain d where d: "marshal msg_codec forged = Inr (d @ ?pub)" "length d < 1000" using forged_encoding by blast
  obtain i where i: "marshal msg_codec (hs_init d) = Inr i" "length i < 100 + 2 * length d"
    using marshal_msg_codec_length(1) by blast
  let ?s = "demo_stream\<lparr>rbuf := frame TypeHandshake i\<rparr>"
  have fr: "framable (TypeHandshake, i)" using i(2) d(2) by (simp add: framable_def msgtype_defs)
  have read: "readFrame ?s = (Inr (TypeHandshake, i), ?s\<lparr>rbuf := []\<rparr>)" using fr by (intro readFrame_frame) simp_all
  note ui = codec_roundtrip [OF msg_codec_documented i(1)]
  obtain sig where sig: "CreateSignature demo_ed (d @ ?pub) (demo_key 1) = Inr sig"
    by (simp add: CreateSignature_def PrivateKeySize_def)
  obtain r where r: "marshal msg_codec (hs_response ?pub sig 1) = Inr r" using marshal_msg_codec_length(2) by blast
  have acc: "acceptHandshake msg_codec demo_ed (demo_key 1) 1 ?s =
      (Inr (), ?s\<lparr>rbuf := [], wbuf := wbuf ?s @ frame TypeHandshake r\<rparr>)"
    using acceptHandshake_writes [of ?s i "[]" msg_codec "hs_init d" "\<lparr>Nonce = d\<rparr>"] fr ui sig r by (simp add: demo_stream_def)
  have "wlimit ?s = None" by (simp add: demo_stream_def)
  from handshake_signs_envelopes [OF msg_codec_documented demo_ed_documented demo_key_keypair d(1) read ui acc this] acc ui
  show ?thesis by blast
qed

section \<open>The transport and the swarm\<close>

text \<open>
  A run of \<^verbatim>\<open>DialEarly\<close> or of the goroutine of \<^verbatim>\<open>AcceptConn\<close>, with everything it is given, on a
  connection whose first stream could be opened.
\<close>

datatype 'c attempt =
    Dialled QuicTransport bytes "unit result" "('c \<times> bytes) result" qstream
  | Accepted_conn QuicTransport u32 bytes 'c bytes qstream

fun attempt_effects :: "MessageData codec \<Rightarrow> ed25519_lib \<Rightarrow> 'c attempt \<Rightarrow> 'c conn_effect list" where
  "attempt_effects M E (Dialled q n resolved dialed s) = fst (snd (DialEarly M E q n resolved dialed (Inr s)))"
| "attempt_effects M E (Accepted_conn q v n conn addr s) = fst (snd (AcceptConn_handler M E q v n conn addr (Inr s)))"

fun attempt_nonce :: "'c attempt \<Rightarrow> bytes" where
  "attempt_nonce (Dialled q n resolved dialed s) = n"
| "attempt_nonce (Accepted_conn q v n conn addr s) = n"

fun attempt_input :: "'c attempt \<Rightarrow> bytes" where
  "attempt_input (Dialled q n resolved dialed s) = rbuf s"
| "attempt_input (Accepted_conn q v n conn addr s) = rbuf s"

lemma attempt_authenticated:
  "ConnChan ev \<in> set (attempt_effects M E a) \<Longrightarrow>
    answered M E (attempt_nonce a) (attempt_input a) (ev_PeerPubKey ev) \<and> ev_PeerID ev = sha256 (ev_PeerPubKey ev)"
proof (cases a)
  case (Dialled q n resolved dialed s)
  assume "ConnChan ev \<in> set (attempt_effects M E a)"
  with Dialled ConnChan_authenticated [OF refl, where M = M and E = E and q = q and n = n and resolved = resolved
      and dialed = dialed and s = s and ev = ev] show ?thesis by auto
next
  case (Accepted_conn q v n conn addr s)
  assume "ConnChan ev \<in> set (attempt_effects M E a)"
  with Accepted_conn ConnChan_authenticated [OF refl, where M = M and E = E and q = q and n = n and v = v and
      conn = conn and addr = addr and s = s and ev = ev] show ?thesis by auto
qed

text \<open>
  C3. Every peer of a node is authenticated: if the connections that a swarm registers are ones
  that its transport announced, then, in every history of connections, bans and removals, a peer
  that \<^verbatim>\<open>GetPeer\<close> returns for an identifier has a public key whose hash is that identifier and
  that was authenticated by one of the runs of the transport: the bytes that the other side sent
  there contain a signature under this key over the nonce that this node had drawn.
\<close>

theorem active_peers_authenticated:
  assumes "\<forall>ev. SwConn ev \<in> set xs \<longrightarrow> (\<exists>a \<in> set runs. ConnChan ev \<in> set (attempt_effects M E a))"
    and "GetPeer j (fold (swarm_step S C r) xs (NewSwarm i k db n)) = Some p"
  shows "j = sha256 (p_pubKey p) \<and>
    (\<exists>a \<in> set runs. answered M E (attempt_nonce a) (attempt_input a) (p_pubKey p))"
proof -
  let ?s = "fold (swarm_step S C r) xs (NewSwarm i k db n)"
  let ?P = "\<lambda>key. \<exists>a \<in> set runs. answered M E (attempt_nonce a) (attempt_input a) key"
  have conn: "?P (ev_PeerPubKey ev) \<and> ev_PeerID ev = sha256 (ev_PeerPubKey ev)" if "SwConn ev \<in> set xs" for ev
    using assms(1) that attempt_authenticated by metis
  have "\<forall>x \<in> set xs. swarm_op_ok x"
  proof
    fix x assume "x \<in> set xs"
    with conn show "swarm_op_ok x" by (cases x) auto
  qed
  then have ok: "swarm_ok ?s" by (rule swarm_run_ok [OF swarm_ok_New])
  have peers: "\<forall>p \<in> set (peer_heap ?s). p_id p = sha256 (p_pubKey p) \<and> ?P (p_pubKey p)"
    using conn by (intro swarm_run_peers) (auto simp: NewSwarm_def)
  obtain a where a: "activePeers ?s j = Some a" "p = peer_heap ?s ! a" using assms(2) by (auto simp: GetPeer_def)
  with swarm_okD(1) [OF ok a(1)] have "p \<in> set (peer_heap ?s)" "p_id p = j" by auto
  with peers show ?thesis by auto
qed

theorem active_peers_authenticated_witness:
  "\<exists>out (ev :: nat NewConnEvent) p. GetPeer (sha256 (PeerPrivateKeyToPublic (demo_key 2)))
      (fold (swarm_step mem_storage pse_codec (\<lambda>c. [])) [SwConn ev] (NewSwarm [] (demo_key 1) [] 1)) = Some p \<and>
    answered msg_codec demo_ed [1] out (p_pubKey p)"
proof -
  obtain outa where a: "handshake_output msg_codec demo_ed (demo_transport 1) [1] [2] = Some outa"
    using demo_handshake_output [of "[1]" "[2]"] by auto
  obtain outb where b: "handshake_output msg_codec demo_ed (demo_transport 2) [2] [1] = Some outb"
    using demo_handshake_output [of "[2]" "[1]"] by auto
  let ?run = "Dialled (demo_transport 1) [1] (Inr ()) (Inr (0, [])) (demo_stream\<lparr>rbuf := outb\<rparr>) :: nat attempt"
  let ?ev = "\<lparr>ev_Conn = 0, ev_IsOut = True, ev_PeerID = PeerPubKeyToID (PeerPrivateKeyToPublic (demo_key 2)),
    ev_PeerPubKey = PeerPrivateKeyToPublic (demo_key 2), ev_Addr = []\<rparr> :: nat NewConnEvent"
  have "ConnChan ?ev \<in> set (attempt_effects msg_codec demo_ed ?run)"
    using authenticatePeer_honest [OF msg_codec_documented demo_ed_documented _ a b, of "demo_stream\<lparr>rbuf := outb\<rparr>" "[]"]
    by (simp add: DialEarly_def sendReadyFrame_def Write_ok Let_def newConn_def demo_stream_def demo_transport_def)
  then have conn: "\<forall>ev. SwConn ev \<in> set [SwConn ?ev] \<longrightarrow>
      (\<exists>a \<in> set [?run]. ConnChan ev \<in> set (attempt_effects msg_codec demo_ed a))" by simp
  have "\<exists>p. GetPeer (sha256 (PeerPrivateKeyToPublic (demo_key 2)))
      (fold (swarm_step mem_storage pse_codec (\<lambda>c. [])) [SwConn ?ev] (NewSwarm [] (demo_key 1) [] 1)) = Some p"
    by (simp add: GetPeer_def swarm_step_def registration_step_def AddPeer_eq NewSwarm_def Let_def PeerPubKeyToID_def)
  then obtain p where p: "GetPeer (sha256 (PeerPrivateKeyToPublic (demo_key 2)))
      (fold (swarm_step mem_storage pse_codec (\<lambda>c. [])) [SwConn ?ev] (NewSwarm [] (demo_key 1) [] 1)) = Some p" by blast
  from active_peers_authenticated [OF conn p] have "answered msg_codec demo_ed [1] outb (p_pubKey p)"
    by (simp add: demo_stream_def)
  with p show ?thesis by blast
qed

end
